theory Spec2Isabelle
  imports Complex_Main "HOL-Library.Log_Nat"
begin

section \<open>The elevation-profile engine of app.js\<close>

text \<open>
  The engine samples the ground elevation along a route of waypoints, interpolates the
  planned altitude and draws both on a canvas. This theory embeds the functions of
  \<^verbatim>\<open>src/app.js\<close> that do this work, lines 422 to 672.

  Numbers. A JavaScript number is an IEEE 754 double. Where rounding only moves a value
  by a last digit, the model computes with real numbers: arithmetic there is exact.
  Where the code can meet \<^verbatim>\<open>undefined\<close> or \<^verbatim>\<open>NaN\<close> (a pixel read outside a
  tile's buffer, the logarithm of a number that is not positive, the distance of two
  points that are nearly antipodal) the model says so with an option type. Where rounding
  decides what the program does or what a claim says (whether the haversine sum exceeds 1,
  whether two coordinates are equal) the computation is embedded in double arithmetic,
  defined first.
\<close>

subsection \<open>Constants (lines 56 to 58)\<close>

definition TILE_ZOOM :: nat where
  "TILE_ZOOM = 14"

definition SAMPLE_SPACING_METERS :: real where
  "SAMPLE_SPACING_METERS = 80"

subsection \<open>Double precision\<close>

text \<open>
  The arithmetic of the code is that of IEEE 754 binary64 numbers. A double is a rational
  number (every finite double is one), an infinity or NaN; the two zeros are not told
  apart, as \<^verbatim>\<open>==\<close> does not tell them apart either. Sums, differences and products of
  finite doubles are computed exactly and then rounded by \<open>round64\<close>: to the nearest
  number with a significand of 53 bits and a last bit worth at least \<open>2 powi (- 1074)\<close>,
  a tie going to the even significand, and to an infinity when the rounded magnitude
  reaches \<open>2 powi 1024\<close>. \<open>ilog2 x\<close> is the exponent of the leading bit of \<open>x\<close>. A
  rational is a double when rounding leaves it as it is.
\<close>

datatype double = Finite rat | PosInf | NegInf | NaN

definition ilog2 :: "rat \<Rightarrow> int" where
  "ilog2 x =
     (case quotient_of \<bar>x\<bar> of
        (p, q) \<Rightarrow>
          (let d = bitlen p - bitlen q
           in if 2 powi d \<le> \<bar>x\<bar> then d else d - 1))"

definition round_half_even :: "rat \<Rightarrow> int" where
  "round_half_even q =
     (let n = \<lfloor>q\<rfloor>;
          f = q - of_int n
      in if f < 1 / 2 then n
         else if 1 / 2 < f then n + 1
         else if even n then n else n + 1)"

definition round64 :: "rat \<Rightarrow> double" where
  "round64 x =
     (if x = 0 then Finite 0
      else
        (let e = max (ilog2 x - 52) (- 1074);
             y = of_int (round_half_even (x / 2 powi e)) * 2 powi e
         in if 2 powi 1024 \<le> \<bar>y\<bar> then (if 0 < x then PosInf else NegInf) else Finite y))"

definition is_double :: "rat \<Rightarrow> bool" where
  "is_double x = (round64 x = Finite x)"

fun fl_neg :: "double \<Rightarrow> double" where
  "fl_neg (Finite x) = Finite (- x)"
| "fl_neg PosInf = NegInf"
| "fl_neg NegInf = PosInf"
| "fl_neg NaN = NaN"

fun fl_add :: "double \<Rightarrow> double \<Rightarrow> double" where
  "fl_add (Finite x) (Finite y) = round64 (x + y)"
| "fl_add NaN y = NaN"
| "fl_add x NaN = NaN"
| "fl_add PosInf NegInf = NaN"
| "fl_add NegInf PosInf = NaN"
| "fl_add PosInf y = PosInf"
| "fl_add NegInf y = NegInf"
| "fl_add x PosInf = PosInf"
| "fl_add x NegInf = NegInf"

definition fl_sub :: "double \<Rightarrow> double \<Rightarrow> double" where
  "fl_sub x y = fl_add x (fl_neg y)"

fun fl_mul :: "double \<Rightarrow> double \<Rightarrow> double" where
  "fl_mul (Finite x) (Finite y) = round64 (x * y)"
| "fl_mul NaN y = NaN"
| "fl_mul x NaN = NaN"
| "fl_mul (Finite x) PosInf = (if x = 0 then NaN else if 0 < x then PosInf else NegInf)"
| "fl_mul (Finite x) NegInf = (if x = 0 then NaN else if 0 < x then NegInf else PosInf)"
| "fl_mul PosInf (Finite y) = (if y = 0 then NaN else if 0 < y then PosInf else NegInf)"
| "fl_mul NegInf (Finite y) = (if y = 0 then NaN else if 0 < y then NegInf else PosInf)"
| "fl_mul PosInf PosInf = PosInf"
| "fl_mul NegInf NegInf = PosInf"
| "fl_mul PosInf NegInf = NegInf"
| "fl_mul NegInf PosInf = NegInf"

text \<open>
  Quotients are rounded in the same way. A finite number divided by zero is an infinity
  with the sign of the number (the zero is taken to be the positive one), and zero divided
  by zero is NaN. \<open>fl_le\<close> is the comparison \<^verbatim>\<open><=\<close>, false when either side is NaN.
  \<^verbatim>\<open>Math.PI\<close> is the double nearest to the number pi, 3.141592653589793.
\<close>

fun fl_div :: "double \<Rightarrow> double \<Rightarrow> double" where
  "fl_div (Finite x) (Finite y) =
     (if y = 0 then (if x = 0 then NaN else if 0 < x then PosInf else NegInf)
      else round64 (x / y))"
| "fl_div NaN y = NaN"
| "fl_div x NaN = NaN"
| "fl_div (Finite x) PosInf = Finite 0"
| "fl_div (Finite x) NegInf = Finite 0"
| "fl_div PosInf (Finite y) = (if 0 \<le> y then PosInf else NegInf)"
| "fl_div NegInf (Finite y) = (if 0 \<le> y then NegInf else PosInf)"
| "fl_div PosInf y = NaN"
| "fl_div NegInf y = NaN"

fun fl_le :: "double \<Rightarrow> double \<Rightarrow> bool" where
  "fl_le NaN y = False"
| "fl_le x NaN = False"
| "fl_le (Finite x) (Finite y) = (x \<le> y)"
| "fl_le NegInf y = True"
| "fl_le x PosInf = True"
| "fl_le PosInf y = False"
| "fl_le x NegInf = False"

definition Math_PI :: double where
  "Math_PI = Finite (884279719003555 / 2 ^ 48)"

subsection \<open>Geodesy (lines 422 to 437)\<close>

text \<open>
  \<^verbatim>\<open>toRad\<close> and the sum \<^verbatim>\<open>a\<close> of \<^verbatim>\<open>haversineDistance\<close> in double arithmetic,
  each operation rounded, in the order in which JavaScript evaluates them
  (\<^verbatim>\<open>p * q * r * s\<close> is \<^verbatim>\<open>((p * q) * r) * s\<close>). \<^verbatim>\<open>Math.sin\<close> and \<^verbatim>\<open>Math.cos\<close>
  are what the platform provides: the language leaves their last digit to the
  implementation, so they are parameters here, and fields of the program's environment
  below.
\<close>

definition toRad :: "double \<Rightarrow> double" where
  "toRad deg = fl_div (fl_mul deg Math_PI) (Finite 180)"

definition haversine_a ::
  "(double \<Rightarrow> double) \<Rightarrow> (double \<Rightarrow> double) \<Rightarrow> double \<Rightarrow> double \<Rightarrow> double \<Rightarrow> double \<Rightarrow> double" where
  "haversine_a msin mcos lat1 lon1 lat2 lon2 =
     (let dLat = toRad (fl_sub lat2 lat1);
          dLon = toRad (fl_sub lon2 lon1)
      in fl_add
           (fl_mul (msin (fl_div dLat (Finite 2))) (msin (fl_div dLat (Finite 2))))
           (fl_mul
              (fl_mul
                 (fl_mul (mcos (toRad lat1)) (mcos (toRad lat2)))
                 (msin (fl_div dLon (Finite 2))))
              (msin (fl_div dLon (Finite 2)))))"

text \<open>
  \<^verbatim>\<open>Math.atan2(y, x)\<close> on real arguments. At \<open>y = 0\<close>, \<open>x = 0\<close> JavaScript
  returns 0 for the positive zero, which is the only zero \<^verbatim>\<open>Math.sqrt\<close> returns.
\<close>

definition atan2 :: "real \<Rightarrow> real \<Rightarrow> real" where
  "atan2 y x =
     (if 0 < x then arctan (y / x)
      else if x < 0 then (if 0 \<le> y then arctan (y / x) + pi else arctan (y / x) - pi)
      else if 0 < y then pi / 2
      else if y < 0 then - (pi / 2)
      else 0)"

text \<open>
  \<^verbatim>\<open>haversineDistance\<close>. In exact arithmetic \<^verbatim>\<open>a\<close> lies between 0 and 1. The double
  \<^verbatim>\<open>a\<close> can be larger than 1 by a rounding error, when the two points are nearly
  antipodal: then \<^verbatim>\<open>1 - a\<close> is negative, \<^verbatim>\<open>Math.sqrt(1 - a)\<close> is NaN, and so are
  \<^verbatim>\<open>c\<close> and the distance returned. The same holds for an \<^verbatim>\<open>a\<close> that is negative,
  infinite or NaN. The result is therefore a number or NaN (\<open>None\<close>). When \<^verbatim>\<open>a\<close> is
  between 0 and 1 the result is a number, computed from the double \<^verbatim>\<open>a\<close> in exact
  arithmetic: the rounding of the square roots, of \<^verbatim>\<open>Math.atan2\<close> and of the two
  products moves its last digits only.
\<close>

definition haversineDistance ::
  "(double \<Rightarrow> double) \<Rightarrow> (double \<Rightarrow> double) \<Rightarrow> double \<Rightarrow> double \<Rightarrow> double \<Rightarrow> double
     \<Rightarrow> real option" where
  "haversineDistance msin mcos lat1 lon1 lat2 lon2 =
     (let R = 6371000
      in case haversine_a msin mcos lat1 lon1 lat2 lon2 of
           Finite a \<Rightarrow>
             if 0 \<le> a \<and> a \<le> 1
             then (let c = 2 * atan2 (sqrt (of_rat a)) (sqrt (1 - of_rat a)) in Some (R * c))
             else None
         | _ \<Rightarrow> None)"

definition interpolateCoordinate :: "real \<Rightarrow> real \<Rightarrow> real \<Rightarrow> real" where
  "interpolateCoordinate start end t = start + (end - start) * t"

text \<open>
  \<^verbatim>\<open>interpolateCoordinate\<close> (lines 435 to 437) in this arithmetic: the difference, then the
  product, then the sum, each rounded.
\<close>

definition interpolateCoordinate_double :: "double \<Rightarrow> double \<Rightarrow> double \<Rightarrow> double" where
  "interpolateCoordinate_double start end t = fl_add start (fl_mul (fl_sub end start) t)"


subsection \<open>Elevation decoder (lines 545 to 551)\<close>

text \<open>
  A channel value is a number, or \<^verbatim>\<open>undefined\<close> (\<open>None\<close>) when the pixel index is
  outside the buffer. With an undefined channel \<^verbatim>\<open>value\<close> is NaN, both comparisons
  are false, and the function returns NaN.
\<close>

datatype decoded = Null | NotANumber | Elevation real

definition decodeElevation :: "real option \<Rightarrow> real option \<Rightarrow> real option \<Rightarrow> decoded" where
  "decodeElevation r g b =
     (case (r, g, b) of
        (Some r', Some g', Some b') \<Rightarrow>
          (let value = r' * 256 * 256 + g' * 256 + b'
           in if value = 0 \<or> value = 256 * 256 * 256 - 1 then Null
              else Elevation (value / 10 - 10000))
      | _ \<Rightarrow> NotANumber)"

subsection \<open>Tile coordinate projection (lines 498 to 505)\<close>

text \<open>
  The continuous tile coordinates \<^verbatim>\<open>x\<close> and \<^verbatim>\<open>y\<close> of
  \<^verbatim>\<open>getElevationFromTile\<close>. \<^verbatim>\<open>Math.log\<close> of a negative number is NaN: the
  argument \<open>tan latRad + 1 / cos latRad\<close> is positive exactly when \<open>cos latRad\<close> is.
  These are the coordinates in exact arithmetic, which the lookup below uses. At a pole
  the exact value divides by zero, and the model gives NaN (\<open>None\<close>); the double
  computation there depends on the rounding of \<^verbatim>\<open>Math.tan\<close> and \<^verbatim>\<open>Math.cos\<close>.
\<close>

definition tile_x :: "real \<Rightarrow> real" where
  "tile_x lon = ((lon + 180) / 360) * 2 ^ TILE_ZOOM"
  for lon

definition tile_y :: "real \<Rightarrow> real option" where
  "tile_y lat =
     (let latRad = (lat * pi) / 180
      in if 0 < cos latRad
         then Some ((1 - ln (tan latRad + 1 / cos latRad) / pi) / 2 * 2 ^ TILE_ZOOM)
         else None)"
  for lat


text \<open>
  The same two coordinates in double arithmetic, each operation rounded.
  \<^verbatim>\<open>Math.pow(2, TILE_ZOOM)\<close> is exactly 16384; \<^verbatim>\<open>Math.tan\<close>, \<^verbatim>\<open>Math.cos\<close> and
  \<^verbatim>\<open>Math.log\<close> are parameters, as \<^verbatim>\<open>Math.sin\<close> is above.
\<close>

definition tile_x_double :: "double \<Rightarrow> double" where
  "tile_x_double lon =
     (let n = Finite (2 ^ TILE_ZOOM)
      in fl_mul (fl_div (fl_add lon (Finite 180)) (Finite 360)) n)"
  for lon

definition tile_y_double ::
  "(double \<Rightarrow> double) \<Rightarrow> (double \<Rightarrow> double) \<Rightarrow> (double \<Rightarrow> double) \<Rightarrow> double \<Rightarrow> double" where
  "tile_y_double mtan mcos mlog lat =
     (let latRad = fl_div (fl_mul lat Math_PI) (Finite 180);
          n = Finite (2 ^ TILE_ZOOM)
      in fl_mul
           (fl_div
              (fl_sub (Finite 1)
                 (fl_div (mlog (fl_add (mtan latRad) (fl_div (Finite 1) (mcos latRad)))) Math_PI))
              (Finite 2))
           n)"
  for lat

subsection \<open>The program's state and its environment\<close>

text \<open>
  A waypoint as \<^verbatim>\<open>addWaypoint\<close> builds it (lines 176 to 184); the engine reads the
  three numeric fields only. They are finite doubles, given by their values.
\<close>

datatype waypoint_type = takeoff | transition_to_fixed | transit | transition_to_rotary | landing

record waypoint =
  wp_id :: string
  wp_type :: waypoint_type
  latitude :: rat
  longitude :: rat
  altitude :: rat
  wp_note :: string

text \<open>
  A sample as \<^verbatim>\<open>sampleElevationAlongRoute\<close> pushes it. The distance is a number or
  NaN (\<open>None\<close>); the ground elevation is a number or \<^verbatim>\<open>null\<close> (\<open>None\<close>).
\<close>

record sample =
  distance :: "real option"
  lat :: real
  lon :: real
  groundElevation :: "real option"
  plannedAltitude :: real

text \<open>
  A tile is addressed by the key string \<^verbatim>\<open>z/x/y\<close>. The three parts are integers,
  except that \<^verbatim>\<open>y\<close> is NaN (\<open>None\<close>) where the projection is; the string is
  injective on such triples, so the triple is the key. The decoded tile is the byte buffer
  of \<^verbatim>\<open>getImageData(...).data\<close>.
\<close>

type_synonym tile_key = "nat \<times> int \<times> int option"

type_synonym tile_data = "nat list"

text \<open>
  What can go wrong in \<^verbatim>\<open>fetchElevationTile\<close>: \<^verbatim>\<open>fetch\<close> rejects, the status
  is not a success and the function throws, or the body does not become a pixel buffer
  (reading the body, \<^verbatim>\<open>createImageBitmap\<close> or \<^verbatim>\<open>getImageData\<close> throws). And what
  can go wrong in \<^verbatim>\<open>drawElevationProfile\<close>: a call that spreads an array into more
  arguments than the engine accepts throws a \<^verbatim>\<open>RangeError\<close>.
\<close>

datatype error = NetworkError | HttpError nat | ImageDecodeError | RangeError

datatype response_body = Undecodable | Pixels tile_data

datatype fetch_outcome = Rejected | Response nat response_body

text \<open>
  The network is a parameter: the outcome of a request for a key, given how many requests
  were made before it, so the same tile may fail first and succeed later.
\<close>

type_synonym network = "nat \<Rightarrow> tile_key \<Rightarrow> fetch_outcome"

datatype log_entry = Warn error | Error error

text \<open>What the profile canvas is told to do, in order.\<close>

datatype message = MsgComputing | MsgInsufficient | MsgFetchFailed

datatype label = Placeholder message | TickLabel int | AltitudeAxis | DistanceAxis

datatype draw_cmd =
    ClearRect real real real real
  | FillStyle string
  | StrokeStyle string
  | LineWidth real
  | Font real
  | TextAlign string
  | TextBaseline string
  | FillText label real real
  | BeginPath
  | MoveTo real real
  | LineTo real real
  | ClosePath
  | Fill
  | Stroke
  | Save
  | Restore
  | Translate real real
  | Rotate real
  | Resize int int

text \<open>
  The mutable globals of the script (\<^verbatim>\<open>state.waypoints\<close>, \<^verbatim>\<open>state.profileToken\<close>,
  \<^verbatim>\<open>tileCache\<close>, the canvas), the logs of what it did to the outside (network requests,
  console, drawing commands), what the browser reports of the display, and what the
  JavaScript engine provides: its \<^verbatim>\<open>Math.sin\<close> and \<^verbatim>\<open>Math.cos\<close>, and the largest
  number of arguments it accepts in one call (the limit differs between engines; some
  tens of thousands to some hundreds of thousands).
\<close>

record world =
  state_waypoints :: "waypoint list"
  state_profileToken :: nat
  tileCache :: "tile_key \<Rightarrow> tile_data option"
  requests :: "tile_key list"
  console :: "log_entry list"
  canvas_width :: int
  canvas_height :: int
  drawn :: "draw_cmd list"
  rect_width :: real
  rect_height :: real
  devicePixelRatio :: real
  Math_sin :: "double \<Rightarrow> double"
  Math_cos :: "double \<Rightarrow> double"
  argument_limit :: nat

subsection \<open>Tile cache and fetcher (lines 522 to 543)\<close>

definition response_ok :: "nat \<Rightarrow> bool" where
  "response_ok status = (200 \<le> status \<and> status \<le> 299)"

definition fetchElevationTile ::
  "network \<Rightarrow> nat \<Rightarrow> int \<Rightarrow> int option \<Rightarrow> world \<Rightarrow> (error + tile_data) \<times> world" where
  "fetchElevationTile net z x y w =
     (let key = (z, x, y)
      in case tileCache w key of
           Some cached \<Rightarrow> (Inr cached, w)
         | None \<Rightarrow>
             (let w1 = w\<lparr>requests := requests w @ [key]\<rparr>
              in case net (length (requests w)) key of
                   Rejected \<Rightarrow> (Inl NetworkError, w1)
                 | Response status body \<Rightarrow>
                     if \<not> response_ok status then (Inl (HttpError status), w1)
                     else (case body of
                             Undecodable \<Rightarrow> (Inl ImageDecodeError, w1)
                           | Pixels imageData \<Rightarrow>
                               (Inr imageData,
                                w1\<lparr>tileCache := (tileCache w1)(key \<mapsto> imageData)\<rparr>))))"

subsection \<open>Ground elevation of a point (lines 496 to 520)\<close>

text \<open>
  \<^verbatim>\<open>tileData[index]\<close>: the byte at the index, or \<^verbatim>\<open>undefined\<close> when the index is
  NaN or outside the buffer.
\<close>

definition read_channel :: "tile_data \<Rightarrow> int option \<Rightarrow> real option" where
  "read_channel tileData index =
     (case index of
        None \<Rightarrow> None
      | Some i \<Rightarrow> if 0 \<le> i \<and> nat i < length tileData then Some (real (tileData ! nat i)) else None)"

text \<open>
  The body of the \<^verbatim>\<open>try\<close> block. The test \<^verbatim>\<open>if (!tileData) return null\<close> has no
  branch here: a pixel buffer is an object, and every object is truthy.
  \<^verbatim>\<open>Number.isFinite\<close> keeps a decoded elevation and turns \<^verbatim>\<open>null\<close> and NaN into
  \<^verbatim>\<open>null\<close>.
\<close>

definition getElevationFromTile_try ::
  "network \<Rightarrow> real \<Rightarrow> real \<Rightarrow> world \<Rightarrow> (error + real option) \<times> world" where
  "getElevationFromTile_try net lat lon w =
     (let x = tile_x lon;
          y = tile_y lat;
          xTile = \<lfloor>x\<rfloor>;
          yTile = map_option floor y;
          xPixel = \<lfloor>(x - of_int xTile) * 256\<rfloor>;
          yPixel = map_option (\<lambda>y'. \<lfloor>(y' - of_int \<lfloor>y'\<rfloor>) * 256\<rfloor>) y
      in case fetchElevationTile net TILE_ZOOM xTile yTile w of
           (Inl e, w') \<Rightarrow> (Inl e, w')
         | (Inr tileData, w') \<Rightarrow>
             (let index = map_option (\<lambda>yp. (yp * 256 + xPixel) * 4) yPixel;
                  r = read_channel tileData index;
                  g = read_channel tileData (map_option (\<lambda>i. i + 1) index);
                  b = read_channel tileData (map_option (\<lambda>i. i + 2) index);
                  elevation = decodeElevation r g b
              in (Inr (case elevation of Elevation v \<Rightarrow> Some v | _ \<Rightarrow> None), w')))"
  for lat lon

text \<open>The \<^verbatim>\<open>catch\<close>: the error is logged with \<^verbatim>\<open>console.warn\<close> and the result is null.\<close>

definition getElevationFromTile ::
  "network \<Rightarrow> real \<Rightarrow> real \<Rightarrow> world \<Rightarrow> (error + real option) \<times> world" where
  "getElevationFromTile net lat lon w =
     (case getElevationFromTile_try net lat lon w of
        (Inl e, w') \<Rightarrow> (Inr None, w'\<lparr>console := console w' @ [Warn e]\<rparr>)
      | (Inr v, w') \<Rightarrow> (Inr v, w'))"
  for lat lon

subsection \<open>Route sampler (lines 459 to 494)\<close>

text \<open>
  Sums and products of numbers of which one may be NaN: the result is NaN when an operand
  is.
\<close>

fun plus_number :: "real option \<Rightarrow> real option \<Rightarrow> real option" where
  "plus_number (Some x) (Some y) = Some (x + y)"
| "plus_number x y = None"

fun times_number :: "real option \<Rightarrow> real option \<Rightarrow> real option" where
  "times_number (Some x) (Some y) = Some (x * y)"
| "times_number x y = None"

text \<open>
  The route is the array as it is when the sampler is called, and the two loops run to
  their end with no other code in between. (The editor changes the array in place; when it
  does so while the sampler waits for a tile, it also starts a newer refresh, and the
  result of this one is dropped.)

  The inner loop, from \<open>step\<close> on. \<^verbatim>\<open>steps\<close> is an integer, or NaN (\<open>None\<close>) when the
  segment's distance is NaN: then the test \<^verbatim>\<open>step <= steps\<close> is false at once and the
  loop body never runs. An exception of the awaited lookup would leave the loop
  (\<open>Inl\<close>). The sample of step 0 is looked up and then dropped when \<open>i \<noteq> 0\<close>.
\<close>

function sample_steps ::
  "network \<Rightarrow> nat \<Rightarrow> waypoint \<Rightarrow> waypoint \<Rightarrow> real option \<Rightarrow> real option \<Rightarrow> int option \<Rightarrow> int
     \<Rightarrow> sample list \<Rightarrow> world \<Rightarrow> (error + sample list) \<times> world" where
  "sample_steps net i start end segmentDistance cumulativeDistance steps step samples w =
     (case steps of
        None \<Rightarrow> (Inr samples, w)
      | Some n \<Rightarrow>
          if step \<le> n then
            (let t = of_int step / of_int n;
                 lat = interpolateCoordinate (of_rat (latitude start)) (of_rat (latitude end)) t;
                 lon = interpolateCoordinate (of_rat (longitude start)) (of_rat (longitude end)) t
             in case getElevationFromTile net lat lon w of
                  (Inl e, w') \<Rightarrow> (Inl e, w')
                | (Inr groundElevation', w') \<Rightarrow>
                    (let plannedAltitude =
                           interpolateCoordinate (of_rat (altitude start)) (of_rat (altitude end)) t;
                         distance =
                           plus_number cumulativeDistance (times_number segmentDistance (Some t))
                     in if step = 0 \<and> i \<noteq> 0
                        then sample_steps net i start end segmentDistance cumulativeDistance steps
                               (step + 1) samples w'
                        else sample_steps net i start end segmentDistance cumulativeDistance steps
                               (step + 1)
                               (samples @ [\<lparr>distance = distance, lat = lat, lon = lon,
                                            groundElevation = groundElevation',
                                            plannedAltitude = plannedAltitude\<rparr>]) w'))
          else (Inr samples, w))"
  by pat_completeness auto
termination
  by (relation "measure (\<lambda>(net, i, start, end, sd, cd, steps, step, samples, w).
                  case steps of None \<Rightarrow> 0 | Some n \<Rightarrow> nat (n + 1 - step))")
    auto

text \<open>
  The outer loop, from segment \<open>i\<close> on. \<^verbatim>\<open>Math.ceil\<close> of NaN is NaN and so is
  \<^verbatim>\<open>Math.max(1, NaN)\<close>; \<^verbatim>\<open>cumulativeDistance += segmentDistance\<close> makes the
  cumulative distance NaN for all the segments after one whose distance is NaN.
\<close>

function sample_segments ::
  "network \<Rightarrow> waypoint list \<Rightarrow> nat \<Rightarrow> real option \<Rightarrow> sample list \<Rightarrow> world
     \<Rightarrow> (error + sample list) \<times> world" where
  "sample_segments net waypoints i cumulativeDistance samples w =
     (if int i < int (length waypoints) - 1 then
        (let start = waypoints ! i;
             end = waypoints ! (i + 1);
             segmentDistance =
               haversineDistance (Math_sin w) (Math_cos w)
                 (Finite (latitude start)) (Finite (longitude start))
                 (Finite (latitude end)) (Finite (longitude end));
             steps = map_option (\<lambda>d. max 1 \<lceil>d / SAMPLE_SPACING_METERS\<rceil>) segmentDistance
         in case sample_steps net i start end segmentDistance cumulativeDistance steps 0 samples w of
              (Inl e, w') \<Rightarrow> (Inl e, w')
            | (Inr samples', w') \<Rightarrow>
                sample_segments net waypoints (i + 1)
                  (plus_number cumulativeDistance segmentDistance) samples' w')
      else (Inr samples, w))"
  by pat_completeness auto
termination
  by (relation "measure (\<lambda>(net, waypoints, i, cd, samples, w). length waypoints - i)") auto

definition sampleElevationAlongRoute ::
  "network \<Rightarrow> waypoint list \<Rightarrow> world \<Rightarrow> (error + sample list) \<times> world" where
  "sampleElevationAlongRoute net waypoints w = sample_segments net waypoints 0 (Some 0) [] w"

subsection \<open>Profile renderer (lines 553 to 672)\<close>

text \<open>
  \<^verbatim>\<open>resizeCanvas\<close>: \<^verbatim>\<open>Math.round\<close> is \<open>\<lfloor>x + 1/2\<rfloor>\<close>, which is \<open>round\<close>;
  \<^verbatim>\<open>window.devicePixelRatio || 1\<close> replaces a ratio of 0. Assigning the canvas a new
  size is logged as \<open>Resize\<close>.
\<close>

definition resizeCanvas :: "world \<Rightarrow> (int \<times> int \<times> real) \<times> world" where
  "resizeCanvas w =
     (let dpr = (if devicePixelRatio w = 0 then 1 else devicePixelRatio w);
          width = round (rect_width w * dpr);
          height = round (rect_height w * dpr)
      in if canvas_width w \<noteq> width \<or> canvas_height w \<noteq> height
         then ((width, height, dpr),
               w\<lparr>canvas_width := width, canvas_height := height,
                 drawn := drawn w @ [Resize width height]\<rparr>)
         else ((width, height, dpr), w))"

definition drawProfilePlaceholder :: "message \<Rightarrow> world \<Rightarrow> world" where
  "drawProfilePlaceholder message w =
     (case resizeCanvas w of
        ((width, height, dpr), w1) \<Rightarrow>
          w1\<lparr>drawn := drawn w1 @
            [ClearRect 0 0 (of_int width) (of_int height),
             FillStyle ''#666'',
             Font (of_int (max 14 \<lfloor>of_int height / (12::real)\<rfloor>)),
             TextAlign ''center'',
             TextBaseline ''middle'',
             FillText (Placeholder message) (of_int width / 2) (of_int height / 2)]\<rparr>)"

definition chooseNiceStep :: "real \<Rightarrow> real" where
  "chooseNiceStep rawStep =
     (let steps = [10, 20, 50, 100, 200, 500, 1000, 2000]
      in case find (\<lambda>step. rawStep \<le> step) steps of
           Some step \<Rightarrow> step
         | None \<Rightarrow> steps ! (length steps - 1))"

text \<open>
  A point of a line has the x coordinate of its sample's distance, which is NaN when the
  distance is. The canvas ignores a call of \<^verbatim>\<open>moveTo\<close> or \<^verbatim>\<open>lineTo\<close> with a
  coordinate that is not finite: such a call does nothing and is not logged.
\<close>

definition move_to :: "real option \<Rightarrow> real \<Rightarrow> draw_cmd list" where
  "move_to x y = (case x of Some x' \<Rightarrow> [MoveTo x' y] | None \<Rightarrow> [])"

definition line_to :: "real option \<Rightarrow> real \<Rightarrow> draw_cmd list" where
  "line_to x y = (case x of Some x' \<Rightarrow> [LineTo x' y] | None \<Rightarrow> [])"

text \<open>
  \<^verbatim>\<open>forEach((sample, index) => ...)\<close> over the points of a line: \<^verbatim>\<open>moveTo\<close> for the
  first, \<^verbatim>\<open>lineTo\<close> for the others.
\<close>

fun path_cmds :: "(real option \<times> real) list \<Rightarrow> draw_cmd list" where
  "path_cmds [] = []"
| "path_cmds ((x, y) # rest) = move_to x y @ concat (map (\<lambda>(x', y'). line_to x' y') rest)"

text \<open>
  The loop over the distance ticks, from \<open>d\<close> on. \<^verbatim>\<open>stepMeters\<close> is
  \<open>chooseNiceStep (effectiveTotal / 5)\<close>, which is at least 10, so the loop ends.
\<close>

function distance_ticks ::
  "real \<Rightarrow> real \<Rightarrow> (real \<Rightarrow> real) \<Rightarrow> real \<Rightarrow> real \<Rightarrow> real \<Rightarrow> real \<Rightarrow> draw_cmd list" where
  "distance_ticks effectiveTotal totalDistance xScale height margin dpr d =
     (if d \<le> effectiveTotal + 1 / 1000000 then
        (let stepMeters = chooseNiceStep (effectiveTotal / 5);
             actual = min d totalDistance;
             x = xScale actual
         in [BeginPath,
             MoveTo x (height - margin),
             LineTo x (height - margin + 6 * dpr),
             StrokeStyle ''#666'',
             Stroke,
             FillText (TickLabel (round actual)) x (height - margin + 18 * dpr)]
            @ distance_ticks effectiveTotal totalDistance xScale height margin dpr (d + stepMeters))
      else [])"
  by pat_completeness auto
termination
proof (relation "measure (\<lambda>(effectiveTotal, totalDistance, xScale, height, margin, dpr, d).
                    nat (\<lfloor>(effectiveTotal + 1 / 1000000 - d) / 10\<rfloor> + 1))")
  show "wf (measure (\<lambda>(effectiveTotal, totalDistance, xScale, height, margin, dpr, d).
                    nat (\<lfloor>(effectiveTotal + 1 / 1000000 - d) / 10\<rfloor> + 1)))"
    by simp
next
  fix effectiveTotal totalDistance :: real and xScale :: "real \<Rightarrow> real"
    and height margin dpr d stepMeters actual x :: real
  assume le: "d \<le> effectiveTotal + 1 / 1000000"
    and st: "stepMeters = chooseNiceStep (effectiveTotal / 5)"
  have "10 \<le> stepMeters"
    unfolding st chooseNiceStep_def Let_def by simp
  then have "(effectiveTotal + 1 / 1000000 - (d + stepMeters)) / 10
               \<le> (effectiveTotal + 1 / 1000000 - d) / 10 - 1"
    by (simp add: field_simps)
  then have "\<lfloor>(effectiveTotal + 1 / 1000000 - (d + stepMeters)) / 10\<rfloor>
               \<le> \<lfloor>(effectiveTotal + 1 / 1000000 - d) / 10\<rfloor> - 1"
    by linarith
  moreover have "0 \<le> \<lfloor>(effectiveTotal + 1 / 1000000 - d) / 10\<rfloor>"
    using le by simp
  ultimately show "((effectiveTotal, totalDistance, xScale, height, margin, dpr, d + stepMeters),
             (effectiveTotal, totalDistance, xScale, height, margin, dpr, d))
          \<in> measure (\<lambda>(effectiveTotal, totalDistance, xScale, height, margin, dpr, d).
                    nat (\<lfloor>(effectiveTotal + 1 / 1000000 - d) / 10\<rfloor> + 1))"
    by simp
qed

text \<open>
  \<^verbatim>\<open>drawElevationProfile\<close>. \<^verbatim>\<open>distances[distances.length - 1] || 1\<close> is 1 for no
  sample and for a last distance that is 0 or NaN. \<^verbatim>\<open>Math.min(...elevations, 0)\<close>
  and \<^verbatim>\<open>Math.max(...elevations, ...planned, minElevation + 10)\<close> spread their arrays
  into arguments, one argument for each element: a call with more arguments than the
  engine accepts throws a \<^verbatim>\<open>RangeError\<close> (\<open>Inl\<close>), after the canvas has been resized
  and cleared and before anything is drawn. Otherwise the two calls fold the lists from
  their last arguments. The calls on the canvas context are taken not to throw.
\<close>

definition drawElevationProfile :: "sample list \<Rightarrow> world \<Rightarrow> (error + unit) \<times> world" where
  "drawElevationProfile samples w =
     (case resizeCanvas w of
        ((width, height, dpr), w1) \<Rightarrow>
          (let w2 = w1\<lparr>drawn := drawn w1 @ [ClearRect 0 0 (of_int width) (of_int height)]\<rparr>;
               margin = 40 * dpr;
               plotWidth = of_int width - margin * 2;
               plotHeight = max (of_int height - margin * 2) dpr;
               distances = map distance samples;
               totalDistance =
                 (if distances = [] \<or> last distances = None \<or> last distances = Some 0 then 1
                  else the (last distances));
               elevations = map the (filter (\<lambda>v. v \<noteq> None) (map groundElevation samples));
               planned = map plannedAltitude samples
           in if argument_limit w < length elevations + 1 then (Inl RangeError, w2)
              else if argument_limit w < length elevations + length planned + 1
              then (Inl RangeError, w2)
              else
                (let minElevation = foldr min elevations 0;
                     maxElevation = foldr max (elevations @ planned) (minElevation + 10);
                     xScale = (\<lambda>distance. margin + (distance / totalDistance) * plotWidth);
                     yScale = (\<lambda>value. margin + plotHeight
                                 - ((value - minElevation) / max (maxElevation - minElevation) 1)
                                   * plotHeight);
                     validSamples = filter (\<lambda>s. groundElevation s \<noteq> None) samples;
                     ground =
                       (if 2 \<le> length validSamples then
                          [BeginPath]
                          @ path_cmds (map (\<lambda>sample. (map_option xScale (distance sample),
                                                       yScale (the (groundElevation sample))))
                                         validSamples)
                          @ line_to (map_option xScale (distance (last validSamples)))
                              (yScale minElevation)
                          @ line_to (map_option xScale (distance (hd validSamples)))
                              (yScale minElevation)
                          @ [ClosePath,
                             FillStyle ''rgba(132, 94, 247, 0.15)'',
                             Fill,
                             StrokeStyle ''rgba(132, 94, 247, 0.6)'',
                             LineWidth (2 * dpr),
                             Stroke]
                        else []);
                     plannedLine =
                       [BeginPath, StrokeStyle ''#ff6b6b'', LineWidth (2.5 * dpr)]
                       @ path_cmds (map (\<lambda>sample. (map_option xScale (distance sample),
                                                    yScale (plannedAltitude sample))) samples)
                       @ [Stroke];
                     axes =
                       [StrokeStyle ''#444'',
                        LineWidth dpr,
                        BeginPath,
                        MoveTo margin (margin - dpr * 0.5),
                        LineTo margin (of_int height - margin + dpr * 0.5),
                        LineTo (of_int width - margin + dpr * 0.5)
                          (of_int height - margin + dpr * 0.5),
                        Stroke,
                        FillStyle ''#222'',
                        Font (12 * dpr),
                        TextAlign ''center''];
                     effectiveTotal = max totalDistance 1;
                     ticks = distance_ticks effectiveTotal totalDistance xScale (of_int height)
                               margin dpr 0;
                     labels =
                       [Save,
                        Translate (margin - 26 * dpr) (margin + plotHeight / 2),
                        Rotate (- pi / 2),
                        FillText AltitudeAxis 0 0,
                        Restore,
                        TextAlign ''right'',
                        FillText DistanceAxis (of_int width - margin)
                          (of_int height - margin + 32 * dpr)]
                 in (Inr (),
                     w2\<lparr>drawn := drawn w2 @ ground @ plannedLine @ axes @ ticks @ labels\<rparr>))))"

subsection \<open>Refresh (lines 439 to 457)\<close>

text \<open>
  \<^verbatim>\<open>updateElevationProfile\<close> runs up to its \<^verbatim>\<open>await\<close>, and is resumed when the
  sampler has returned samples (\<open>Inr\<close>) or thrown (\<open>Inl\<close>). The first part returns the
  token it captured when it suspends, and \<open>None\<close> when it returns before sampling.
  The token is a natural number: the counter is incremented by 1 for each refresh and never
  reaches the size where a double stops counting. The \<^verbatim>\<open>catch\<close> is entered when
  the sampler has thrown and when \<^verbatim>\<open>drawElevationProfile\<close>, which is called inside
  the \<^verbatim>\<open>try\<close>, throws; it logs the error with \<^verbatim>\<open>console.error\<close> before it
  compares the tokens.
\<close>

definition updateElevationProfile_begin :: "world \<Rightarrow> nat option \<times> world" where
  "updateElevationProfile_begin w =
     (let w1 = w\<lparr>state_profileToken := state_profileToken w + 1\<rparr>;
          token = state_profileToken w1;
          w2 = drawProfilePlaceholder MsgComputing w1
      in if length (state_waypoints w2) < 2
         then (None, drawProfilePlaceholder MsgInsufficient w2)
         else (Some token, w2))"

definition updateElevationProfile_catch :: "nat \<Rightarrow> error \<Rightarrow> world \<Rightarrow> world" where
  "updateElevationProfile_catch token error w =
     (let w1 = w\<lparr>console := console w @ [Error error]\<rparr>
      in if token \<noteq> state_profileToken w1 then w1
         else drawProfilePlaceholder MsgFetchFailed w1)"

definition updateElevationProfile_resume :: "nat \<Rightarrow> error + sample list \<Rightarrow> world \<Rightarrow> world" where
  "updateElevationProfile_resume token result w =
     (case result of
        Inr samples \<Rightarrow>
          if token \<noteq> state_profileToken w then w
          else (case drawElevationProfile samples w of
                  (Inr u, w') \<Rightarrow> w'
                | (Inl error, w') \<Rightarrow> updateElevationProfile_catch token error w')
      | Inl error \<Rightarrow> updateElevationProfile_catch token error w)"

text \<open>A refresh that nothing interrupts between its two parts.\<close>

definition updateElevationProfile :: "network \<Rightarrow> world \<Rightarrow> world" where
  "updateElevationProfile net w =
     (case updateElevationProfile_begin w of
        (None, w1) \<Rightarrow> w1
      | (Some token, w1) \<Rightarrow>
          (case sampleElevationAlongRoute net (state_waypoints w1) w1 of
             (result, w2) \<Rightarrow> updateElevationProfile_resume token result w2))"

text \<open>
  Refreshes that overlap. Between the two parts of a refresh other code runs: further
  refreshes start, suspended ones are resumed with what their sampler produced, the editor
  replaces the route, tile lookups change the cache and the logs, the display changes.
  The system is the world and the tokens of the suspended refreshes.
\<close>

datatype event =
    Refresh
  | Resume nat "error + sample list"
  | Edit "waypoint list"
  | TileIO "tile_key \<Rightarrow> tile_data option" "tile_key list" "log_entry list"
  | Display real real real

fun system_step :: "event \<Rightarrow> world \<times> nat list \<Rightarrow> world \<times> nat list" where
  "system_step Refresh (w, pending) =
     (case updateElevationProfile_begin w of
        (None, w') \<Rightarrow> (w', pending)
      | (Some token, w') \<Rightarrow> (w', pending @ [token]))"
| "system_step (Resume token result) (w, pending) =
     (if token \<in> set pending
      then (updateElevationProfile_resume token result w, remove1 token pending)
      else (w, pending))"
| "system_step (Edit wps) (w, pending) = (w\<lparr>state_waypoints := wps\<rparr>, pending)"
| "system_step (TileIO cache reqs logs) (w, pending) =
     (w\<lparr>tileCache := cache, requests := reqs, console := logs\<rparr>, pending)"
| "system_step (Display rw rh ratio) (w, pending) =
     (w\<lparr>rect_width := rw, rect_height := rh, devicePixelRatio := ratio\<rparr>, pending)"

fun exec :: "event list \<Rightarrow> world \<times> nat list \<Rightarrow> world \<times> nat list" where
  "exec [] s = s"
| "exec (e # es) s = exec es (system_step e s)"

subsection \<open>The sampler as a sequence of lookups\<close>

text \<open>
  The steps of segment \<open>i\<close> whose sample is pushed, and the sample of a step as the inner
  loop computes it (without the ground elevation).
\<close>

definition emitted :: "nat \<Rightarrow> int \<Rightarrow> bool" where
  "emitted i k = (\<not> (k = 0 \<and> i \<noteq> 0))"

definition step_sample ::
  "waypoint \<Rightarrow> waypoint \<Rightarrow> real option \<Rightarrow> real option \<Rightarrow> int \<Rightarrow> int \<Rightarrow> sample" where
  "step_sample a b sd cum steps k =
     \<lparr>distance = plus_number cum (times_number sd (Some (of_int k / of_int steps))),
      lat = interpolateCoordinate (of_rat (latitude a)) (of_rat (latitude b))
              (of_int k / of_int steps),
      lon = interpolateCoordinate (of_rat (longitude a)) (of_rat (longitude b))
              (of_int k / of_int steps),
      groundElevation = None,
      plannedAltitude = interpolateCoordinate (of_rat (altitude a)) (of_rat (altitude b))
              (of_int k / of_int steps)\<rparr>"

text \<open>
  The distance of a segment as the sampler computes it, with the \<^verbatim>\<open>Math.sin\<close> and
  \<^verbatim>\<open>Math.cos\<close> of the world it runs in.
\<close>

definition segment_distance :: "world \<Rightarrow> waypoint \<Rightarrow> waypoint \<Rightarrow> real option" where
  "segment_distance w a b =
     haversineDistance (Math_sin w) (Math_cos w)
       (Finite (latitude a)) (Finite (longitude a)) (Finite (latitude b)) (Finite (longitude b))"

text \<open>
  The points the two loops visit, in order, each with the mark whether its sample is
  kept: the steps \<open>0..steps\<close> of every segment whose distance is a number, and no point of
  a segment whose distance is NaN. A visit looks the point up in the state the visits
  before have left, and a kept sample gets the result of its own lookup.
\<close>

fun route_visits ::
  "(waypoint \<Rightarrow> waypoint \<Rightarrow> real option) \<Rightarrow> nat \<Rightarrow> real option \<Rightarrow> waypoint list
     \<Rightarrow> (bool \<times> sample) list" where
  "route_visits sdist i cumulative (a # b # rest) =
     (case sdist a b of
        None \<Rightarrow> []
      | Some d \<Rightarrow>
          map (\<lambda>k. (emitted i k, step_sample a b (Some d) cumulative (max 1 \<lceil>d / SAMPLE_SPACING_METERS\<rceil>) k))
            [0 .. max 1 \<lceil>d / SAMPLE_SPACING_METERS\<rceil>])
     @ route_visits sdist (i + 1) (plus_number cumulative (sdist a b)) (b # rest)"
| "route_visits sdist i cumulative [a] = []"
| "route_visits sdist i cumulative [] = []"

fun visit_all :: "network \<Rightarrow> (bool \<times> sample) list \<Rightarrow> world \<Rightarrow> sample list \<times> world" where
  "visit_all net [] w = ([], w)"
| "visit_all net ((keep, s) # rest) w =
     (case getElevationFromTile net (lat s) (lon s) w of
        (r, w') \<Rightarrow>
          (case visit_all net rest w' of
             (ss, w'') \<Rightarrow>
               ((if keep then [s\<lparr>groundElevation := (case r of Inr g \<Rightarrow> g | Inl e \<Rightarrow> None)\<rparr>] else [])
                @ ss, w'')))"

text \<open>A sample without its ground elevation.\<close>

definition geometry :: "sample \<Rightarrow> sample" where
  "geometry s = s\<lparr>groundElevation := None\<rparr>"

subsection \<open>The sampler as the specification words it\<close>

text \<open>
  Section 4.5 of the specification: for each consecutive pair of waypoints (segment \<open>i\<close>)
  the segment distance is the haversine distance, \<open>steps = max(1, ceil(segmentDistance / 80))\<close>,
  and for \<open>step\<close> in \<open>0..steps\<close> inclusive, \<open>t = step / steps\<close>, with step 0 skipped for
  every segment but the first. A sample's distance is the cumulative distance of the
  segments before plus \<open>segmentDistance * t\<close>; latitude, longitude and altitude are
  \<open>a + (b - a) * t\<close>. The ground elevation is left out (\<open>None\<close>) here.

  The specification's distances are numbers. \<open>sdist\<close> gives the distance of a segment as
  the program computes it; a route is numeric when none of its segments has the distance
  NaN, and the specification's distance of a segment is the number that \<open>sdist\<close> gives.
\<close>

fun numeric_route :: "(waypoint \<Rightarrow> waypoint \<Rightarrow> real option) \<Rightarrow> waypoint list \<Rightarrow> bool" where
  "numeric_route sdist (a # b # rest) = (sdist a b \<noteq> None \<and> numeric_route sdist (b # rest))"
| "numeric_route sdist [a] = True"
| "numeric_route sdist [] = True"

definition spec_segment_distance ::
  "(waypoint \<Rightarrow> waypoint \<Rightarrow> real option) \<Rightarrow> waypoint \<Rightarrow> waypoint \<Rightarrow> real" where
  "spec_segment_distance sdist a b = the (sdist a b)"

definition spec_steps :: "(waypoint \<Rightarrow> waypoint \<Rightarrow> real option) \<Rightarrow> waypoint \<Rightarrow> waypoint \<Rightarrow> int" where
  "spec_steps sdist a b = max 1 \<lceil>spec_segment_distance sdist a b / 80\<rceil>"

definition spec_sample ::
  "(waypoint \<Rightarrow> waypoint \<Rightarrow> real option) \<Rightarrow> real \<Rightarrow> waypoint \<Rightarrow> waypoint \<Rightarrow> int \<Rightarrow> sample" where
  "spec_sample sdist cumulative a b k =
     (let t = of_int k / of_int (spec_steps sdist a b)
      in \<lparr>distance = Some (cumulative + spec_segment_distance sdist a b * t),
          lat = of_rat (latitude a) + (of_rat (latitude b) - of_rat (latitude a)) * t,
          lon = of_rat (longitude a) + (of_rat (longitude b) - of_rat (longitude a)) * t,
          groundElevation = None,
          plannedAltitude = of_rat (altitude a) + (of_rat (altitude b) - of_rat (altitude a)) * t\<rparr>)"

fun spec_route_samples ::
  "(waypoint \<Rightarrow> waypoint \<Rightarrow> real option) \<Rightarrow> nat \<Rightarrow> real \<Rightarrow> waypoint list \<Rightarrow> sample list" where
  "spec_route_samples sdist i cumulative (a # b # rest) =
     map (spec_sample sdist cumulative a b) [(if i = 0 then 0 else 1) .. spec_steps sdist a b]
     @ spec_route_samples sdist (i + 1) (cumulative + spec_segment_distance sdist a b) (b # rest)"
| "spec_route_samples sdist i cumulative [a] = []"
| "spec_route_samples sdist i cumulative [] = []"


text \<open>The sum of the subdivisions of all segments of a route.\<close>

fun spec_total_steps :: "(waypoint \<Rightarrow> waypoint \<Rightarrow> real option) \<Rightarrow> waypoint list \<Rightarrow> int" where
  "spec_total_steps sdist (a # b # rest) = spec_steps sdist a b + spec_total_steps sdist (b # rest)"
| "spec_total_steps sdist [a] = 0"
| "spec_total_steps sdist [] = 0"

subsection \<open>Concrete inputs\<close>

text \<open>
  A platform for the examples: \<^verbatim>\<open>Math.sin\<close> and \<^verbatim>\<open>Math.cos\<close> at the arguments that
  the routes below need, each with the double nearest to the exact value, which is what
  the engines return there. \<open>rad_8\<close> is \<^verbatim>\<open>toRad(8)\<close>, 0.13962634015954636, with the
  sine 0.13917310096006544 and the cosine 0.9902680687415704; \<open>half_pi\<close> is
  \<^verbatim>\<open>Math.PI / 2\<close>, 1.5707963267948966, with the sine 1; \<open>rad_example\<close> is
  \<^verbatim>\<open>toRad(1 / 1024) / 2\<close>, 8.522115488253562e-06, with the sine 8.522115488150407e-06.
  At the other arguments the table has no entry, and the two functions return NaN.
\<close>

definition rad_8 :: rat where
  "rad_8 = 5030569068109113 / 2 ^ 55"

definition sin_rad_8 :: rat where
  "sin_rad_8 = 5014239404989977 / 2 ^ 55"

definition cos_rad_8 :: rat where
  "cos_rad_8 = 4459770905381437 / 2 ^ 52"

definition half_pi :: rat where
  "half_pi = 884279719003555 / 2 ^ 49"

definition rad_example :: rat where
  "rad_example = 5030569068109113 / 2 ^ 69"

definition sin_rad_example :: rat where
  "sin_rad_example = 5030569068048221 / 2 ^ 69"

definition example_sin :: "double \<Rightarrow> double" where
  "example_sin x =
     (if x = Finite 0 then Finite 0
      else if x = Finite rad_example then Finite sin_rad_example
      else if x = Finite (- rad_8) then Finite (- sin_rad_8)
      else if x = Finite half_pi then Finite 1
      else NaN)"

definition example_cos :: "double \<Rightarrow> double" where
  "example_cos x =
     (if x = Finite 0 then Finite 1
      else if x = Finite rad_8 then Finite cos_rad_8
      else if x = Finite (- rad_8) then Finite cos_rad_8
      else NaN)"

text \<open>
  Three routes of two waypoints: one of about 109 m along the equator, one between two
  points that are nearly antipodal, and one along half of the equator. Then a network on
  which every request is rejected, and the state of a page that has done nothing yet (a
  canvas of the default size 300 by 150 shown at 600 by 200), in an engine that accepts
  65536 arguments.
\<close>

definition example_route :: "waypoint list" where
  "example_route =
     [\<lparr>wp_id = ''wp-1'', wp_type = takeoff, latitude = 0, longitude = 0,
       altitude = 100, wp_note = []\<rparr>,
      \<lparr>wp_id = ''wp-2'', wp_type = landing, latitude = 0, longitude = 1 / 1024,
       altitude = 150, wp_note = []\<rparr>]"

definition antipodal_route :: "waypoint list" where
  "antipodal_route =
     [\<lparr>wp_id = ''wp-1'', wp_type = takeoff, latitude = 8, longitude = 0,
       altitude = 100, wp_note = []\<rparr>,
      \<lparr>wp_id = ''wp-2'', wp_type = landing, latitude = - 8, longitude = 180,
       altitude = 100, wp_note = []\<rparr>]"

definition long_route :: "waypoint list" where
  "long_route =
     [\<lparr>wp_id = ''wp-1'', wp_type = takeoff, latitude = 0, longitude = 0,
       altitude = 100, wp_note = []\<rparr>,
      \<lparr>wp_id = ''wp-2'', wp_type = landing, latitude = 0, longitude = 180,
       altitude = 100, wp_note = []\<rparr>]"

definition failing_network :: network where
  "failing_network k key = Rejected"

definition initial_world :: world where
  "initial_world =
     \<lparr>state_waypoints = [], state_profileToken = 0, tileCache = (\<lambda>key. None),
      requests = [], console = [], canvas_width = 300, canvas_height = 150, drawn = [],
      rect_width = 600, rect_height = 200, devicePixelRatio = 1,
      Math_sin = example_sin, Math_cos = example_cos, argument_limit = 65536\<rparr>"

text \<open>
  The page with the short route, the page with a single waypoint, the page with the long
  route, a network that answers every request with a tile whose bytes are all 0, and one
  that answers every request with the status 404.
\<close>

definition example_world :: world where
  "example_world = initial_world\<lparr>state_waypoints := example_route\<rparr>"

definition one_waypoint_world :: world where
  "one_waypoint_world = initial_world\<lparr>state_waypoints := [hd example_route]\<rparr>"

definition long_route_world :: world where
  "long_route_world = initial_world\<lparr>state_waypoints := long_route\<rparr>"

definition blank_tile :: tile_data where
  "blank_tile = replicate (256 * 256 * 4) 0"

definition blank_tile_network :: network where
  "blank_tile_network k key = Response 200 (Pixels blank_tile)"

definition not_found_network :: network where
  "not_found_network k key = Response 404 Undecodable"

text \<open>
  A network on which no request ever yields a decoded tile; the drawing commands that
  write a placeholder message; the drawing commands that are neither that nor the fill
  of the ground polygon; and the index of a point's pixel in its tile's buffer, as
  \<^verbatim>\<open>getElevationFromTile\<close> computes it.
\<close>

definition never_succeeds :: "network \<Rightarrow> bool" where
  "never_succeeds net =
     (\<forall>k key. case net k key of
                 Rejected \<Rightarrow> True
               | Response status body \<Rightarrow> \<not> response_ok status \<or> body = Undecodable)"

fun is_placeholder :: "draw_cmd \<Rightarrow> bool" where
  "is_placeholder (FillText (Placeholder m) x y) = True"
| "is_placeholder c = False"

fun chart_cmd :: "draw_cmd \<Rightarrow> bool" where
  "chart_cmd (FillText (Placeholder m) x y) = False"
| "chart_cmd Fill = False"
| "chart_cmd c = True"



text \<open>
  The drawing commands of the kinds a placeholder is drawn with (resizing and clearing the
  canvas, the style of the text, the text of a placeholder), and the number of arguments
  of the call of \<^verbatim>\<open>Math.max\<close> in \<^verbatim>\<open>drawElevationProfile\<close>: one for each ground
  elevation that is not null, one for each sample, and one more.
\<close>

fun placeholder_cmd :: "draw_cmd \<Rightarrow> bool" where
  "placeholder_cmd (Resize width height) = True"
| "placeholder_cmd (ClearRect x y width height) = True"
| "placeholder_cmd (FillStyle colour) = True"
| "placeholder_cmd (Font px) = True"
| "placeholder_cmd (TextAlign align) = True"
| "placeholder_cmd (TextBaseline baseline) = True"
| "placeholder_cmd (FillText (Placeholder m) x y) = True"
| "placeholder_cmd c = False"

definition max_arguments :: "sample list \<Rightarrow> nat" where
  "max_arguments samples =
     length (filter (\<lambda>s. groundElevation s \<noteq> None) samples) + length samples + 1"

text \<open>
  The two steps of \<open>round64\<close> on a number that is not 0: the exponent of the last bit
  kept, and the number rounded to a multiple of that bit, before the test for overflow.
\<close>

definition round_exponent :: "rat \<Rightarrow> int" where
  "round_exponent x = max (ilog2 x - 52) (- 1074)"

definition round_value :: "rat \<Rightarrow> rat" where
  "round_value x = of_int (round_half_even (x / 2 powi round_exponent x)) * 2 powi round_exponent x"



section \<open>Supporting lemmas\<close>

declare sample_steps.simps [simp del]

declare sample_segments.simps [simp del]

declare distance_ticks.simps [simp del]

subsection \<open>Rounding\<close>

lemma powi_nat: "0 \<le> k \<Longrightarrow> (2::rat) powi k = 2 ^ nat k"
  by (simp add: power_int_def)

lemma ilog2_bounds:
  assumes "x \<noteq> 0"
  shows "2 powi (ilog2 x) \<le> \<bar>x\<bar> \<and> \<bar>x\<bar> < 2 powi (ilog2 x + 1)"
proof -
  obtain p q where pq: "quotient_of \<bar>x\<bar> = (p, q)" by (cases "quotient_of \<bar>x\<bar>")
  have q: "0 < q" using pq by (rule quotient_of_denom_pos)
  have x: "\<bar>x\<bar> = of_int p / of_int q" using pq by (rule quotient_of_div)
  have "0 < \<bar>x\<bar>" using assms by simp
  then have p: "0 < p" using q x by (simp add: zero_less_divide_iff)
  define bp where "bp = bitlen p"
  define bq where "bq = bitlen q"
  have bp: "2 ^ nat (bp - 1) \<le> p" "p < 2 ^ nat bp"
    using bitlen_bounds[OF p] by (simp_all add: bp_def)
  have bq: "2 ^ nat (bq - 1) \<le> q" "q < 2 ^ nat bq"
    using bitlen_bounds[OF q] by (simp_all add: bq_def)
  have pos: "1 \<le> bp" "1 \<le> bq"
    using p q by (simp_all add: bp_def bq_def bitlen_alt_def)
  have rp: "(2::rat) powi (bp - 1) \<le> of_int p" "of_int p < (2::rat) powi bp"
  proof -
    have "(of_int (2 ^ nat (bp - 1)) :: rat) \<le> of_int p" using bp(1) by (simp only: of_int_le_iff)
    then show "(2::rat) powi (bp - 1) \<le> of_int p" using pos by (simp add: powi_nat)
    have "(of_int p :: rat) < of_int (2 ^ nat bp)" using bp(2) by (simp only: of_int_less_iff)
    then show "of_int p < (2::rat) powi bp" using pos by (simp add: powi_nat)
  qed
  have rq: "(2::rat) powi (bq - 1) \<le> of_int q" "of_int q < (2::rat) powi bq"
  proof -
    have "(of_int (2 ^ nat (bq - 1)) :: rat) \<le> of_int q" using bq(1) by (simp only: of_int_le_iff)
    then show "(2::rat) powi (bq - 1) \<le> of_int q" using pos by (simp add: powi_nat)
    have "(of_int q :: rat) < of_int (2 ^ nat bq)" using bq(2) by (simp only: of_int_less_iff)
    then show "of_int q < (2::rat) powi bq" using pos by (simp add: powi_nat)
  qed
  have qpos: "(0::rat) < of_int q" using q by simp
  have up: "\<bar>x\<bar> < 2 powi (bp - bq + 1)"
  proof -
    have "of_int p < (2::rat) powi bp" by (rule rp(2))
    also have "\<dots> = 2 powi (bp - bq + 1) * 2 powi (bq - 1)"
      by (simp add: power_int_add[symmetric])
    also have "\<dots> \<le> 2 powi (bp - bq + 1) * of_int q"
      using rq(1) by (intro mult_left_mono) simp_all
    finally show ?thesis using qpos by (simp add: x pos_divide_less_eq)
  qed
  have lo: "2 powi (bp - bq - 1) < \<bar>x\<bar>"
  proof -
    have "2 powi (bp - bq - 1) * of_int q < 2 powi (bp - bq - 1) * (2::rat) powi bq"
      using rq(2) by (intro mult_strict_left_mono) simp_all
    also have "\<dots> = 2 powi (bp - 1)"
      by (simp add: power_int_add[symmetric])
    also have "\<dots> \<le> of_int p" by (rule rp(1))
    finally show ?thesis using qpos by (simp add: x pos_less_divide_eq)
  qed
  show ?thesis
  proof (cases "2 powi (bp - bq) \<le> \<bar>x\<bar>")
    case True
    then have "ilog2 x = bp - bq" by (simp add: ilog2_def pq Let_def bp_def bq_def)
    then show ?thesis using True up by simp
  next
    case False
    then have "ilog2 x = bp - bq - 1" by (simp add: ilog2_def pq Let_def bp_def bq_def)
    then show ?thesis using False lo by simp
  qed
qed

lemma powi_less_imp_less:
  assumes "(2::rat) powi a < 2 powi b"
  shows "a < b"
proof (rule ccontr)
  assume "\<not> a < b"
  then have "b \<le> a" by simp
  then have "(2::rat) powi b \<le> 2 powi a" by (intro power_int_increasing) simp_all
  with assms show False by simp
qed

lemma ilog2_unique:
  assumes "2 powi n \<le> \<bar>x\<bar>" "\<bar>x\<bar> < 2 powi (n + 1)"
  shows "ilog2 x = n"
proof -
  have "\<not> (2::rat) powi n \<le> 0" by (simp add: not_le)
  then have "x \<noteq> 0" using assms(1) by auto
  from ilog2_bounds[OF this]
  have b: "2 powi (ilog2 x) \<le> \<bar>x\<bar>" "\<bar>x\<bar> < 2 powi (ilog2 x + 1)" by simp_all
  have "(2::rat) powi n < 2 powi (ilog2 x + 1)" using assms(1) b(2) by simp
  then have 1: "n < ilog2 x + 1" by (rule powi_less_imp_less)
  have "(2::rat) powi (ilog2 x) < 2 powi (n + 1)" using assms(2) b(1) by simp
  then have 2: "ilog2 x < n + 1" by (rule powi_less_imp_less)
  show ?thesis using 1 2 by simp
qed

lemma round_half_even_near:
  assumes "of_int k - 1 / 2 < q" "q < of_int k + 1 / 2"
  shows "round_half_even q = k"
proof (cases "of_int k \<le> q")
  case True
  then have "\<lfloor>q\<rfloor> = k" using assms(2) by (intro floor_unique) simp_all
  then show ?thesis using assms(2) by (simp add: round_half_even_def Let_def)
next
  case False
  then have f: "\<lfloor>q\<rfloor> = k - 1" using assms(1) by (intro floor_unique) simp_all
  have "1 / 2 < q - of_int (k - 1)" using assms(1) by simp
  then show ?thesis using f by (simp add: round_half_even_def Let_def)
qed

lemma round64_finite:
  assumes "2 powi n \<le> \<bar>x\<bar>" "\<bar>x\<bar> < 2 powi (n + 1)"
    and "e = max (n - 52) (- 1074)"
    and "round_half_even (x / 2 powi e) = k"
    and "\<bar>of_int k * 2 powi e\<bar> < (2::rat) powi 1024"
  shows "round64 x = Finite (of_int k * 2 powi e)"
proof -
  have "\<not> (2::rat) powi n \<le> 0" by (simp add: not_le)
  then have "x \<noteq> 0" using assms(1) by auto
  moreover have "ilog2 x = n" using assms(1,2) by (rule ilog2_unique)
  ultimately show ?thesis
    using assms(3,4,5) by (simp add: round64_def Let_def not_le[symmetric] del: power_int_numeral)
qed

lemma round64_overflow:
  assumes "2 powi n \<le> \<bar>x\<bar>" "\<bar>x\<bar> < 2 powi (n + 1)"
    and "e = max (n - 52) (- 1074)"
    and "round_half_even (x / 2 powi e) = k"
    and "(2::rat) powi 1024 \<le> \<bar>of_int k * 2 powi e\<bar>"
  shows "round64 x = (if 0 < x then PosInf else NegInf)"
proof -
  have "\<not> (2::rat) powi n \<le> 0" by (simp add: not_le)
  then have "x \<noteq> 0" using assms(1) by auto
  moreover have "ilog2 x = n" using assms(1,2) by (rule ilog2_unique)
  ultimately show ?thesis
    using assms(3,4,5) by (simp add: round64_def Let_def del: power_int_numeral)
qed

lemma round64_0: "round64 0 = Finite 0"
  by (simp add: round64_def)

lemma interpolate_double_0:
  assumes "is_double x" "fl_sub (Finite y) (Finite x) = Finite d"
  shows "interpolateCoordinate_double (Finite x) (Finite y) (Finite 0) = Finite x"
  using assms by (simp add: interpolateCoordinate_double_def round64_0 is_double_def)

lemma interpolate_double_1:
  assumes "is_double y" "fl_sub (Finite y) (Finite x) = Finite (y - x)"
  shows "interpolateCoordinate_double (Finite x) (Finite y) (Finite 1) = Finite y"
proof -
  have "fl_mul (Finite (y - x)) (Finite 1) = Finite (y - x)"
    using assms(2) by (simp add: fl_sub_def)
  then show ?thesis
    using assms by (simp add: interpolateCoordinate_double_def is_double_def)
qed

lemma round64_100: "round64 100 = Finite 100"
proof -
  have "round64 100 = Finite (of_int (100 * 2 ^ 46) * 2 powi (- 46))"
  proof (rule round64_finite[where n = 6])
    show "round_half_even (100 / 2 powi (- 46)) = 100 * 2 ^ 46"
      by (rule round_half_even_near) (simp_all add: power_int_minus)
  qed (simp_all add: power_int_minus)
  then show ?thesis by (simp add: power_int_minus)
qed

lemma round64_150: "round64 150 = Finite 150"
proof -
  have "round64 150 = Finite (of_int (150 * 2 ^ 45) * 2 powi (- 45))"
  proof (rule round64_finite[where n = 7])
    show "round_half_even (150 / 2 powi (- 45)) = 150 * 2 ^ 45"
      by (rule round_half_even_near) (simp_all add: power_int_minus)
  qed (simp_all add: power_int_minus)
  then show ?thesis by (simp add: power_int_minus)
qed

lemma round64_50: "round64 50 = Finite 50"
proof -
  have "round64 50 = Finite (of_int (50 * 2 ^ 47) * 2 powi (- 47))"
  proof (rule round64_finite[where n = 5])
    show "round_half_even (50 / 2 powi (- 47)) = 50 * 2 ^ 47"
      by (rule round_half_even_near) (simp_all add: power_int_minus)
  qed (simp_all add: power_int_minus)
  then show ?thesis by (simp add: power_int_minus)
qed

lemma round64_1: "round64 1 = Finite 1"
proof -
  have "round64 1 = Finite (of_int (2 ^ 52) * 2 powi (- 52))"
  proof (rule round64_finite[where n = 0])
    show "round_half_even (1 / 2 powi (- 52)) = 2 ^ 52"
      by (rule round_half_even_near) (simp_all add: power_int_minus)
  qed (simp_all add: power_int_minus)
  then show ?thesis by (simp add: power_int_minus)
qed

lemma round64_2_55: "round64 (2 ^ 55) = Finite (2 ^ 55)"
proof -
  have "round64 (2 ^ 55) = Finite (of_int (2 ^ 52) * 2 powi 3)"
  proof (rule round64_finite[where n = 55])
    show "round_half_even (2 ^ 55 / 2 powi 3) = 2 ^ 52"
      by (rule round_half_even_near) simp_all
  qed simp_all
  then show ?thesis by simp
qed

lemma round64_neg_2_55: "round64 (- (2 ^ 55)) = Finite (- (2 ^ 55))"
proof -
  have "round64 (- (2 ^ 55)) = Finite (of_int (- (2 ^ 52)) * 2 powi 3)"
  proof (rule round64_finite[where n = 55])
    show "round_half_even (- (2 ^ 55) / 2 powi 3) = - (2 ^ 52)"
      by (rule round_half_even_near) simp_all
  qed simp_all
  then show ?thesis by simp
qed

lemma round64_1_minus_2_55: "round64 (1 + - (2 ^ 55)) = Finite (- (2 ^ 55))"
proof -
  have "round64 (1 + - (2 ^ 55)) = Finite (of_int (- (2 ^ 53)) * 2 powi 2)"
  proof (rule round64_finite[where n = 54])
    show "round_half_even ((1 + - (2 ^ 55)) / 2 powi 2) = - (2 ^ 53)"
      by (rule round_half_even_near) simp_all
  qed simp_all
  then show ?thesis by simp
qed

lemma round64_2_1023: "round64 (2 ^ 1023) = Finite (2 ^ 1023)"
proof -
  have "round64 (2 ^ 1023) = Finite (of_int (2 ^ 52) * 2 powi 971)"
  proof (rule round64_finite[where n = 1023])
    show "round_half_even (2 ^ 1023 / 2 powi 971) = 2 ^ 52"
      by (rule round_half_even_near) simp_all
  qed simp_all
  then show ?thesis by simp
qed

lemma round64_neg_2_1023: "round64 (- (2 ^ 1023)) = Finite (- (2 ^ 1023))"
proof -
  have "round64 (- (2 ^ 1023)) = Finite (of_int (- (2 ^ 52)) * 2 powi 971)"
  proof (rule round64_finite[where n = 1023])
    show "round_half_even (- (2 ^ 1023) / 2 powi 971) = - (2 ^ 52)"
      by (rule round_half_even_near) simp_all
  qed simp_all
  then show ?thesis by simp
qed

lemma round64_2_1024: "round64 (2 ^ 1023 + 2 ^ 1023) = PosInf"
proof -
  have "round64 (2 ^ 1023 + 2 ^ 1023) = (if (0::rat) < 2 ^ 1023 + 2 ^ 1023 then PosInf else NegInf)"
  proof (rule round64_overflow[where n = 1024 and k = "2 ^ 52"])
    show "round_half_even ((2 ^ 1023 + 2 ^ 1023) / 2 powi max (1024 - 52) (- 1074)) = 2 ^ 52"
      by (rule round_half_even_near) simp_all
  qed simp_all
  then show ?thesis by simp
qed

text \<open>Rounding is monotone, and so is every operation with a finite right operand.\<close>

lemma round_half_even_of_int: "round_half_even (of_int k) = k"
  by (simp add: round_half_even_def)

lemma round_half_even_bounds:
  "\<lfloor>q\<rfloor> \<le> round_half_even q" "round_half_even q \<le> \<lfloor>q\<rfloor> + 1"
  by (simp_all add: round_half_even_def Let_def)

lemma round_half_even_mono:
  assumes "q \<le> q'"
  shows "round_half_even q \<le> round_half_even q'"
proof (cases "\<lfloor>q\<rfloor> = \<lfloor>q'\<rfloor>")
  case True
  have "q - of_int \<lfloor>q\<rfloor> \<le> q' - of_int \<lfloor>q'\<rfloor>" using assms True by simp
  then show ?thesis using True by (auto simp add: round_half_even_def Let_def)
next
  case False
  have "\<lfloor>q\<rfloor> \<le> \<lfloor>q'\<rfloor>" using assms by (rule floor_mono)
  then have "\<lfloor>q\<rfloor> + 1 \<le> \<lfloor>q'\<rfloor>" using False by simp
  then show ?thesis using round_half_even_bounds(2)[of q] round_half_even_bounds(1)[of q'] by linarith
qed

lemma round_half_even_uminus: "round_half_even (- q) = - round_half_even q"
proof (cases "q = of_int \<lfloor>q\<rfloor>")
  case True
  then obtain k where "q = of_int k" by blast
  then have "- q = of_int (- k)" by simp
  then show ?thesis using \<open>q = of_int k\<close> by (simp only: round_half_even_of_int)
next
  case False
  define n where "n = \<lfloor>q\<rfloor>"
  define f where "f = q - of_int n"
  have f: "0 < f" "f < 1" using False by (simp_all add: f_def n_def less_le) linarith+
  have fl: "\<lfloor>- q\<rfloor> = - n - 1"
    by (rule floor_unique) (use f in \<open>simp_all add: f_def\<close>)
  have fr: "- q - of_int (- n - 1) = 1 - f" by (simp add: f_def)
  have r: "round_half_even q = (if f < 1 / 2 then n else if 1 / 2 < f then n + 1 else if even n then n else n + 1)"
    by (simp add: round_half_even_def Let_def n_def f_def)
  have r': "round_half_even (- q) = (if 1 - f < 1 / 2 then - n - 1 else if 1 / 2 < 1 - f then - n else if even (- n - 1) then - n - 1 else - n)"
    unfolding round_half_even_def Let_def fl fr by simp
  show ?thesis unfolding r r' using f by auto
qed

lemma ilog2_uminus: "ilog2 (- x) = ilog2 x"
  by (simp add: ilog2_def)

lemma ilog2_mono:
  assumes "0 < x" "x \<le> y"
  shows "ilog2 x \<le> ilog2 y"
proof -
  have x: "x \<noteq> 0" and y: "y \<noteq> 0" using assms by simp_all
  have "2 powi (ilog2 x) \<le> \<bar>x\<bar>" using ilog2_bounds[OF x] by simp
  also have "\<dots> \<le> \<bar>y\<bar>" using assms by simp
  also have "\<dots> < 2 powi (ilog2 y + 1)" using ilog2_bounds[OF y] by simp
  finally have "ilog2 x < ilog2 y + 1" by (rule powi_less_imp_less)
  then show ?thesis by simp
qed

lemma round64_alt:
  "round64 x =
     (if x = 0 then Finite 0
      else if 2 powi 1024 \<le> \<bar>round_value x\<bar> then (if 0 < x then PosInf else NegInf)
      else Finite (round_value x))"
  by (simp add: round64_def round_value_def round_exponent_def Let_def del: power_int_numeral)

lemma round_value_0: "round_value 0 = 0"
  by (simp add: round_value_def round_half_even_def)

lemma round_value_uminus: "round_value (- x) = - round_value x"
  by (simp add: round_value_def round_exponent_def ilog2_uminus round_half_even_uminus)

lemma round_value_nonneg:
  assumes "0 \<le> x"
  shows "0 \<le> round_value x"
proof -
  have "(0::rat) \<le> x / 2 powi round_exponent x" using assms by simp
  then have "round_half_even 0 \<le> round_half_even (x / 2 powi round_exponent x)"
    by (rule round_half_even_mono)
  then have "0 \<le> round_half_even (x / 2 powi round_exponent x)"
    using round_half_even_of_int[of 0] by simp
  then show ?thesis by (simp add: round_value_def)
qed

lemma round_value_pos_mono:
  assumes "0 < x" "x \<le> y"
  shows "round_value x \<le> round_value y"
proof -
  define ex where "ex = round_exponent x"
  define ey where "ey = round_exponent y"
  have xy: "x \<noteq> 0" "y \<noteq> 0" "0 < y" using assms by simp_all
  have il: "ilog2 x \<le> ilog2 y" using assms by (rule ilog2_mono)
  then have e: "ex \<le> ey" by (simp add: ex_def ey_def round_exponent_def)
  show ?thesis
  proof (cases "ex = ey")
    case True
    have "x / 2 powi ex \<le> y / 2 powi ey" using assms True by (simp add: divide_right_mono)
    then have "round_half_even (x / 2 powi ex) \<le> round_half_even (y / 2 powi ey)"
      by (rule round_half_even_mono)
    then have "of_int (round_half_even (x / 2 powi ex)) * 2 powi ex
        \<le> (of_int (round_half_even (y / 2 powi ey)) :: rat) * 2 powi ey"
      using True by (simp add: mult_right_mono)
    then show ?thesis by (simp add: round_value_def ex_def ey_def)
  next
    case False
    then have lt: "ex < ey" using e by simp
    then have ey: "ey = ilog2 y - 52" and ey': "- 1074 < ey"
      by (auto simp add: ex_def ey_def round_exponent_def)
    have "ilog2 x - 52 \<le> ex" by (simp add: ex_def round_exponent_def)
    then have il': "ilog2 x + 1 \<le> ilog2 y" using lt ey by simp
    have lo: "2 powi (ilog2 y) \<le> round_value y"
    proof -
      have "2 powi (ilog2 y) \<le> y" using ilog2_bounds[OF xy(2)] xy(3) by simp
      then have "2 powi (ilog2 y) / 2 powi ey \<le> y / 2 powi ey" by (simp add: divide_right_mono)
      moreover have "(2::rat) powi (ilog2 y) / 2 powi ey = of_int (2 ^ 52)"
        by (simp add: ey power_int_diff[symmetric])
      ultimately have "round_half_even (of_int (2 ^ 52)) \<le> round_half_even (y / 2 powi ey)"
        by (metis round_half_even_mono)
      then have "2 ^ 52 \<le> round_half_even (y / 2 powi ey)"
        by (simp only: round_half_even_of_int)
      then have "(of_int (2 ^ 52) :: rat) \<le> of_int (round_half_even (y / 2 powi ey))"
        by (simp only: of_int_le_iff)
      then have a: "(of_int (2 ^ 52) :: rat) * 2 powi ey \<le> of_int (round_half_even (y / 2 powi ey)) * 2 powi ey"
        by (rule mult_right_mono) simp
      have b: "(of_int (2 ^ 52) :: rat) * 2 powi ey = 2 powi (ilog2 y)"
        by (simp add: ey power_int_diff)
      have "(2::rat) powi (ilog2 y) \<le> of_int (round_half_even (y / 2 powi ey)) * 2 powi ey"
        using a unfolding b .
      then show ?thesis unfolding round_value_def ey_def .
    qed
    have hi: "round_value x \<le> 2 powi (ilog2 x + 1)"
    proof (cases "ex \<le> ilog2 x + 1")
      case True
      define m where "m = nat (ilog2 x + 1 - ex)"
      have m: "(2::rat) powi (ilog2 x + 1) / 2 powi ex = of_int (2 ^ m)"
        using True by (simp add: m_def power_int_diff[symmetric] powi_nat)
      have "x \<le> 2 powi (ilog2 x + 1)" using ilog2_bounds[OF xy(1)] assms(1) by simp
      then have "x / 2 powi ex \<le> 2 powi (ilog2 x + 1) / 2 powi ex" by (simp add: divide_right_mono)
      then have "round_half_even (x / 2 powi ex) \<le> round_half_even (of_int (2 ^ m))"
        unfolding m by (rule round_half_even_mono)
      then have "round_half_even (x / 2 powi ex) \<le> 2 ^ m"
        by (simp only: round_half_even_of_int)
      then have "(of_int (round_half_even (x / 2 powi ex)) :: rat) \<le> of_int (2 ^ m)"
        by (simp only: of_int_le_iff)
      then have a: "(of_int (round_half_even (x / 2 powi ex)) :: rat) * 2 powi ex \<le> of_int (2 ^ m) * 2 powi ex"
        by (rule mult_right_mono) simp
      have b: "(of_int (2 ^ m) :: rat) * 2 powi ex = 2 powi (ilog2 x + 1)"
        using m by (simp add: field_simps)
      have "(of_int (round_half_even (x / 2 powi ex)) :: rat) * 2 powi ex \<le> 2 powi (ilog2 x + 1)"
        using a unfolding b .
      then show ?thesis unfolding round_value_def ex_def .
    next
      case False
      then have "ilog2 x + 1 \<le> ex - 1" by simp
      then have "(2::rat) powi (ilog2 x + 1) \<le> 2 powi (ex - 1)"
        by (intro power_int_increasing) simp_all
      moreover have "x < 2 powi (ilog2 x + 1)" using ilog2_bounds[OF xy(1)] assms(1) by simp
      ultimately have "x < 2 powi (ex - 1)" by simp
      then have "x / 2 powi ex < 2 powi (ex - 1) / 2 powi ex" by (simp add: divide_strict_right_mono)
      also have "(2::rat) powi (ex - 1) / 2 powi ex = 1 / 2"
        by (simp add: power_int_diff)
      finally have "x / 2 powi ex < 1 / 2" .
      moreover have "0 \<le> x / 2 powi ex" using assms(1) by simp
      ultimately have "round_half_even (x / 2 powi ex) = 0"
        by (intro round_half_even_near) simp_all
      then have "round_value x = 0" by (simp add: round_value_def ex_def)
      then show ?thesis by simp
    qed
    have "(2::rat) powi (ilog2 x + 1) \<le> 2 powi (ilog2 y)"
      using il' by (intro power_int_increasing) simp_all
    then show ?thesis using lo hi by linarith
  qed
qed

lemma round_value_mono:
  assumes "x \<le> y"
  shows "round_value x \<le> round_value y"
proof -
  consider "0 < x" | "x \<le> 0" "0 \<le> y" | "y < 0" by linarith
  then show ?thesis
  proof cases
    case 1
    then show ?thesis using assms by (rule round_value_pos_mono)
  next
    case 2
    have "0 \<le> round_value (- x)" using 2(1) by (intro round_value_nonneg) simp
    then have "round_value x \<le> 0" by (simp add: round_value_uminus)
    moreover have "0 \<le> round_value y" using 2(2) by (rule round_value_nonneg)
    ultimately show ?thesis by simp
  next
    case 3
    then have "0 < - y" "- y \<le> - x" using assms by simp_all
    then have "round_value (- y) \<le> round_value (- x)" by (rule round_value_pos_mono)
    then show ?thesis by (simp add: round_value_uminus)
  qed
qed

lemma round64_mono:
  assumes "x \<le> y"
  shows "fl_le (round64 x) (round64 y)"
proof -
  have m: "round_value x \<le> round_value y" using assms by (rule round_value_mono)
  have px: "0 \<le> x \<longrightarrow> 0 \<le> round_value x" by (simp add: round_value_nonneg)
  have py: "0 \<le> y \<longrightarrow> 0 \<le> round_value y" by (simp add: round_value_nonneg)
  have nx: "x \<le> 0 \<longrightarrow> round_value x \<le> 0"
    using round_value_nonneg[of "- x"] by (simp add: round_value_uminus)
  have ny: "y \<le> 0 \<longrightarrow> round_value y \<le> 0"
    using round_value_nonneg[of "- y"] by (simp add: round_value_uminus)
  have big: "(0::rat) < 2 powi 1024" by simp
  show ?thesis
  proof (cases "x = 0 \<or> y = 0")
    case True
    then show ?thesis
      unfolding round64_alt[of x] round64_alt[of y]
      using m assms px py nx ny round_value_0 big
      by (auto simp add: abs_if simp del: power_int_numeral split: if_splits)
  next
    case False
    then have xy: "x \<noteq> 0" "y \<noteq> 0" by simp_all
    consider "0 < x" "0 < y" | "x < 0" "0 < y" | "x < 0" "y < 0"
      using xy assms by linarith
    then show ?thesis
    proof cases
      case 1
      then have "0 \<le> round_value x" "0 \<le> round_value y" using px py by simp_all
      then show ?thesis
        unfolding round64_alt[of x] round64_alt[of y]
        using m 1 by (simp add: abs_if del: power_int_numeral)
    next
      case 2
      then have "round_value x \<le> 0" "0 \<le> round_value y" using nx py by simp_all
      then show ?thesis
        unfolding round64_alt[of x] round64_alt[of y]
        using 2 by (simp add: abs_if del: power_int_numeral)
    next
      case 3
      then have "round_value x \<le> 0" "round_value y \<le> 0" using nx ny by simp_all
      then show ?thesis
        unfolding round64_alt[of x] round64_alt[of y]
        using m 3 big by (auto simp add: abs_if simp del: power_int_numeral)
    qed
  qed
qed

text \<open>
  The roundings that the concrete inputs below need, each checked against the definition:
  the exponent of the leading bit, the exponent of the last bit kept and the integer
  significand are given, and the quotient is within a half of the significand.
\<close>

lemma rounding_1: "round64 (1 / 1024) = Finite (1 / 1024)"
proof -
  have "round64 (1 / 1024) = Finite (of_int 4503599627370496 * 2 powi (- 62))"
  proof (rule round64_finite[where n = "- 10"])
    show "round_half_even ((1 / 1024) / 2 powi (- 62)) = 4503599627370496"
      by (rule round_half_even_near) (simp_all add: power_int_minus)
  qed (simp_all add: power_int_minus)
  then show ?thesis by (simp add: power_int_minus)
qed

lemma rounding_2: "round64 (884279719003555 / 288230376151711744) = Finite (884279719003555 / 288230376151711744)"
proof -
  have "round64 (884279719003555 / 288230376151711744) = Finite (of_int 7074237752028440 * 2 powi (- 61))"
  proof (rule round64_finite[where n = "- 9"])
    show "round_half_even ((884279719003555 / 288230376151711744) / 2 powi (- 61)) = 7074237752028440"
      by (rule round_half_even_near) (simp_all add: power_int_minus)
  qed (simp_all add: power_int_minus)
  then show ?thesis by (simp add: power_int_minus)
qed

lemma rounding_3: "round64 (176855943800711 / 10376293541461622784) = Finite (5030569068109113 / 295147905179352825856)"
proof -
  have "round64 (176855943800711 / 10376293541461622784) = Finite (of_int 5030569068109113 * 2 powi (- 68))"
  proof (rule round64_finite[where n = "- 16"])
    show "round_half_even ((176855943800711 / 10376293541461622784) / 2 powi (- 68)) = 5030569068109113"
      by (rule round_half_even_near) (simp_all add: power_int_minus)
  qed (simp_all add: power_int_minus)
  then show ?thesis by (simp add: power_int_minus)
qed

lemma rounding_4: "round64 (5030569068109113 / 590295810358705651712) = Finite (5030569068109113 / 590295810358705651712)"
proof -
  have "round64 (5030569068109113 / 590295810358705651712) = Finite (of_int 5030569068109113 * 2 powi (- 69))"
  proof (rule round64_finite[where n = "- 17"])
    show "round_half_even ((5030569068109113 / 590295810358705651712) / 2 powi (- 69)) = 5030569068109113"
      by (rule round_half_even_near) (simp_all add: power_int_minus)
  qed (simp_all add: power_int_minus)
  then show ?thesis by (simp add: power_int_minus)
qed

lemma rounding_5: "round64 (5030569068048221 / 590295810358705651712) = Finite (5030569068048221 / 590295810358705651712)"
proof -
  have "round64 (5030569068048221 / 590295810358705651712) = Finite (of_int 5030569068048221 * 2 powi (- 69))"
  proof (rule round64_finite[where n = "- 17"])
    show "round_half_even ((5030569068048221 / 590295810358705651712) / 2 powi (- 69)) = 5030569068048221"
      by (rule round_half_even_near) (simp_all add: power_int_minus)
  qed (simp_all add: power_int_minus)
  then show ?thesis by (simp add: power_int_minus)
qed

lemma rounding_6: "round64 (25306625148403546766058381264841 / 348449143727040986586495598010130648530944) = Finite (5619199583063127 / 77371252455336267181195264)"
proof -
  have "round64 (25306625148403546766058381264841 / 348449143727040986586495598010130648530944) = Finite (of_int 5619199583063127 * 2 powi (- 86))"
  proof (rule round64_finite[where n = "- 34"])
    show "round_half_even ((25306625148403546766058381264841 / 348449143727040986586495598010130648530944) / 2 powi (- 86)) = 5619199583063127"
      by (rule round_half_even_near) (simp_all add: power_int_minus)
  qed (simp_all add: power_int_minus)
  then show ?thesis by (simp add: power_int_minus)
qed

lemma rounding_7: "round64 (5619199583063127 / 77371252455336267181195264) = Finite (5619199583063127 / 77371252455336267181195264)"
proof -
  have "round64 (5619199583063127 / 77371252455336267181195264) = Finite (of_int 5619199583063127 * 2 powi (- 86))"
  proof (rule round64_finite[where n = "- 34"])
    show "round_half_even ((5619199583063127 / 77371252455336267181195264) / 2 powi (- 86)) = 5619199583063127"
      by (rule round_half_even_near) (simp_all add: power_int_minus)
  qed (simp_all add: power_int_minus)
  then show ?thesis by (simp add: power_int_minus)
qed

lemma rounding_8: "round64 (- 16) = Finite (- 16)"
proof -
  have "round64 (- 16) = Finite (of_int (- 4503599627370496) * 2 powi (- 48))"
  proof (rule round64_finite[where n = 4])
    show "round_half_even ((- 16) / 2 powi (- 48)) = - 4503599627370496"
      by (rule round_half_even_near) (simp_all add: power_int_minus)
  qed (simp_all add: power_int_minus)
  then show ?thesis by (simp add: power_int_minus)
qed

lemma rounding_9: "round64 (- (884279719003555 / 17592186044416)) = Finite (- (884279719003555 / 17592186044416))"
proof -
  have "round64 (- (884279719003555 / 17592186044416)) = Finite (of_int (- 7074237752028440) * 2 powi (- 47))"
  proof (rule round64_finite[where n = 5])
    show "round_half_even ((- (884279719003555 / 17592186044416)) / 2 powi (- 47)) = - 7074237752028440"
      by (rule round_half_even_near) (simp_all add: power_int_minus)
  qed (simp_all add: power_int_minus)
  then show ?thesis by (simp add: power_int_minus)
qed

lemma rounding_10: "round64 (- (176855943800711 / 633318697598976)) = Finite (- (5030569068109113 / 18014398509481984))"
proof -
  have "round64 (- (176855943800711 / 633318697598976)) = Finite (of_int (- 5030569068109113) * 2 powi (- 54))"
  proof (rule round64_finite[where n = "- 2"])
    show "round_half_even ((- (176855943800711 / 633318697598976)) / 2 powi (- 54)) = - 5030569068109113"
      by (rule round_half_even_near) (simp_all add: power_int_minus)
  qed (simp_all add: power_int_minus)
  then show ?thesis by (simp add: power_int_minus)
qed

lemma rounding_11: "round64 180 = Finite 180"
proof -
  have "round64 180 = Finite (of_int 6333186975989760 * 2 powi (- 45))"
  proof (rule round64_finite[where n = 7])
    show "round_half_even (180 / 2 powi (- 45)) = 6333186975989760"
      by (rule round_half_even_near) (simp_all add: power_int_minus)
  qed (simp_all add: power_int_minus)
  then show ?thesis by (simp add: power_int_minus)
qed

lemma rounding_12: "round64 (39792587355159975 / 70368744177664) = Finite (4974073419394997 / 8796093022208)"
proof -
  have "round64 (39792587355159975 / 70368744177664) = Finite (of_int 4974073419394997 * 2 powi (- 43))"
  proof (rule round64_finite[where n = 9])
    show "round_half_even ((39792587355159975 / 70368744177664) / 2 powi (- 43)) = 4974073419394997"
      by (rule round_half_even_near) (simp_all add: power_int_minus)
  qed (simp_all add: power_int_minus)
  then show ?thesis by (simp add: power_int_minus)
qed

lemma rounding_13: "round64 (4974073419394997 / 1583296743997440) = Finite (884279719003555 / 281474976710656)"
proof -
  have "round64 (4974073419394997 / 1583296743997440) = Finite (of_int 7074237752028440 * 2 powi (- 51))"
  proof (rule round64_finite[where n = 1])
    show "round_half_even ((4974073419394997 / 1583296743997440) / 2 powi (- 51)) = 7074237752028440"
      by (rule round_half_even_near) (simp_all add: power_int_minus)
  qed (simp_all add: power_int_minus)
  then show ?thesis by (simp add: power_int_minus)
qed

lemma rounding_14: "round64 (- (5030569068109113 / 36028797018963968)) = Finite (- (5030569068109113 / 36028797018963968))"
proof -
  have "round64 (- (5030569068109113 / 36028797018963968)) = Finite (of_int (- 5030569068109113) * 2 powi (- 55))"
  proof (rule round64_finite[where n = "- 3"])
    show "round_half_even ((- (5030569068109113 / 36028797018963968)) / 2 powi (- 55)) = - 5030569068109113"
      by (rule round_half_even_near) (simp_all add: power_int_minus)
  qed (simp_all add: power_int_minus)
  then show ?thesis by (simp add: power_int_minus)
qed

lemma rounding_15: "round64 (884279719003555 / 562949953421312) = Finite (884279719003555 / 562949953421312)"
proof -
  have "round64 (884279719003555 / 562949953421312) = Finite (of_int 7074237752028440 * 2 powi (- 52))"
  proof (rule round64_finite[where n = 0])
    show "round_half_even ((884279719003555 / 562949953421312) / 2 powi (- 52)) = 7074237752028440"
      by (rule round_half_even_near) (simp_all add: power_int_minus)
  qed (simp_all add: power_int_minus)
  then show ?thesis by (simp add: power_int_minus)
qed

lemma rounding_16: "round64 (884279719003555 / 35184372088832) = Finite (884279719003555 / 35184372088832)"
proof -
  have "round64 (884279719003555 / 35184372088832) = Finite (of_int 7074237752028440 * 2 powi (- 48))"
  proof (rule round64_finite[where n = 4])
    show "round_half_even ((884279719003555 / 35184372088832) / 2 powi (- 48)) = 7074237752028440"
      by (rule round_half_even_near) (simp_all add: power_int_minus)
  qed (simp_all add: power_int_minus)
  then show ?thesis by (simp add: power_int_minus)
qed

lemma rounding_17: "round64 (176855943800711 / 1266637395197952) = Finite (5030569068109113 / 36028797018963968)"
proof -
  have "round64 (176855943800711 / 1266637395197952) = Finite (of_int 5030569068109113 * 2 powi (- 55))"
  proof (rule round64_finite[where n = "- 3"])
    show "round_half_even ((176855943800711 / 1266637395197952) / 2 powi (- 55)) = 5030569068109113"
      by (rule round_half_even_near) (simp_all add: power_int_minus)
  qed (simp_all add: power_int_minus)
  then show ?thesis by (simp add: power_int_minus)
qed

lemma rounding_18: "round64 (- (884279719003555 / 35184372088832)) = Finite (- (884279719003555 / 35184372088832))"
proof -
  have "round64 (- (884279719003555 / 35184372088832)) = Finite (of_int (- 7074237752028440) * 2 powi (- 48))"
  proof (rule round64_finite[where n = 4])
    show "round_half_even ((- (884279719003555 / 35184372088832)) / 2 powi (- 48)) = - 7074237752028440"
      by (rule round_half_even_near) (simp_all add: power_int_minus)
  qed (simp_all add: power_int_minus)
  then show ?thesis by (simp add: power_int_minus)
qed

lemma rounding_19: "round64 (- (176855943800711 / 1266637395197952)) = Finite (- (5030569068109113 / 36028797018963968))"
proof -
  have "round64 (- (176855943800711 / 1266637395197952)) = Finite (of_int (- 5030569068109113) * 2 powi (- 55))"
  proof (rule round64_finite[where n = "- 3"])
    show "round_half_even ((- (176855943800711 / 1266637395197952)) / 2 powi (- 55)) = - 5030569068109113"
      by (rule round_half_even_near) (simp_all add: power_int_minus)
  qed (simp_all add: power_int_minus)
  then show ?thesis by (simp add: power_int_minus)
qed

lemma rounding_20: "round64 (25142596810554238581887470460529 / 1298074214633706907132624082305024) = Finite (1395694493897217 / 72057594037927936)"
proof -
  have "round64 (25142596810554238581887470460529 / 1298074214633706907132624082305024) = Finite (of_int 5582777975588868 * 2 powi (- 58))"
  proof (rule round64_finite[where n = "- 6"])
    show "round_half_even ((25142596810554238581887470460529 / 1298074214633706907132624082305024) / 2 powi (- 58)) = 5582777975588868"
      by (rule round_half_even_near) (simp_all add: power_int_minus)
  qed (simp_all add: power_int_minus)
  then show ?thesis by (simp add: power_int_minus)
qed

lemma rounding_21: "round64 (19889556528486762294526464184969 / 20282409603651670423947251286016) = Finite (8832737443003841 / 9007199254740992)"
proof -
  have "round64 (19889556528486762294526464184969 / 20282409603651670423947251286016) = Finite (of_int 8832737443003841 * 2 powi (- 53))"
  proof (rule round64_finite[where n = "- 1"])
    show "round_half_even ((19889556528486762294526464184969 / 20282409603651670423947251286016) / 2 powi (- 53)) = 8832737443003841"
      by (rule round_half_even_near) (simp_all add: power_int_minus)
  qed (simp_all add: power_int_minus)
  then show ?thesis by (simp add: power_int_minus)
qed

lemma rounding_22: "round64 (8832737443003841 / 9007199254740992) = Finite (8832737443003841 / 9007199254740992)"
proof -
  have "round64 (8832737443003841 / 9007199254740992) = Finite (of_int 8832737443003841 * 2 powi (- 53))"
  proof (rule round64_finite[where n = "- 1"])
    show "round_half_even ((8832737443003841 / 9007199254740992) / 2 powi (- 53)) = 8832737443003841"
      by (rule round_half_even_near) (simp_all add: power_int_minus)
  qed (simp_all add: power_int_minus)
  then show ?thesis by (simp add: power_int_minus)
qed

lemma rounding_23: "round64 (72057594037927945 / 72057594037927936) = Finite (4503599627370497 / 4503599627370496)"
proof -
  have "round64 (72057594037927945 / 72057594037927936) = Finite (of_int 4503599627370497 * 2 powi (- 52))"
  proof (rule round64_finite[where n = 0])
    show "round_half_even ((72057594037927945 / 72057594037927936) / 2 powi (- 52)) = 4503599627370497"
      by (rule round_half_even_near) (simp_all add: power_int_minus)
  qed (simp_all add: power_int_minus)
  then show ?thesis by (simp add: power_int_minus)
qed

lemma rounding_24: "round64 280 = Finite 280"
proof -
  have "round64 280 = Finite (of_int 4925812092436480 * 2 powi (- 44))"
  proof (rule round64_finite[where n = 8])
    show "round_half_even (280 / 2 powi (- 44)) = 4925812092436480"
      by (rule round_half_even_near) (simp_all add: power_int_minus)
  qed (simp_all add: power_int_minus)
  then show ?thesis by (simp add: power_int_minus)
qed

lemma rounding_25: "round64 (19703248369745921 / 70368744177664) = Finite 280"
proof -
  have "round64 (19703248369745921 / 70368744177664) = Finite (of_int 4925812092436480 * 2 powi (- 44))"
  proof (rule round64_finite[where n = 8])
    show "round_half_even ((19703248369745921 / 70368744177664) / 2 powi (- 44)) = 4925812092436480"
      by (rule round_half_even_near) (simp_all add: power_int_minus)
  qed (simp_all add: power_int_minus)
  then show ?thesis by (simp add: power_int_minus)
qed

lemma rounding_26: "round64 (7036874417766401 / 70368744177664) = Finite (7036874417766401 / 70368744177664)"
proof -
  have "round64 (7036874417766401 / 70368744177664) = Finite (of_int 7036874417766401 * 2 powi (- 46))"
  proof (rule round64_finite[where n = 6])
    show "round_half_even ((7036874417766401 / 70368744177664) / 2 powi (- 46)) = 7036874417766401"
      by (rule round_half_even_near) (simp_all add: power_int_minus)
  qed (simp_all add: power_int_minus)
  then show ?thesis by (simp add: power_int_minus)
qed

lemma rounding_27: "round64 (7 / 9) = Finite (7005599420354105 / 9007199254740992)"
proof -
  have "round64 (7 / 9) = Finite (of_int 7005599420354105 * 2 powi (- 53))"
  proof (rule round64_finite[where n = "- 1"])
    show "round_half_even ((7 / 9) / 2 powi (- 53)) = 7005599420354105"
      by (rule round_half_even_near) (simp_all add: power_int_minus)
  qed (simp_all add: power_int_minus)
  then show ?thesis by (simp add: power_int_minus)
qed

lemma rounding_28: "round64 (7005599420354105 / 549755813888) = Finite (7005599420354105 / 549755813888)"
proof -
  have "round64 (7005599420354105 / 549755813888) = Finite (of_int 7005599420354105 * 2 powi (- 39))"
  proof (rule round64_finite[where n = 13])
    show "round_half_even ((7005599420354105 / 549755813888) / 2 powi (- 39)) = 7005599420354105"
      by (rule round_half_even_near) (simp_all add: power_int_minus)
  qed (simp_all add: power_int_minus)
  then show ?thesis by (simp add: power_int_minus)
qed

lemma rounding_29: "round64 (6333186975989761 / 140737488355328) = Finite (6333186975989761 / 140737488355328)"
proof -
  have "round64 (6333186975989761 / 140737488355328) = Finite (of_int 6333186975989761 * 2 powi (- 47))"
  proof (rule round64_finite[where n = 5])
    show "round_half_even ((6333186975989761 / 140737488355328) / 2 powi (- 47)) = 6333186975989761"
      by (rule round_half_even_near) (simp_all add: power_int_minus)
  qed (simp_all add: power_int_minus)
  then show ?thesis by (simp add: power_int_minus)
qed

lemma rounding_30: "round64 (3166593487994881 / 70368744177664) = Finite (3166593487994881 / 70368744177664)"
proof -
  have "round64 (3166593487994881 / 70368744177664) = Finite (of_int 6333186975989762 * 2 powi (- 47))"
  proof (rule round64_finite[where n = 5])
    show "round_half_even ((3166593487994881 / 70368744177664) / 2 powi (- 47)) = 6333186975989762"
      by (rule round_half_even_near) (simp_all add: power_int_minus)
  qed (simp_all add: power_int_minus)
  then show ?thesis by (simp add: power_int_minus)
qed

lemma rounding_31: "round64 (5600308799525200083656802600355 / 39614081257132168796771975168) = Finite (2487036709697499 / 17592186044416)"
proof -
  have "round64 (5600308799525200083656802600355 / 39614081257132168796771975168) = Finite (of_int 4974073419394998 * 2 powi (- 45))"
  proof (rule round64_finite[where n = 7])
    show "round_half_even ((5600308799525200083656802600355 / 39614081257132168796771975168) / 2 powi (- 45)) = 4974073419394998"
      by (rule round_half_even_near) (simp_all add: power_int_minus)
  qed (simp_all add: power_int_minus)
  then show ?thesis by (simp add: power_int_minus)
qed

lemma rounding_32: "round64 (2800154399762600483968260801955 / 19807040628566084398385987584) = Finite (2487036709697499 / 17592186044416)"
proof -
  have "round64 (2800154399762600483968260801955 / 19807040628566084398385987584) = Finite (of_int 4974073419394998 * 2 powi (- 45))"
  proof (rule round64_finite[where n = 7])
    show "round_half_even ((2800154399762600483968260801955 / 19807040628566084398385987584) / 2 powi (- 45)) = 4974073419394998"
      by (rule round_half_even_near) (simp_all add: power_int_minus)
  qed (simp_all add: power_int_minus)
  then show ?thesis by (simp add: power_int_minus)
qed


lemmas roundings =
  rounding_1 rounding_2 rounding_3 rounding_4 rounding_5 rounding_6 rounding_7 rounding_8
  rounding_9 rounding_10 rounding_11 rounding_12 rounding_13 rounding_14 rounding_15 rounding_16
  rounding_17 rounding_18 rounding_19 rounding_20 rounding_21 rounding_22 rounding_23 rounding_24
  rounding_25 rounding_26 rounding_27 rounding_28 rounding_29 rounding_30 rounding_31 rounding_32
  round64_0 round64_1 round64_100

subsection \<open>Projection\<close>

lemma sin_abs_less_1:
  assumes "0 < cos (x::real)"
  shows "\<bar>sin x\<bar> < 1"
proof -
  have "(sin x)\<^sup>2 = 1 - (cos x)\<^sup>2"
    using sin_cos_squared_add[of x] by linarith
  moreover have "0 < (cos x)\<^sup>2" using assms by simp
  ultimately have "(sin x)\<^sup>2 < 1" by linarith
  then show ?thesis by (simp add: abs_square_less_1)
qed

lemma sec_tan_eq:
  "tan (x::real) + 1 / cos x = (1 + sin x) / cos x"
  by (simp add: tan_def add_divide_distrib)

lemma sec_tan_pos:
  assumes "0 < cos (x::real)"
  shows "0 < tan x + 1 / cos x"
proof -
  have "0 < 1 + sin x" using sin_abs_less_1[OF assms] by linarith
  then show ?thesis using assms by (simp add: sec_tan_eq)
qed

lemma sec_tan_squared:
  assumes "0 < cos (x::real)"
  shows "(tan x + 1 / cos x)\<^sup>2 = (1 + sin x) / (1 - sin x)"
proof -
  have c2: "cos x * cos x = (1 - sin x) * (1 + sin x)"
    using sin_cos_squared_add[of x] by (simp add: power2_eq_square algebra_simps)
  have n1: "0 < 1 - sin x" and n2: "0 < 1 + sin x"
    using sin_abs_less_1[OF assms] by linarith+
  have "(tan x + 1 / cos x)\<^sup>2 = (1 + sin x)\<^sup>2 / (cos x)\<^sup>2"
    using assms by (simp add: sec_tan_eq power_divide)
  also have "\<dots> = ((1 + sin x) * (1 + sin x)) / ((1 - sin x) * (1 + sin x))"
    by (simp only: c2 power2_eq_square)
  also have "\<dots> = (1 + sin x) / (1 - sin x)"
    using n1 n2 by simp
  finally show ?thesis .
qed

lemma sec_tan_strict_mono:
  fixes x y :: real
  assumes "- (pi / 2) < x" "x < y" "y < pi / 2"
  shows "tan x + 1 / cos x < tan y + 1 / cos y"
proof -
  have cx: "0 < cos x" and cy: "0 < cos y"
    using assms by (auto intro: cos_gt_zero_pi)
  have s: "sin x < sin y"
    using assms sin_monotone_2pi by force
  have sx: "0 < 1 - sin x" and sy: "0 < 1 - sin y"
    using sin_abs_less_1[OF cx] sin_abs_less_1[OF cy] by linarith+
  have "(1 + sin x) * (1 - sin y) < (1 + sin y) * (1 - sin x)"
    using s by (simp add: algebra_simps)
  then have "(1 + sin x) / (1 - sin x) < (1 + sin y) / (1 - sin y)"
    using sx sy by (simp add: field_simps)
  then have "(tan x + 1 / cos x)\<^sup>2 < (tan y + 1 / cos y)\<^sup>2"
    using cx cy by (simp add: sec_tan_squared)
  then show ?thesis
    using sec_tan_pos[OF cy] by (meson less_eq_real_def power2_less_imp_less)
qed

lemma deg_rad_bounds:
  assumes "- 90 < (la::real)" "la < 90"
  shows "- (pi / 2) < la * pi / 180" "la * pi / 180 < pi / 2"
proof -
  have "(- 90) * pi < la * pi" "la * pi < 90 * pi"
    using assms pi_gt_zero by (simp_all only: mult_strict_right_mono)
  then show "- (pi / 2) < la * pi / 180" "la * pi / 180 < pi / 2"
    by simp_all
qed

lemma tile_x_mono: "lon1 < lon2 \<Longrightarrow> tile_x lon1 < tile_x lon2"
  by (simp add: tile_x_def divide_strict_right_mono)

lemma tile_y_Some:
  assumes "- 90 < la" "la < 90"
  shows "tile_y la = Some ((1 - ln (tan (la * pi / 180) + 1 / cos (la * pi / 180)) / pi) / 2 * 2 ^ TILE_ZOOM)"
proof -
  have "0 < cos (la * pi / 180)"
    using deg_rad_bounds[OF assms] by (rule cos_gt_zero_pi)
  then show ?thesis by (simp add: tile_y_def Let_def)
qed

lemma tile_y_antimono:
  assumes "- 90 < lat1" "lat1 < lat2" "lat2 < 90"
  shows "\<exists>y1 y2. tile_y lat1 = Some y1 \<and> tile_y lat2 = Some y2 \<and> y2 < y1"
proof -
  let ?r = "\<lambda>la::real. la * pi / 180"
  let ?s = "\<lambda>la. tan (?r la) + 1 / cos (?r la)"
  have l: "lat1 < 90" "- 90 < lat2" using assms by linarith+
  have r: "- (pi / 2) < ?r lat1" "?r lat1 < ?r lat2" "?r lat2 < pi / 2"
    using deg_rad_bounds[OF assms(1) l(1)] deg_rad_bounds[OF l(2) assms(3)] assms(2) pi_gt_zero
    by simp_all
  have c1: "0 < cos (?r lat1)" using r by (intro cos_gt_zero_pi) linarith+
  have "?s lat1 < ?s lat2" using r by (rule sec_tan_strict_mono)
  moreover have "0 < ?s lat1" using c1 by (rule sec_tan_pos)
  ultimately have "ln (?s lat1) < ln (?s lat2)" by simp
  then have "(1 - ln (?s lat2) / pi) / 2 * 2 ^ TILE_ZOOM < (1 - ln (?s lat1) / pi) / 2 * 2 ^ TILE_ZOOM"
    using pi_gt_zero by (simp add: divide_strict_right_mono)
  then show ?thesis
    using tile_y_Some[OF assms(1) l(1)] tile_y_Some[OF l(2) assms(3)] by blast
qed

text \<open>The projection of the longitude in double arithmetic is monotone.\<close>

lemma round64_not_NaN: "round64 x \<noteq> NaN"
  by (simp add: round64_def Let_def)

lemma fl_le_NegInf: "fl_le NegInf d \<longleftrightarrow> d \<noteq> NaN"
  by (cases d) simp_all

lemma fl_le_PosInf: "fl_le d PosInf \<longleftrightarrow> d \<noteq> NaN"
  by (cases d) simp_all

lemma fl_div_mono:
  assumes "fl_le a b" "0 < c"
  shows "fl_le (fl_div a (Finite c)) (fl_div b (Finite c))"
proof (cases a)
  case (Finite x)
  show ?thesis
  proof (cases b)
    case (Finite y)
    then have "x / c \<le> y / c" using assms \<open>a = Finite x\<close> by (simp add: divide_right_mono)
    then show ?thesis using assms(2) Finite \<open>a = Finite x\<close> by (simp add: round64_mono)
  next
    case PosInf
    then show ?thesis using assms(2) \<open>a = Finite x\<close> by (simp add: fl_le_PosInf round64_not_NaN)
  qed (use assms \<open>a = Finite x\<close> in simp_all)
next
  case NegInf
  then show ?thesis using assms by (cases b) (simp_all add: fl_le_NegInf round64_not_NaN)
next
  case PosInf
  then show ?thesis using assms by (cases b) simp_all
qed (use assms in simp)

lemma fl_mul_mono:
  assumes "fl_le a b" "0 < c"
  shows "fl_le (fl_mul a (Finite c)) (fl_mul b (Finite c))"
proof (cases a)
  case (Finite x)
  show ?thesis
  proof (cases b)
    case (Finite y)
    then have "x * c \<le> y * c" using assms \<open>a = Finite x\<close> by (simp add: mult_right_mono)
    then show ?thesis using Finite \<open>a = Finite x\<close> by (simp add: round64_mono)
  next
    case PosInf
    then show ?thesis using assms(2) \<open>a = Finite x\<close> by (simp add: fl_le_PosInf round64_not_NaN)
  qed (use assms \<open>a = Finite x\<close> in simp_all)
next
  case NegInf
  then show ?thesis using assms by (cases b) (simp_all add: fl_le_NegInf round64_not_NaN)
next
  case PosInf
  then show ?thesis using assms by (cases b) simp_all
qed (use assms in simp)

lemma tile_x_double_mono:
  assumes "lon1 \<le> lon2"
  shows "fl_le (tile_x_double (Finite lon1)) (tile_x_double (Finite lon2))"
proof -
  have "fl_le (fl_add (Finite lon1) (Finite 180)) (fl_add (Finite lon2) (Finite 180))"
    using assms by (simp add: round64_mono)
  then have "fl_le (fl_div (fl_add (Finite lon1) (Finite 180)) (Finite 360))
                   (fl_div (fl_add (Finite lon2) (Finite 180)) (Finite 360))"
    by (rule fl_div_mono) simp
  then have "fl_le (fl_mul (fl_div (fl_add (Finite lon1) (Finite 180)) (Finite 360)) (Finite (2 ^ TILE_ZOOM)))
                   (fl_mul (fl_div (fl_add (Finite lon2) (Finite 180)) (Finite 360)) (Finite (2 ^ TILE_ZOOM)))"
    by (rule fl_mul_mono) simp
  then show ?thesis by (simp only: tile_x_double_def Let_def)
qed

subsection \<open>The tile cache and the lookup\<close>

lemma fetchElevationTile_cases:
  "(\<exists>data. tileCache w (z, x, y) = Some data \<and> fetchElevationTile net z x y w = (Inr data, w))
   \<or> (tileCache w (z, x, y) = None
       \<and> (\<exists>e. fetchElevationTile net z x y w = (Inl e, w\<lparr>requests := requests w @ [(z, x, y)]\<rparr>)))
   \<or> (tileCache w (z, x, y) = None
       \<and> (\<exists>data. fetchElevationTile net z x y w
             = (Inr data, w\<lparr>requests := requests w @ [(z, x, y)],
                             tileCache := (tileCache w)((z, x, y) \<mapsto> data)\<rparr>)))"
  by (cases "tileCache w (z, x, y)")
     (auto simp add: fetchElevationTile_def Let_def split: fetch_outcome.splits response_body.splits)

lemma fetchElevationTile_frame:
  "state_waypoints (snd (fetchElevationTile net z x y w)) = state_waypoints w"
  "state_profileToken (snd (fetchElevationTile net z x y w)) = state_profileToken w"
  "drawn (snd (fetchElevationTile net z x y w)) = drawn w"
  "Math_sin (snd (fetchElevationTile net z x y w)) = Math_sin w"
  "Math_cos (snd (fetchElevationTile net z x y w)) = Math_cos w"
  "argument_limit (snd (fetchElevationTile net z x y w)) = argument_limit w"
  using fetchElevationTile_cases[of w z x y net] by auto

lemma getElevationFromTile_Inr:
  "\<exists>v w'. getElevationFromTile net la lo w = (Inr v, w')"
  by (simp add: getElevationFromTile_def split: prod.splits sum.splits)

lemma getElevationFromTile_frame:
  "state_waypoints (snd (getElevationFromTile net la lo w)) = state_waypoints w"
  "state_profileToken (snd (getElevationFromTile net la lo w)) = state_profileToken w"
  "drawn (snd (getElevationFromTile net la lo w)) = drawn w"
  "Math_sin (snd (getElevationFromTile net la lo w)) = Math_sin w"
  "Math_cos (snd (getElevationFromTile net la lo w)) = Math_cos w"
  "argument_limit (snd (getElevationFromTile net la lo w)) = argument_limit w"
  using fetchElevationTile_frame[of net TILE_ZOOM "\<lfloor>tile_x lo\<rfloor>" "map_option floor (tile_y la)" w]
  by (auto simp add: getElevationFromTile_def getElevationFromTile_try_def Let_def
        split: prod.splits sum.splits)

lemma getElevationFromTile_failed_fetch:
  assumes "fetchElevationTile net TILE_ZOOM \<lfloor>tile_x lo\<rfloor> (map_option floor (tile_y la)) w = (Inl e, w')"
  shows "getElevationFromTile net la lo w = (Inr None, w'\<lparr>console := console w' @ [Warn e]\<rparr>)"
  using assms by (simp add: getElevationFromTile_def getElevationFromTile_try_def Let_def)


lemma fetch_never_succeeds:
  assumes "never_succeeds net" "tileCache w = (\<lambda>key. None)"
  shows "\<exists>e. fetchElevationTile net z x y w = (Inl e, w\<lparr>requests := requests w @ [(z, x, y)]\<rparr>)"
proof -
  have "case net (length (requests w)) (z, x, y) of
          Rejected \<Rightarrow> True
        | Response status body \<Rightarrow> \<not> response_ok status \<or> body = Undecodable"
    using assms(1) unfolding never_succeeds_def by blast
  then show ?thesis
    using assms(2)
    by (auto simp add: fetchElevationTile_def Let_def split: fetch_outcome.splits response_body.splits)
qed

lemma getElevationFromTile_never_succeeds:
  assumes "never_succeeds net" "tileCache w = (\<lambda>key. None)"
  shows "\<exists>w'. getElevationFromTile net la lo w = (Inr None, w') \<and> tileCache w' = (\<lambda>key. None)"
proof -
  obtain e where "fetchElevationTile net TILE_ZOOM \<lfloor>tile_x lo\<rfloor> (map_option floor (tile_y la)) w
      = (Inl e, w\<lparr>requests := requests w @ [(TILE_ZOOM, \<lfloor>tile_x lo\<rfloor>, map_option floor (tile_y la))]\<rparr>)"
    using fetch_never_succeeds[OF assms] by blast
  from getElevationFromTile_failed_fetch[OF this] assms(2) show ?thesis by simp
qed

subsection \<open>The sampler is the sequence of its lookups\<close>

lemma visit_all_append:
  "visit_all net (xs @ ys) w =
     (fst (visit_all net xs w) @ fst (visit_all net ys (snd (visit_all net xs w))),
      snd (visit_all net ys (snd (visit_all net xs w))))"
proof (induction xs arbitrary: w)
  case Nil
  show ?case by simp
next
  case (Cons x xs)
  obtain keep s where x: "x = (keep, s)" by (cases x)
  show ?case
    by (simp add: x Cons.IH split: prod.splits)
qed

lemma visit_all_preserves:
  assumes "\<And>la lo w. I w \<Longrightarrow> I (snd (getElevationFromTile net la lo w))"
  shows "I w \<Longrightarrow> I (snd (visit_all net vs w))"
proof (induction vs arbitrary: w)
  case Nil
  then show ?case by simp
next
  case (Cons v vs)
  obtain keep s where v: "v = (keep, s)" by (cases v)
  have "I (snd (getElevationFromTile net (lat s) (lon s) w))"
    using assms Cons.prems by blast
  from Cons.IH[OF this] show ?case
    by (auto simp add: v split: prod.splits)
qed

lemma visit_all_geometry:
  "map geometry (fst (visit_all net vs w)) = map (\<lambda>v. geometry (snd v)) (filter fst vs)"
proof (induction vs arbitrary: w)
  case Nil
  show ?case by simp
next
  case (Cons v vs)
  obtain keep s where v: "v = (keep, s)" by (cases v)
  obtain r w1 where g: "getElevationFromTile net (lat s) (lon s) w = (r, w1)"
    by (cases "getElevationFromTile net (lat s) (lon s) w")
  show ?case
    using Cons.IH[of w1] by (auto simp add: v g geometry_def split: prod.splits)
qed

lemma visit_all_never_succeeds:
  assumes "never_succeeds net"
  shows "tileCache w = (\<lambda>key. None) \<Longrightarrow>
     list_all (\<lambda>s. groundElevation s = None) (fst (visit_all net vs w))
     \<and> tileCache (snd (visit_all net vs w)) = (\<lambda>key. None)"
proof (induction vs arbitrary: w)
  case Nil
  then show ?case by simp
next
  case (Cons v vs)
  obtain keep s where v: "v = (keep, s)" by (cases v)
  obtain w1 where g: "getElevationFromTile net (lat s) (lon s) w = (Inr None, w1)"
    and c1: "tileCache w1 = (\<lambda>key. None)"
    using getElevationFromTile_never_succeeds[OF assms Cons.prems] by blast
  from Cons.IH[OF c1] show ?case
    by (auto simp add: v g split: prod.splits)
qed

lemma sample_steps_NaN:
  "sample_steps net i a b sd cum None step samples w = (Inr samples, w)"
  by (subst sample_steps.simps) simp

lemma sample_steps_visits:
  "sample_steps net i a b sd cum (Some n) step samples w =
     (Inr (samples @ fst (visit_all net (map (\<lambda>k. (emitted i k, step_sample a b sd cum n k)) [step..n]) w)),
      snd (visit_all net (map (\<lambda>k. (emitted i k, step_sample a b sd cum n k)) [step..n]) w))"
proof (induction "nat (n + 1 - step)" arbitrary: step samples w)
  case 0
  then have "\<not> step \<le> n" by simp
  then show ?case by (subst sample_steps.simps) simp
next
  case (Suc m)
  then have le: "step \<le> n" and m: "m = nat (n + 1 - (step + 1))" by linarith+
  let ?t = "of_int step / of_int n :: real"
  let ?la = "interpolateCoordinate (of_rat (latitude a)) (of_rat (latitude b)) ?t"
  let ?lo = "interpolateCoordinate (of_rat (longitude a)) (of_rat (longitude b)) ?t"
  obtain g w1 where g: "getElevationFromTile net ?la ?lo w = (Inr g, w1)"
    using getElevationFromTile_Inr by blast
  have up: "[step..n] = step # [step + 1..n]"
    using le by (simp add: upto_rec1)
  have ll: "lat (step_sample a b sd cum n step) = ?la" "lon (step_sample a b sd cum n step) = ?lo"
    by (simp_all add: step_sample_def)
  show ?case
  proof (cases "step = 0 \<and> i \<noteq> 0")
    case True
    then have e: "\<not> emitted i step" by (simp add: emitted_def)
    have "sample_steps net i a b sd cum (Some n) step samples w
        = sample_steps net i a b sd cum (Some n) (step + 1) samples w1"
      using le g True by (subst sample_steps.simps) (simp add: Let_def)
    then show ?thesis
      unfolding Suc.hyps(1)[OF m] up
      using e g by (simp add: ll split: prod.splits)
  next
    case False
    then have e: "emitted i step" by (simp add: emitted_def)
    let ?s = "\<lparr>distance = plus_number cum (times_number sd (Some ?t)), lat = ?la, lon = ?lo,
               groundElevation = g,
               plannedAltitude = interpolateCoordinate (of_rat (altitude a)) (of_rat (altitude b)) ?t\<rparr>"
    have "sample_steps net i a b sd cum (Some n) step samples w
        = sample_steps net i a b sd cum (Some n) (step + 1) (samples @ [?s]) w1"
      using le g False by (subst sample_steps.simps) (auto simp add: Let_def)
    moreover have "(step_sample a b sd cum n step)\<lparr>groundElevation := g\<rparr> = ?s"
      by (simp add: step_sample_def)
    ultimately show ?thesis
      unfolding Suc.hyps(1)[OF m] up
      using e g by (simp add: ll split: prod.splits)
  qed
qed

lemma segment_distance_preserved:
  "segment_distance (snd (visit_all net vs w)) = segment_distance w"
proof -
  have "Math_sin (snd (visit_all net vs w)) = Math_sin w \<and> Math_cos (snd (visit_all net vs w)) = Math_cos w"
    by (rule visit_all_preserves[of "\<lambda>w'. Math_sin w' = Math_sin w \<and> Math_cos w' = Math_cos w"])
       (simp_all add: getElevationFromTile_frame)
  then show ?thesis by (intro ext) (simp add: segment_distance_def)
qed

lemma sample_segments_visits:
  "segment_distance w = sdist \<Longrightarrow>
   sample_segments net wps i cum samples w =
     (Inr (samples @ fst (visit_all net (route_visits sdist i cum (drop i wps)) w)),
      snd (visit_all net (route_visits sdist i cum (drop i wps)) w))"
proof (induction "length wps - i" arbitrary: i cum samples w)
  case 0
  then have "\<not> int i < int (length wps) - 1" and "drop i wps = []" by simp_all
  then show ?case by (subst sample_segments.simps) simp
next
  case (Suc m)
  then have i: "i < length wps" by simp
  show ?case
  proof (cases "i + 1 < length wps")
    case False
    with i have "drop i wps = [wps ! i]"
      by (metis Cons_nth_drop_Suc Suc_eq_plus1 drop_all not_less)
    moreover have "\<not> int i < int (length wps) - 1" using False by simp
    ultimately show ?thesis by (subst sample_segments.simps) simp
  next
    case True
    let ?a = "wps ! i" and ?b = "wps ! Suc i"
    have d: "drop i wps = ?a # ?b # drop (i + 2) wps"
      using True i by (metis Cons_nth_drop_Suc Suc_eq_plus1 add_2_eq_Suc')
    have d': "drop (i + 1) wps = ?b # drop (i + 2) wps"
      using True by (metis Cons_nth_drop_Suc Suc_eq_plus1 add_2_eq_Suc')
    have m: "m = length wps - (i + 1)" using Suc.hyps(2) by simp
    have c: "int i < int (length wps) - 1" using True by simp
    have sd: "haversineDistance (Math_sin w) (Math_cos w) (Finite (latitude ?a)) (Finite (longitude ?a))
                (Finite (latitude ?b)) (Finite (longitude ?b)) = sdist ?a ?b"
      using Suc.prems by (auto simp add: segment_distance_def fun_eq_iff)
    define V where "V = (case sdist ?a ?b of
        None \<Rightarrow> []
      | Some d \<Rightarrow>
          map (\<lambda>k. (emitted i k, step_sample ?a ?b (Some d) cum (max 1 \<lceil>d / SAMPLE_SPACING_METERS\<rceil>) k))
            [0 .. max 1 \<lceil>d / SAMPLE_SPACING_METERS\<rceil>])"
    have inner: "sample_steps net i ?a ?b (sdist ?a ?b) cum
                   (map_option (\<lambda>d. max 1 \<lceil>d / SAMPLE_SPACING_METERS\<rceil>) (sdist ?a ?b)) 0 samples w
        = (Inr (samples @ fst (visit_all net V w)), snd (visit_all net V w))"
    proof (cases "sdist ?a ?b")
      case None
      then show ?thesis by (simp add: V_def sample_steps_NaN)
    next
      case (Some d)
      then show ?thesis by (simp add: V_def sample_steps_visits)
    qed
    have p: "segment_distance (snd (visit_all net V w)) = sdist"
      using Suc.prems by (simp add: segment_distance_preserved)
    have step: "sample_segments net wps i cum samples w
        = sample_segments net wps (i + 1) (plus_number cum (sdist ?a ?b))
            (samples @ fst (visit_all net V w)) (snd (visit_all net V w))"
      using c by (subst sample_segments.simps) (simp add: Let_def sd inner)
    have v: "route_visits sdist i cum (drop i wps)
        = V @ route_visits sdist (i + 1) (plus_number cum (sdist ?a ?b)) (drop (i + 1) wps)"
      by (simp only: d d' route_visits.simps V_def)
    show ?thesis
      unfolding step v Suc.hyps(1)[OF m p] visit_all_append by simp
  qed
qed

lemma sampleElevationAlongRoute_visits:
  "sampleElevationAlongRoute net wps w =
     (Inr (fst (visit_all net (route_visits (segment_distance w) 0 (Some 0) wps) w)),
      snd (visit_all net (route_visits (segment_distance w) 0 (Some 0) wps) w))"
  using sample_segments_visits[of w "segment_distance w" net wps 0 "Some 0" "[]"]
  by (simp add: sampleElevationAlongRoute_def)

lemma sampleElevationAlongRoute_frame:
  "state_profileToken (snd (sampleElevationAlongRoute net wps w)) = state_profileToken w
   \<and> drawn (snd (sampleElevationAlongRoute net wps w)) = drawn w
   \<and> state_waypoints (snd (sampleElevationAlongRoute net wps w)) = state_waypoints w
   \<and> argument_limit (snd (sampleElevationAlongRoute net wps w)) = argument_limit w"
  unfolding sampleElevationAlongRoute_visits snd_conv
  by (rule visit_all_preserves[of
        "\<lambda>w'. state_profileToken w' = state_profileToken w \<and> drawn w' = drawn w
               \<and> state_waypoints w' = state_waypoints w \<and> argument_limit w' = argument_limit w"])
     (simp_all add: getElevationFromTile_frame)

lemma sampleElevationAlongRoute_never_succeeds:
  assumes "never_succeeds net" "tileCache w = (\<lambda>key. None)"
  shows "\<exists>samples w'. sampleElevationAlongRoute net wps w = (Inr samples, w')
        \<and> list_all (\<lambda>s. groundElevation s = None) samples"
  using visit_all_never_succeeds[OF assms, of "route_visits (segment_distance w) 0 (Some 0) wps"]
  by (simp add: sampleElevationAlongRoute_visits)

subsection \<open>The sampler and the specification's list\<close>

lemma filter_emitted:
  assumes "1 \<le> steps"
  shows "filter (emitted i) [0..steps] = [(if i = 0 then 0 else 1)..steps]"
proof (cases "i = 0")
  case True
  then show ?thesis by (simp add: emitted_def)
next
  case False
  have "[0..steps] = 0 # [1..steps]"
    using assms by (simp add: upto_rec1)
  moreover have "filter (emitted i) [1..steps] = [1..steps]"
    by (rule filter_True) (simp add: emitted_def)
  ultimately show ?thesis using False by (simp add: emitted_def)
qed

lemma spec_steps_ge_1: "1 \<le> spec_steps sdist a b"
  by (simp add: spec_steps_def)

lemma step_sample_spec:
  assumes "sdist a b = Some d"
  shows "step_sample a b (Some d) (Some cum) (max 1 \<lceil>d / SAMPLE_SPACING_METERS\<rceil>) k
           = spec_sample sdist cum a b k"
  using assms
  by (simp add: step_sample_def spec_sample_def spec_steps_def spec_segment_distance_def
        interpolateCoordinate_def SAMPLE_SPACING_METERS_def Let_def)

lemma geometry_spec_sample: "geometry (spec_sample sdist cum a b k) = spec_sample sdist cum a b k"
  by (simp add: geometry_def spec_sample_def Let_def)

lemma route_visits_spec:
  "numeric_route sdist wps \<Longrightarrow>
     map (\<lambda>v. geometry (snd v)) (filter fst (route_visits sdist i (Some cum) wps))
       = spec_route_samples sdist i cum wps"
proof (induction sdist i cum wps rule: spec_route_samples.induct)
  case (1 sdist i cumulative a b rest)
  from "1.prems" obtain d where d: "sdist a b = Some d" and n: "numeric_route sdist (b # rest)"
    by auto
  have steps: "max 1 \<lceil>d / SAMPLE_SPACING_METERS\<rceil> = spec_steps sdist a b"
    by (simp add: spec_steps_def spec_segment_distance_def d SAMPLE_SPACING_METERS_def)
  have sd: "spec_segment_distance sdist a b = d"
    by (simp add: spec_segment_distance_def d)
  have f: "map (\<lambda>v. geometry (snd v))
             (filter fst (map (\<lambda>k. (emitted i k,
                  step_sample a b (Some d) (Some cumulative) (max 1 \<lceil>d / SAMPLE_SPACING_METERS\<rceil>) k))
                [0 .. max 1 \<lceil>d / SAMPLE_SPACING_METERS\<rceil>]))
        = map (spec_sample sdist cumulative a b) [(if i = 0 then 0 else 1) .. spec_steps sdist a b]"
  proof -
    have "filter fst (map (\<lambda>k. (emitted i k,
                  step_sample a b (Some d) (Some cumulative) (max 1 \<lceil>d / SAMPLE_SPACING_METERS\<rceil>) k))
                [0 .. max 1 \<lceil>d / SAMPLE_SPACING_METERS\<rceil>])
        = map (\<lambda>k. (emitted i k, spec_sample sdist cumulative a b k))
            (filter (emitted i) [0 .. spec_steps sdist a b])"
      by (simp add: filter_map comp_def step_sample_spec[of sdist a b d, OF d, unfolded steps] steps)
    then show ?thesis
      by (simp add: filter_emitted[OF spec_steps_ge_1] geometry_spec_sample comp_def)
  qed
  show ?case
    using "1.IH"[OF n] f by (simp add: d sd)
qed simp_all

lemma sampleElevationAlongRoute_result:
  assumes "numeric_route (segment_distance w) wps"
  shows "\<exists>samples w'. sampleElevationAlongRoute net wps w = (Inr samples, w')
      \<and> map geometry samples = spec_route_samples (segment_distance w) 0 0 wps"
  using route_visits_spec[OF assms, of 0 0]
  by (simp add: sampleElevationAlongRoute_visits visit_all_geometry)

lemma spec_route_samples_length:
  "int (length (spec_route_samples sdist i cum wps))
     = (if 2 \<le> length wps then (if i = 0 then 1 else 0) + spec_total_steps sdist wps else 0)"
proof (induction sdist i cum wps rule: spec_route_samples.induct)
  case (1 sdist i cumulative a b rest)
  have "int (length [(if i = 0 then 0 else 1)..spec_steps sdist a b])
          = (if i = 0 then 1 else 0) + spec_steps sdist a b"
    using spec_steps_ge_1[of sdist a b] by simp
  moreover have "int (length (spec_route_samples sdist (i + 1)
                    (cumulative + spec_segment_distance sdist a b) (b # rest)))
          = spec_total_steps sdist (b # rest)"
    using "1.IH" by (cases rest) simp_all
  ultimately show ?case by simp
qed simp_all

subsection \<open>Distances\<close>

















subsection \<open>Frame of the renderer\<close>

lemma resizeCanvas_frame:
  "state_waypoints (snd (resizeCanvas w)) = state_waypoints w"
  "state_profileToken (snd (resizeCanvas w)) = state_profileToken w"
  "tileCache (snd (resizeCanvas w)) = tileCache w"
  "requests (snd (resizeCanvas w)) = requests w"
  "console (snd (resizeCanvas w)) = console w"
  "argument_limit (snd (resizeCanvas w)) = argument_limit w"
  "Math_sin (snd (resizeCanvas w)) = Math_sin w"
  "Math_cos (snd (resizeCanvas w)) = Math_cos w"
  by (simp_all add: resizeCanvas_def Let_def)

lemma resizeCanvas_drawn:
  "\<exists>cmds. drawn (snd (resizeCanvas w)) = drawn w @ cmds
      \<and> (\<forall>c \<in> set cmds. \<exists>width height. c = Resize width height)"
  by (simp add: resizeCanvas_def Let_def)

lemma drawProfilePlaceholder_frame:
  "state_waypoints (drawProfilePlaceholder m w) = state_waypoints w"
  "state_profileToken (drawProfilePlaceholder m w) = state_profileToken w"
  "tileCache (drawProfilePlaceholder m w) = tileCache w"
  "requests (drawProfilePlaceholder m w) = requests w"
  "console (drawProfilePlaceholder m w) = console w"
  "argument_limit (drawProfilePlaceholder m w) = argument_limit w"
  "Math_sin (drawProfilePlaceholder m w) = Math_sin w"
  "Math_cos (drawProfilePlaceholder m w) = Math_cos w"
  using resizeCanvas_frame[of w]
  by (auto simp add: drawProfilePlaceholder_def split: prod.splits)

lemma drawProfilePlaceholder_drawn:
  "\<exists>cmds x y. drawn (drawProfilePlaceholder m w) = drawn w @ cmds @ [FillText (Placeholder m) x y]
      \<and> list_all chart_cmd cmds \<and> list_all placeholder_cmd cmds"
proof -
  obtain width height dpr w1 where r: "resizeCanvas w = ((width, height, dpr), w1)"
    by (metis surj_pair)
  obtain cmds where c: "drawn w1 = drawn w @ cmds"
      "\<forall>c \<in> set cmds. \<exists>width height. c = Resize width height"
    using resizeCanvas_drawn[of w] r by auto
  have "list_all chart_cmd cmds" "list_all placeholder_cmd cmds"
    using c(2) by (auto simp add: list_all_iff)
  then have l: "list_all chart_cmd (cmds @ [ClearRect 0 0 (of_int width) (of_int height), FillStyle ''#666'',
             Font (of_int (max 14 \<lfloor>of_int height / (12::real)\<rfloor>)), TextAlign ''center'',
             TextBaseline ''middle''])"
      "list_all placeholder_cmd (cmds @ [ClearRect 0 0 (of_int width) (of_int height), FillStyle ''#666'',
             Font (of_int (max 14 \<lfloor>of_int height / (12::real)\<rfloor>)), TextAlign ''center'',
             TextBaseline ''middle''])"
    by simp_all
  from c(1) have "drawn (drawProfilePlaceholder m w)
      = drawn w @ (cmds @ [ClearRect 0 0 (of_int width) (of_int height), FillStyle ''#666'',
             Font (of_int (max 14 \<lfloor>of_int height / (12::real)\<rfloor>)), TextAlign ''center'',
             TextBaseline ''middle''])
          @ [FillText (Placeholder m) (of_int width / 2) (of_int height / 2)]"
    by (simp add: drawProfilePlaceholder_def r)
  with l show ?thesis by blast
qed

subsection \<open>What the renderer draws\<close>

lemma chart_cmd_iff: "chart_cmd c \<longleftrightarrow> \<not> is_placeholder c \<and> c \<noteq> Fill"
  by (cases c rule: chart_cmd.cases) simp_all

lemma chart_cmds_no_placeholder: "list_all chart_cmd cs \<Longrightarrow> list_all (\<lambda>c. \<not> is_placeholder c) cs"
  by (simp add: list_all_iff chart_cmd_iff)

lemma chart_cmds_no_Fill: "list_all chart_cmd cs \<Longrightarrow> Fill \<notin> set cs"
  by (auto simp add: list_all_iff chart_cmd_iff)

lemma move_to_chart: "list_all chart_cmd (move_to x y)"
  by (cases x) (simp_all add: move_to_def)

lemma line_to_chart: "list_all chart_cmd (line_to x y)"
  by (cases x) (simp_all add: line_to_def)

lemma path_cmds_chart: "list_all chart_cmd (path_cmds pts)"
proof (cases pts)
  case Nil
  then show ?thesis by simp
next
  case (Cons p rest)
  obtain x y where p: "p = (x, y)" by (cases p)
  have "list_all chart_cmd (concat (map (\<lambda>(x', y'). line_to x' y') rest))"
    by (induction rest) (auto simp add: line_to_chart)
  then show ?thesis using Cons p by (simp add: move_to_chart)
qed

lemma distance_ticks_chart:
  "list_all chart_cmd (distance_ticks effectiveTotal totalDistance xScale height margin dpr d)"
proof (induction effectiveTotal totalDistance xScale height margin dpr d rule: distance_ticks.induct)
  case (1 effectiveTotal totalDistance xScale height margin dpr d)
  show ?case
  proof (cases "d \<le> effectiveTotal + 1 / 1000000")
    case True
    from "1.IH"[OF True refl refl refl] True show ?thesis
      by (subst distance_ticks.simps) (simp add: Let_def)
  next
    case False
    then show ?thesis by (subst distance_ticks.simps) simp
  qed
qed

lemma no_valid_samples:
  "list_all (\<lambda>s. groundElevation s = None) samples \<Longrightarrow>
     filter (\<lambda>s. groundElevation s \<noteq> None) samples = []"
  by (induction samples) simp_all

lemma drawElevationProfile_frame:
  "state_profileToken (snd (drawElevationProfile samples w)) = state_profileToken w"
  "console (snd (drawElevationProfile samples w)) = console w"
  using resizeCanvas_frame(2,5)[of w]
  by (auto simp add: drawElevationProfile_def Let_def split: prod.splits)

lemma drawElevationProfile_throws:
  assumes "argument_limit w < max_arguments samples"
  shows "fst (drawElevationProfile samples w) = Inl RangeError
    \<and> (\<exists>cmds. drawn (snd (drawElevationProfile samples w)) = drawn w @ cmds
          \<and> list_all placeholder_cmd cmds)"
proof -
  obtain width height dpr w1 where r: "resizeCanvas w = ((width, height, dpr), w1)"
    by (metis surj_pair)
  obtain rs where rs: "drawn w1 = drawn w @ rs" "\<forall>c \<in> set rs. \<exists>width height. c = Resize width height"
    using resizeCanvas_drawn[of w] r by auto
  have rs': "list_all placeholder_cmd (rs @ [ClearRect 0 0 (of_int width) (of_int height)])"
    using rs(2) by (auto simp add: list_all_iff)
  have "drawElevationProfile samples w
      = (Inl RangeError, w1\<lparr>drawn := drawn w1 @ [ClearRect 0 0 (of_int width) (of_int height)]\<rparr>)"
    using assms
    by (simp add: drawElevationProfile_def r Let_def comp_def max_arguments_def)
  then show ?thesis using rs(1) rs' by simp
qed

lemma drawElevationProfile_drawn:
  assumes "max_arguments samples \<le> argument_limit w"
  shows "fst (drawElevationProfile samples w) = Inr ()
    \<and> (\<exists>cmds. drawn (snd (drawElevationProfile samples w)) = drawn w @ cmds
      \<and> list_all (\<lambda>c. \<not> is_placeholder c) cmds
      \<and> FillText AltitudeAxis 0 0 \<in> set cmds
      \<and> StrokeStyle ''#ff6b6b'' \<in> set cmds
      \<and> (list_all (\<lambda>s. groundElevation s = None) samples \<longrightarrow> Fill \<notin> set cmds))"
proof -
  obtain width height dpr w1 where r: "resizeCanvas w = ((width, height, dpr), w1)"
    by (metis surj_pair)
  obtain rs where rs: "drawn w1 = drawn w @ rs" "\<forall>c \<in> set rs. \<exists>width height. c = Resize width height"
    using resizeCanvas_drawn[of w] r by auto
  have rs': "list_all chart_cmd rs"
    using rs(2) by (auto simp add: list_all_iff)
  define margin where "margin = 40 * dpr"
  define plotWidth where "plotWidth = of_int width - margin * 2"
  define plotHeight where "plotHeight = max (of_int height - margin * 2) dpr"
  define distances where "distances = map distance samples"
  define totalDistance where
    "totalDistance = (if distances = [] \<or> last distances = None \<or> last distances = Some 0 then 1
                  else the (last distances))"
  define elevations where
    "elevations = map the (filter (\<lambda>v. v \<noteq> None) (map groundElevation samples))"
  define planned where "planned = map plannedAltitude samples"
  define minElevation where "minElevation = foldr min elevations 0"
  define maxElevation where "maxElevation = foldr max (elevations @ planned) (minElevation + 10)"
  define xScale where "xScale = (\<lambda>distance. margin + (distance / totalDistance) * plotWidth)"
  define yScale where "yScale = (\<lambda>value. margin + plotHeight
                           - ((value - minElevation) / max (maxElevation - minElevation) 1) * plotHeight)"
  define validSamples where "validSamples = filter (\<lambda>s. groundElevation s \<noteq> None) samples"
  define ground where "ground =
                 (if 2 \<le> length validSamples then
                    [BeginPath]
                    @ path_cmds (map (\<lambda>sample. (map_option xScale (distance sample),
                                                 yScale (the (groundElevation sample)))) validSamples)
                    @ line_to (map_option xScale (distance (last validSamples))) (yScale minElevation)
                    @ line_to (map_option xScale (distance (hd validSamples))) (yScale minElevation)
                    @ [ClosePath,
                       FillStyle ''rgba(132, 94, 247, 0.15)'',
                       Fill,
                       StrokeStyle ''rgba(132, 94, 247, 0.6)'',
                       LineWidth (2 * dpr),
                       Stroke]
                  else [])"
  define plannedLine where "plannedLine =
                 [BeginPath, StrokeStyle ''#ff6b6b'', LineWidth (2.5 * dpr)]
                 @ path_cmds (map (\<lambda>sample. (map_option xScale (distance sample),
                                              yScale (plannedAltitude sample))) samples)
                 @ [Stroke]"
  define axes where "axes =
                 [StrokeStyle ''#444'',
                  LineWidth dpr,
                  BeginPath,
                  MoveTo margin (margin - dpr * 0.5),
                  LineTo margin (of_int height - margin + dpr * 0.5),
                  LineTo (of_int width - margin + dpr * 0.5) (of_int height - margin + dpr * 0.5),
                  Stroke,
                  FillStyle ''#222'',
                  Font (12 * dpr),
                  TextAlign ''center'']"
  define ticks where "ticks =
     distance_ticks (max totalDistance 1) totalDistance xScale (of_int height) margin dpr 0"
  define labels where "labels =
                 [Save,
                  Translate (margin - 26 * dpr) (margin + plotHeight / 2),
                  Rotate (- pi / 2),
                  FillText AltitudeAxis 0 0,
                  Restore,
                  TextAlign ''right'',
                  FillText DistanceAxis (of_int width - margin) (of_int height - margin + 32 * dpr)]"
  have lim: "\<not> argument_limit w < length elevations + 1"
      "\<not> argument_limit w < length elevations + length planned + 1"
    using assms by (simp_all add: max_arguments_def elevations_def planned_def comp_def)
  have d: "drawElevationProfile samples w
      = (Inr (), w1\<lparr>drawn := drawn w @ (rs @ [ClearRect 0 0 (of_int width) (of_int height)]
                     @ ground @ plannedLine @ axes @ ticks @ labels)\<rparr>)"
    unfolding drawElevationProfile_def r Let_def
    using lim
    by (simp add: rs(1) margin_def plotWidth_def plotHeight_def distances_def totalDistance_def
          elevations_def planned_def minElevation_def maxElevation_def xScale_def yScale_def
          validSamples_def ground_def plannedLine_def axes_def ticks_def labels_def)
  have g1: "list_all (\<lambda>c. \<not> is_placeholder c) ground"
    using chart_cmds_no_placeholder[OF path_cmds_chart[of "map (\<lambda>sample. (map_option xScale (distance sample),
                                 yScale (the (groundElevation sample)))) validSamples"]]
      chart_cmds_no_placeholder[OF line_to_chart[of "map_option xScale (distance (last validSamples))" "yScale minElevation"]]
      chart_cmds_no_placeholder[OF line_to_chart[of "map_option xScale (distance (hd validSamples))" "yScale minElevation"]]
    by (simp add: ground_def)
  have g2: "ground = []" if "list_all (\<lambda>s. groundElevation s = None) samples"
    using no_valid_samples[OF that] by (simp add: ground_def validSamples_def)
  have p: "list_all chart_cmd plannedLine"
    using path_cmds_chart by (simp add: plannedLine_def)
  have a: "list_all chart_cmd axes" by (simp add: axes_def)
  have t: "list_all chart_cmd ticks" by (simp add: ticks_def distance_ticks_chart)
  have l: "list_all chart_cmd labels" by (simp add: labels_def)
  have rest: "list_all chart_cmd (rs @ [ClearRect 0 0 (of_int width) (of_int height)]
      @ plannedLine @ axes @ ticks @ labels)"
    using rs' p a t l by simp
  let ?cmds = "rs @ [ClearRect 0 0 (of_int width) (of_int height)]
                     @ ground @ plannedLine @ axes @ ticks @ labels"
  have 1: "list_all (\<lambda>c. \<not> is_placeholder c) ?cmds"
    using chart_cmds_no_placeholder[OF rest] g1 by simp
  have 2: "FillText AltitudeAxis 0 0 \<in> set ?cmds" by (simp add: labels_def)
  have 4: "StrokeStyle ''#ff6b6b'' \<in> set ?cmds" by (simp add: plannedLine_def)
  have 3: "Fill \<notin> set ?cmds" if "list_all (\<lambda>s. groundElevation s = None) samples"
    using chart_cmds_no_Fill[OF rest] g2[OF that] by simp
  have 5: "fst (drawElevationProfile samples w) = Inr ()"
    and 6: "drawn (snd (drawElevationProfile samples w)) = drawn w @ ?cmds"
    by (simp_all add: d)
  show ?thesis using 5 6 1 2 3 4 by blast
qed

subsection \<open>Refresh and its token\<close>

lemma begin_insufficient:
  assumes "length (state_waypoints w) < 2"
  shows "updateElevationProfile_begin w
     = (None, drawProfilePlaceholder MsgInsufficient
               (drawProfilePlaceholder MsgComputing
                  (w\<lparr>state_profileToken := Suc (state_profileToken w)\<rparr>)))"
  using assms by (simp add: updateElevationProfile_begin_def Let_def drawProfilePlaceholder_frame)

lemma begin_sampling:
  assumes "2 \<le> length (state_waypoints w)"
  shows "updateElevationProfile_begin w
     = (Some (Suc (state_profileToken w)),
        drawProfilePlaceholder MsgComputing (w\<lparr>state_profileToken := Suc (state_profileToken w)\<rparr>))"
  using assms by (simp add: updateElevationProfile_begin_def Let_def drawProfilePlaceholder_frame)

lemma begin_token:
  "state_profileToken (snd (updateElevationProfile_begin w)) = state_profileToken w + 1"
  by (cases "length (state_waypoints w) < 2")
     (simp_all add: begin_insufficient begin_sampling drawProfilePlaceholder_frame)

lemma begin_Some_token:
  assumes "updateElevationProfile_begin w = (Some token, w1)"
  shows "token = state_profileToken w1"
proof (cases "length (state_waypoints w) < 2")
  case True
  then show ?thesis using assms by (simp add: begin_insufficient)
next
  case False
  then have "2 \<le> length (state_waypoints w)" by simp
  from begin_sampling[OF this] assms show ?thesis
    by (auto simp add: drawProfilePlaceholder_frame)
qed

lemma begin_environment:
  "Math_sin (snd (updateElevationProfile_begin w)) = Math_sin w"
  "Math_cos (snd (updateElevationProfile_begin w)) = Math_cos w"
  "argument_limit (snd (updateElevationProfile_begin w)) = argument_limit w"
  by (cases "length (state_waypoints w) < 2";
      simp add: begin_insufficient begin_sampling drawProfilePlaceholder_frame)+

lemma catch_token:
  "state_profileToken (updateElevationProfile_catch token e w) = state_profileToken w"
  by (simp add: updateElevationProfile_catch_def Let_def drawProfilePlaceholder_frame)

lemma catch_current:
  assumes "token = state_profileToken w"
  shows "updateElevationProfile_catch token e w
     = drawProfilePlaceholder MsgFetchFailed (w\<lparr>console := console w @ [Error e]\<rparr>)"
  using assms by (simp add: updateElevationProfile_catch_def Let_def)

lemma resume_stale:
  assumes "token \<noteq> state_profileToken w"
  shows "updateElevationProfile_resume token result w
     = (case result of Inr samples \<Rightarrow> w | Inl e \<Rightarrow> w\<lparr>console := console w @ [Error e]\<rparr>)"
  using assms
  by (simp add: updateElevationProfile_resume_def updateElevationProfile_catch_def Let_def
        split: sum.splits)

lemma resume_token:
  "state_profileToken (updateElevationProfile_resume token result w) = state_profileToken w"
proof (cases result)
  case (Inl e)
  then show ?thesis by (simp add: updateElevationProfile_resume_def catch_token)
next
  case (Inr samples)
  obtain r w' where d: "drawElevationProfile samples w = (r, w')"
    by (cases "drawElevationProfile samples w")
  have "state_profileToken w' = state_profileToken w"
    using drawElevationProfile_frame(1)[of samples w] d by simp
  then show ?thesis
    using Inr d by (cases r) (simp_all add: updateElevationProfile_resume_def catch_token)
qed

lemma system_step_token:
  "state_profileToken (fst s) \<le> state_profileToken (fst (system_step e s))"
proof (cases s)
  case (Pair w pending)
  show ?thesis
  proof (cases e)
    case Refresh
    have "state_profileToken (fst (system_step Refresh (w, pending)))
            = state_profileToken (snd (updateElevationProfile_begin w))"
      by (simp split: prod.splits option.splits)
    then show ?thesis using Pair Refresh by (simp add: begin_token)
  qed (simp_all add: Pair resume_token)
qed

lemma system_step_Refresh_token:
  "state_profileToken (fst (system_step Refresh s)) = state_profileToken (fst s) + 1"
proof (cases s)
  case (Pair w pending)
  have "state_profileToken (fst (system_step Refresh (w, pending)))
          = state_profileToken (snd (updateElevationProfile_begin w))"
    by (simp split: prod.splits option.splits)
  then show ?thesis using Pair by (simp add: begin_token)
qed

lemma exec_token:
  "state_profileToken (fst s) \<le> state_profileToken (fst (exec events s))"
proof (induction events arbitrary: s)
  case Nil
  show ?case by simp
next
  case (Cons e es)
  show ?case
    using system_step_token[of s e] Cons.IH[of "system_step e s"] by simp
qed

lemma exec_Refresh_token:
  "Refresh \<in> set events \<Longrightarrow> state_profileToken (fst s) < state_profileToken (fst (exec events s))"
proof (induction events arbitrary: s)
  case Nil
  then show ?case by simp
next
  case (Cons e es)
  show ?case
  proof (cases "e = Refresh")
    case True
    then show ?thesis
      using system_step_Refresh_token[of s] exec_token[of "system_step e s" es] by simp
  next
    case False
    then have "Refresh \<in> set es" using Cons.prems by simp
    then show ?thesis
      using system_step_token[of s e] Cons.IH[of "system_step e s"] by simp
  qed
qed

subsection \<open>The refresh that nothing interrupts\<close>

lemma refresh_outcome:
  assumes "2 \<le> length (state_waypoints w)"
  shows "\<exists>samples w2.
      sampleElevationAlongRoute net (state_waypoints w) (snd (updateElevationProfile_begin w))
        = (Inr samples, w2)
    \<and> (never_succeeds net \<and> tileCache w = (\<lambda>key. None)
          \<longrightarrow> list_all (\<lambda>s. groundElevation s = None) samples)
    \<and> (max_arguments samples \<le> argument_limit w \<longrightarrow>
          (\<exists>pre x y cmds.
              drawn (updateElevationProfile net w)
                = drawn w @ pre @ [FillText (Placeholder MsgComputing) x y] @ cmds
            \<and> list_all chart_cmd pre
            \<and> list_all (\<lambda>c. \<not> is_placeholder c) cmds
            \<and> FillText AltitudeAxis 0 0 \<in> set cmds
            \<and> StrokeStyle ''#ff6b6b'' \<in> set cmds
            \<and> (list_all (\<lambda>s. groundElevation s = None) samples \<longrightarrow> Fill \<notin> set cmds))
          \<and> console (updateElevationProfile net w) = console w2)
    \<and> (argument_limit w < max_arguments samples \<longrightarrow>
          (\<exists>cmds x y.
              drawn (updateElevationProfile net w)
                = drawn w @ cmds @ [FillText (Placeholder MsgFetchFailed) x y]
            \<and> list_all placeholder_cmd cmds)
          \<and> console (updateElevationProfile net w) = console w2 @ [Error RangeError])"
proof -
  let ?w0 = "w\<lparr>state_profileToken := Suc (state_profileToken w)\<rparr>"
  let ?w1 = "drawProfilePlaceholder MsgComputing ?w0"
  have b: "updateElevationProfile_begin w = (Some (Suc (state_profileToken w)), ?w1)"
    using assms by (rule begin_sampling)
  have wp: "state_waypoints ?w1 = state_waypoints w"
    and tk: "state_profileToken ?w1 = Suc (state_profileToken w)"
    and tc: "tileCache ?w1 = tileCache w"
    and al: "argument_limit ?w1 = argument_limit w"
    by (simp_all add: drawProfilePlaceholder_frame)
  obtain samples w2 where s: "sampleElevationAlongRoute net (state_waypoints w) ?w1 = (Inr samples, w2)"
    by (simp add: sampleElevationAlongRoute_visits)
  have n: "list_all (\<lambda>s. groundElevation s = None) samples"
    if "never_succeeds net" "tileCache w = (\<lambda>key. None)"
    using sampleElevationAlongRoute_never_succeeds[OF that(1), of ?w1 "state_waypoints w"] that(2) s tc
    by simp
  have fr: "state_profileToken w2 = state_profileToken ?w1" "drawn w2 = drawn ?w1"
      "argument_limit w2 = argument_limit w"
    using sampleElevationAlongRoute_frame[of net "state_waypoints w" ?w1] s al by simp_all
  obtain r w3 where d: "drawElevationProfile samples w2 = (r, w3)"
    by (cases "drawElevationProfile samples w2")
  have u: "updateElevationProfile net w
      = (case r of Inr u \<Rightarrow> w3
                 | Inl e \<Rightarrow> updateElevationProfile_catch (Suc (state_profileToken w)) e w3)"
    using fr(1) tk
    by (simp add: updateElevationProfile_def b wp s updateElevationProfile_resume_def d)
  obtain pre x y where p: "drawn ?w1 = drawn ?w0 @ pre @ [FillText (Placeholder MsgComputing) x y]"
      "list_all chart_cmd pre" "list_all placeholder_cmd pre"
    using drawProfilePlaceholder_drawn[of MsgComputing ?w0] by blast
  have chart: "(\<exists>pre x y cmds.
              drawn (updateElevationProfile net w)
                = drawn w @ pre @ [FillText (Placeholder MsgComputing) x y] @ cmds
            \<and> list_all chart_cmd pre
            \<and> list_all (\<lambda>c. \<not> is_placeholder c) cmds
            \<and> FillText AltitudeAxis 0 0 \<in> set cmds
            \<and> StrokeStyle ''#ff6b6b'' \<in> set cmds
            \<and> (list_all (\<lambda>s. groundElevation s = None) samples \<longrightarrow> Fill \<notin> set cmds))
          \<and> console (updateElevationProfile net w) = console w2"
    if le: "max_arguments samples \<le> argument_limit w"
  proof -
    have le': "max_arguments samples \<le> argument_limit w2" using le fr(3) by simp
    from drawElevationProfile_drawn[OF le'] d obtain cmds where
      c: "r = Inr ()" "drawn w3 = drawn w2 @ cmds"
         "list_all (\<lambda>c. \<not> is_placeholder c) cmds" "FillText AltitudeAxis 0 0 \<in> set cmds"
         "StrokeStyle ''#ff6b6b'' \<in> set cmds"
         "list_all (\<lambda>s. groundElevation s = None) samples \<longrightarrow> Fill \<notin> set cmds"
      by auto
    have u': "updateElevationProfile net w = w3" using u c(1) by simp
    have "drawn (updateElevationProfile net w)
        = drawn w @ pre @ [FillText (Placeholder MsgComputing) x y] @ cmds"
      using p(1) by (simp add: u' c(2) fr(2))
    moreover have "console (updateElevationProfile net w) = console w2"
      using drawElevationProfile_frame(2)[of samples w2] d by (simp add: u')
    ultimately show ?thesis using p(2) c(3,4,5,6) by blast
  qed
  have failed: "(\<exists>cmds x y.
              drawn (updateElevationProfile net w)
                = drawn w @ cmds @ [FillText (Placeholder MsgFetchFailed) x y]
            \<and> list_all placeholder_cmd cmds)
          \<and> console (updateElevationProfile net w) = console w2 @ [Error RangeError]"
    if lt: "argument_limit w < max_arguments samples"
  proof -
    have lt': "argument_limit w2 < max_arguments samples" using lt fr(3) by simp
    from drawElevationProfile_throws[OF lt'] d obtain c1 where
      c: "r = Inl RangeError" "drawn w3 = drawn w2 @ c1" "list_all placeholder_cmd c1"
      by auto
    have t3: "state_profileToken w3 = Suc (state_profileToken w)"
      and k3: "console w3 = console w2"
      using drawElevationProfile_frame[of samples w2] d fr(1) tk by simp_all
    let ?w4 = "w3\<lparr>console := console w3 @ [Error RangeError]\<rparr>"
    have u': "updateElevationProfile net w = drawProfilePlaceholder MsgFetchFailed ?w4"
      using u c(1) t3 by (simp add: catch_current)
    obtain c2 x2 y2 where
      q: "drawn (drawProfilePlaceholder MsgFetchFailed ?w4)
            = drawn ?w4 @ c2 @ [FillText (Placeholder MsgFetchFailed) x2 y2]"
         "list_all placeholder_cmd c2"
      using drawProfilePlaceholder_drawn[of MsgFetchFailed ?w4] by blast
    have "drawn (updateElevationProfile net w)
        = drawn w @ (pre @ [FillText (Placeholder MsgComputing) x y] @ c1 @ c2)
            @ [FillText (Placeholder MsgFetchFailed) x2 y2]"
      using p(1) by (simp add: u' q(1) c(2) fr(2))
    moreover have "list_all placeholder_cmd (pre @ [FillText (Placeholder MsgComputing) x y] @ c1 @ c2)"
      using p(3) c(3) q(2) by simp
    moreover have "console (updateElevationProfile net w) = console w2 @ [Error RangeError]"
      by (simp add: u' drawProfilePlaceholder_frame k3)
    ultimately show ?thesis by blast
  qed
  show ?thesis
    using s n chart failed b by (simp only: snd_conv) blast
qed

subsection \<open>The concrete inputs\<close>

lemma never_succeeds_failing_network: "never_succeeds failing_network"
  by (simp add: never_succeeds_def failing_network_def)

lemma example_world_facts:
  "2 \<le> length (state_waypoints example_world)"
  "state_waypoints example_world = example_route"
  "tileCache example_world = (\<lambda>key. None)"
  "drawn example_world = []"
  "argument_limit example_world = 65536"
  "Math_sin example_world = example_sin"
  "Math_cos example_world = example_cos"
  by (simp_all add: example_world_def example_route_def initial_world_def)

lemma long_route_world_facts:
  "2 \<le> length (state_waypoints long_route_world)"
  "state_waypoints long_route_world = long_route"
  "tileCache long_route_world = (\<lambda>key. None)"
  "argument_limit long_route_world = 65536"
  "Math_sin long_route_world = example_sin"
  "Math_cos long_route_world = example_cos"
  by (simp_all add: long_route_world_def long_route_def initial_world_def)


text \<open>
  The sum \<^verbatim>\<open>a\<close> of the three routes on the example platform: a small number for the
  short route, 1 for the half of the equator, and the double after 1 for the two points
  that are nearly antipodal.
\<close>

lemmas example_platform =
  haversine_a_def toRad_def Let_def Math_PI_def fl_sub_def example_sin_def example_cos_def
  rad_8_def sin_rad_8_def cos_rad_8_def half_pi_def rad_example_def sin_rad_example_def

lemma haversine_a_example_route:
  "haversine_a example_sin example_cos (Finite 0) (Finite 0) (Finite 0) (Finite (1 / 1024))
     = Finite (5619199583063127 / 2 ^ 86)"
  by (simp add: example_platform roundings)


lemma haversine_a_long_route:
  "haversine_a example_sin example_cos (Finite 0) (Finite 0) (Finite 0) (Finite 180) = Finite 1"
  by (simp add: example_platform roundings)

lemma arctan_le_self:
  assumes "0 \<le> (x::real)"
  shows "arctan x \<le> x"
proof -
  have "0 - arctan 0 \<le> x - arctan x"
  proof (rule DERIV_nonneg_imp_nondecreasing[of 0 x "\<lambda>t. t - arctan t"])
    show "0 \<le> x" by (rule assms)
  next
    fix t :: real
    assume "0 \<le> t" "t \<le> x"
    have "DERIV (\<lambda>t. t - arctan t) t :> 1 - inverse (1 + t\<^sup>2)"
      by (auto intro!: derivative_eq_intros)
    moreover have "inverse (1 + t\<^sup>2) \<le> 1"
      by (simp add: inverse_le_1_iff)
    ultimately show "\<exists>y. DERIV (\<lambda>t. t - arctan t) t :> y \<and> 0 \<le> y"
      by (intro exI[of _ "1 - inverse (1 + t\<^sup>2)"]) simp
  qed
  then show ?thesis by simp
qed

lemma small_haversine:
  assumes "0 \<le> a" "a \<le> 1 / 10 ^ 10"
  shows "6371000 * (2 * atan2 (sqrt a) (sqrt (1 - a))) \<le> (160::real)"
proof -
  have p: "0 < 1 - a" using assms by simp
  have q: "a / (1 - a) \<le> (12 / 10 ^ 6)\<^sup>2"
    using assms p by (simp add: field_simps power2_eq_square)
  have "sqrt a / sqrt (1 - a) = sqrt (a / (1 - a))" by (simp add: real_sqrt_divide)
  also have "\<dots> \<le> sqrt ((12 / 10 ^ 6)\<^sup>2)" using q by (simp only: real_sqrt_le_iff)
  also have "\<dots> = 12 / 10 ^ 6" by (simp only: real_sqrt_abs) simp
  finally have z: "sqrt a / sqrt (1 - a) \<le> 12 / 10 ^ 6" .
  have "0 \<le> sqrt a / sqrt (1 - a)" using assms p by simp
  then have "arctan (sqrt a / sqrt (1 - a)) \<le> sqrt a / sqrt (1 - a)" by (rule arctan_le_self)
  then have "arctan (sqrt a / sqrt (1 - a)) \<le> 12 / 10 ^ 6" using z by linarith
  moreover have "atan2 (sqrt a) (sqrt (1 - a)) = arctan (sqrt a / sqrt (1 - a))"
    using p by (simp add: atan2_def)
  ultimately show ?thesis by simp
qed

text \<open>
  The distances of the three routes, in any world of the example platform: at most 160 m,
  NaN, and the radius times pi.
\<close>

lemma segment_distance_example:
  assumes "Math_sin w = example_sin" "Math_cos w = example_cos"
  shows "\<exists>d. segment_distance w (example_route ! 0) (example_route ! 1) = Some d \<and> d \<le> 160"
proof -
  have "segment_distance w (example_route ! 0) (example_route ! 1)
      = Some (6371000 * (2 * atan2 (sqrt (of_rat (5619199583063127 / 2 ^ 86)))
                                     (sqrt (1 - of_rat (5619199583063127 / 2 ^ 86)))))"
    by (simp add: segment_distance_def example_route_def assms haversineDistance_def
          haversine_a_example_route)
  moreover have "6371000 * (2 * atan2 (sqrt (of_rat (5619199583063127 / 2 ^ 86)))
                                     (sqrt (1 - of_rat (5619199583063127 / 2 ^ 86)))) \<le> (160::real)"
    by (rule small_haversine) (simp_all add: of_rat_divide of_rat_power)
  ultimately show ?thesis by blast
qed


lemma segment_distance_long:
  assumes "Math_sin w = example_sin" "Math_cos w = example_cos"
  shows "segment_distance w (long_route ! 0) (long_route ! 1) = Some (6371000 * pi)"
  by (simp add: segment_distance_def long_route_def assms haversineDistance_def
        haversine_a_long_route atan2_def)

text \<open>The samples of a route of one segment, and of the three routes.\<close>

lemma max_arguments_bounds:
  "length samples + 1 \<le> max_arguments samples"
  "max_arguments samples \<le> 2 * length samples + 1"
  using length_filter_le[of "\<lambda>s. groundElevation s \<noteq> None" samples]
  by (simp_all add: max_arguments_def)

lemma single_segment_count:
  assumes "segment_distance w a b = Some d"
    and "sampleElevationAlongRoute net [a, b] w = (Inr samples, w')"
  shows "int (length samples) = 1 + max 1 \<lceil>d / 80\<rceil>"
proof -
  have n: "numeric_route (segment_distance w) [a, b]" using assms(1) by simp
  from sampleElevationAlongRoute_result[OF n, of net] assms(2)
  have "map geometry samples = spec_route_samples (segment_distance w) 0 0 [a, b]" by simp
  then have "length samples = length (spec_route_samples (segment_distance w) 0 0 [a, b])"
    by (metis length_map)
  then show ?thesis
    using spec_route_samples_length[of "segment_distance w" 0 0 "[a, b]"] assms(1)
    by (simp add: spec_steps_def spec_segment_distance_def)
qed

lemma route_of_two:
  "example_route = [example_route ! 0, example_route ! 1]"
  "antipodal_route = [antipodal_route ! 0, antipodal_route ! 1]"
  "long_route = [long_route ! 0, long_route ! 1]"
  by (simp_all add: example_route_def antipodal_route_def long_route_def)


lemma example_route_count:
  assumes "Math_sin w = example_sin" "Math_cos w = example_cos"
    and "sampleElevationAlongRoute net example_route w = (Inr samples, w')"
  shows "length samples \<le> 3"
proof -
  obtain d where d: "segment_distance w (example_route ! 0) (example_route ! 1) = Some d" "d \<le> 160"
    using segment_distance_example[OF assms(1,2)] by blast
  have s: "sampleElevationAlongRoute net [example_route ! 0, example_route ! 1] w = (Inr samples, w')"
    using assms(3) route_of_two(1) by simp
  have c: "\<lceil>d / 80\<rceil> \<le> 2" using d(2) by (simp add: ceiling_le_iff)
  show ?thesis using single_segment_count[OF d(1) s] c by linarith
qed

lemma long_route_count:
  assumes "Math_sin w = example_sin" "Math_cos w = example_cos"
    and "sampleElevationAlongRoute net long_route w = (Inr samples, w')"
  shows "159276 \<le> length samples"
proof -
  have d: "segment_distance w (long_route ! 0) (long_route ! 1) = Some (6371000 * pi)"
    using assms(1,2) by (rule segment_distance_long)
  have s: "sampleElevationAlongRoute net [long_route ! 0, long_route ! 1] w = (Inr samples, w')"
    using assms(3) route_of_two(3) by simp
  have "(159275::real) \<le> 6371000 * pi / 80" using pi_ge_two by simp
  then have c: "159275 \<le> \<lceil>6371000 * pi / 80\<rceil>" by (simp add: le_ceiling_iff)
  show ?thesis using single_segment_count[OF d s] c by linarith
qed


lemma example_world_arguments:
  assumes "sampleElevationAlongRoute net (state_waypoints example_world)
             (snd (updateElevationProfile_begin example_world)) = (Inr samples, w2)"
  shows "max_arguments samples \<le> argument_limit example_world"
    and "samples \<noteq> []"
proof -
  let ?w1 = "snd (updateElevationProfile_begin example_world)"
  have p: "Math_sin ?w1 = example_sin" "Math_cos ?w1 = example_cos"
    by (simp_all add: begin_environment example_world_facts)
  have s: "sampleElevationAlongRoute net example_route ?w1 = (Inr samples, w2)"
    using assms by (simp add: example_world_facts)
  have "length samples \<le> 3" using p s by (rule example_route_count)
  then show "max_arguments samples \<le> argument_limit example_world"
    using max_arguments_bounds(2)[of samples] by (simp add: example_world_facts)
  obtain d where d: "segment_distance ?w1 (example_route ! 0) (example_route ! 1) = Some d"
    using segment_distance_example[OF p] by blast
  have "sampleElevationAlongRoute net [example_route ! 0, example_route ! 1] ?w1 = (Inr samples, w2)"
    using s route_of_two(1) by simp
  from single_segment_count[OF d this] show "samples \<noteq> []" by auto
qed

lemma long_route_world_arguments:
  assumes "sampleElevationAlongRoute net (state_waypoints long_route_world)
             (snd (updateElevationProfile_begin long_route_world)) = (Inr samples, w2)"
  shows "argument_limit long_route_world < max_arguments samples"
proof -
  let ?w1 = "snd (updateElevationProfile_begin long_route_world)"
  have p: "Math_sin ?w1 = example_sin" "Math_cos ?w1 = example_cos"
    by (simp_all add: begin_environment long_route_world_facts)
  have s: "sampleElevationAlongRoute net long_route ?w1 = (Inr samples, w2)"
    using assms by (simp add: long_route_world_facts)
  have "159276 \<le> length samples" using p s by (rule long_route_count)
  then show ?thesis
    using max_arguments_bounds(1)[of samples] by (simp add: long_route_world_facts)
qed

section \<open>The claims\<close>

text \<open>
  Claim C5. For all numeric channel values \<open>r\<close>, \<open>g\<close>, \<open>b\<close> the decoder returns null
  exactly when \<open>r * 65536 + g * 256 + b\<close> is 0 or 16777215, and the elevation
  \<open>value / 10 - 10000\<close> otherwise. The two sentinel triples decode to null, and
  \<open>decode(0, 0, 10000)\<close> is the number \<open>(0 * 65536 + 0 * 256 + 10000) / 10 - 10000\<close>.
\<close>

theorem decodeElevation_spec:
  "decodeElevation (Some r) (Some g) (Some b) =
     (if r * 65536 + g * 256 + b = 0 \<or> r * 65536 + g * 256 + b = 16777215 then Null
      else Elevation ((r * 65536 + g * 256 + b) / 10 - 10000))
   \<and> decodeElevation (Some 0) (Some 0) (Some 0) = Null
   \<and> decodeElevation (Some 255) (Some 255) (Some 255) = Null
   \<and> decodeElevation (Some 0) (Some 0) (Some 10000)
       = Elevation ((0 * 65536 + 0 * 256 + 10000) / 10 - 10000)"
  by (simp add: decodeElevation_def Let_def)

text \<open>
  Claim C9, as the code has it. In exact arithmetic the continuous tile coordinates at
  the fixed zoom are strictly monotone: a larger longitude gives a strictly larger \<open>x\<close>,
  and between the poles (so in the whole band where the Mercator projection is used, on
  both hemispheres) a larger latitude gives a strictly smaller \<open>y\<close>. In the double
  arithmetic of the code a larger longitude never gives a smaller \<open>x\<close>.
\<close>

theorem projection_monotone:
  "(lon1 < lon2 \<longrightarrow> tile_x lon1 < tile_x lon2)
   \<and> (- 90 < lat1 \<and> lat1 < lat2 \<and> lat2 < 90 \<longrightarrow>
        (\<exists>y1 y2. tile_y lat1 = Some y1 \<and> tile_y lat2 = Some y2 \<and> y2 < y1))
   \<and> (l1 \<le> l2 \<longrightarrow> fl_le (tile_x_double (Finite l1)) (tile_x_double (Finite l2)))"
  using tile_x_mono[of lon1 lon2] tile_y_antimono[of lat1 lat2] tile_x_double_mono[of l1 l2]
  by blast

theorem projection_monotone_witness:
  "tile_x 139 < tile_x 139.001
   \<and> (\<exists>y1 y2. tile_y 35 = Some y1 \<and> tile_y 35.001 = Some y2 \<and> y2 < y1)
   \<and> fl_le (tile_x_double (Finite 100)) (tile_x_double (Finite 101))"
  using projection_monotone[of 139 "139.001" 35 "35.001" 100 101] by simp

text \<open>
  Claim C9 as stated fails in the arithmetic of the code. The longitudes 100 and
  \<open>100 + 1 / 2 ^ 46\<close> are two doubles; the sum of either with 180 rounds to 280, and both
  have the same \<open>x\<close>, 12743.111111111111. The latitudes \<open>45 + 1 / 2 ^ 47\<close> and
  \<open>45 + 1 / 2 ^ 46\<close>, in the northern hemisphere, are two doubles next to each other;
  their products with \<^verbatim>\<open>Math.PI\<close> round to the same double, and both have the same
  \<open>y\<close>, whatever \<^verbatim>\<open>Math.tan\<close>, \<^verbatim>\<open>Math.cos\<close> and \<^verbatim>\<open>Math.log\<close> return.
\<close>

theorem projection_strict_counterexample:
  "is_double 100 \<and> is_double (100 + 1 / 2 ^ 46) \<and> (100::rat) < 100 + 1 / 2 ^ 46
   \<and> tile_x_double (Finite 100) = Finite (7005599420354105 / 2 ^ 39)
   \<and> tile_x_double (Finite (100 + 1 / 2 ^ 46)) = Finite (7005599420354105 / 2 ^ 39)
   \<and> is_double (45 + 1 / 2 ^ 47) \<and> is_double (45 + 1 / 2 ^ 46)
   \<and> (45 + 1 / 2 ^ 47 :: rat) < 45 + 1 / 2 ^ 46
   \<and> (\<forall>mtan mcos mlog.
         tile_y_double mtan mcos mlog (Finite (45 + 1 / 2 ^ 47))
           = tile_y_double mtan mcos mlog (Finite (45 + 1 / 2 ^ 46)))"
proof -
  have d: "is_double 100" "is_double (100 + 1 / 2 ^ 46)"
      "is_double (45 + 1 / 2 ^ 47)" "is_double (45 + 1 / 2 ^ 46)"
    by (simp_all add: is_double_def roundings)
  have x1: "tile_x_double (Finite 100) = Finite (7005599420354105 / 2 ^ 39)"
    by (simp add: tile_x_double_def TILE_ZOOM_def roundings)
  have x2: "tile_x_double (Finite (100 + 1 / 2 ^ 46)) = Finite (7005599420354105 / 2 ^ 39)"
    by (simp add: tile_x_double_def TILE_ZOOM_def roundings)
  have r: "fl_mul (Finite (45 + 1 / 2 ^ 47)) Math_PI = fl_mul (Finite (45 + 1 / 2 ^ 46)) Math_PI"
    by (simp add: Math_PI_def roundings)
  have y: "tile_y_double mtan mcos mlog (Finite (45 + 1 / 2 ^ 47))
           = tile_y_double mtan mcos mlog (Finite (45 + 1 / 2 ^ 46))" for mtan mcos mlog
    by (simp only: tile_y_double_def r)
  have l: "(100::rat) < 100 + 1 / 2 ^ 46" "(45 + 1 / 2 ^ 47 :: rat) < 45 + 1 / 2 ^ 46"
    by simp_all
  show ?thesis
    using d x1 x2 y l by blast
qed







text \<open>
  Claim C2. A refresh captured its token and was suspended; before it is resumed another
  refresh starts (among any other events). Then the live counter is larger than the
  captured token, and resuming the refresh, with samples or with an error, draws nothing:
  the state is left as it is, except that on the error path the error has been written
  with \<^verbatim>\<open>console.error\<close>, which the code does before it compares the tokens.
\<close>

theorem superseded_refresh_renders_nothing:
  assumes "updateElevationProfile_begin w = (Some token, w1)"
    and "Refresh \<in> set events"
    and "exec events (w1, pending) = (w2, pending')"
  shows "token < state_profileToken w2
    \<and> drawn (updateElevationProfile_resume token result w2) = drawn w2
    \<and> updateElevationProfile_resume token result w2
        = (case result of Inr samples \<Rightarrow> w2 | Inl e \<Rightarrow> w2\<lparr>console := console w2 @ [Error e]\<rparr>)"
proof -
  have "token = state_profileToken w1" using assms(1) by (rule begin_Some_token)
  moreover have "state_profileToken w1 < state_profileToken w2"
    using exec_Refresh_token[OF assms(2), of "(w1, pending)"] assms(3) by simp
  ultimately have lt: "token < state_profileToken w2" by simp
  then have "token \<noteq> state_profileToken w2" by simp
  from resume_stale[OF this, of result] lt show ?thesis
    by (simp split: sum.splits)
qed

theorem superseded_refresh_renders_nothing_witness:
  "updateElevationProfile_begin example_world
      = (Some 1, snd (updateElevationProfile_begin example_world))
   \<and> Refresh \<in> set [Edit [], Refresh]
   \<and> drawn (updateElevationProfile_resume 1 (Inl NetworkError)
         (fst (exec [Edit [], Refresh] (snd (updateElevationProfile_begin example_world), []))))
      = drawn (fst (exec [Edit [], Refresh] (snd (updateElevationProfile_begin example_world), [])))"
proof -
  have b: "updateElevationProfile_begin example_world
      = (Some 1, snd (updateElevationProfile_begin example_world))"
    by (simp add: begin_sampling example_world_def example_route_def initial_world_def)
  have r: "Refresh \<in> set [Edit [], Refresh]" by simp
  have e: "exec [Edit [], Refresh] (snd (updateElevationProfile_begin example_world), [])
      = (fst (exec [Edit [], Refresh] (snd (updateElevationProfile_begin example_world), [])),
         snd (exec [Edit [], Refresh] (snd (updateElevationProfile_begin example_world), [])))"
    by simp
  show ?thesis
    using b r superseded_refresh_renders_nothing[OF b r e, of "Inl NetworkError"] by blast
qed

text \<open>
  Claim C7. With fewer than two waypoints the refresh returns before sampling: the sampler
  is not started, no request is made, the cache and the console are untouched, and the
  last thing drawn is the placeholder that asks for two waypoints.
\<close>

theorem insufficient_route_no_fetch:
  assumes "length (state_waypoints w) < 2"
  shows "fst (updateElevationProfile_begin w) = None
    \<and> updateElevationProfile net w = snd (updateElevationProfile_begin w)
    \<and> requests (updateElevationProfile net w) = requests w
    \<and> tileCache (updateElevationProfile net w) = tileCache w
    \<and> console (updateElevationProfile net w) = console w
    \<and> (\<exists>cmds x y. drawn (updateElevationProfile net w)
           = drawn w @ cmds @ [FillText (Placeholder MsgInsufficient) x y])"
proof -
  let ?w1 = "drawProfilePlaceholder MsgComputing (w\<lparr>state_profileToken := Suc (state_profileToken w)\<rparr>)"
  have b: "updateElevationProfile_begin w = (None, drawProfilePlaceholder MsgInsufficient ?w1)"
    using assms by (rule begin_insufficient)
  then have u: "updateElevationProfile net w = drawProfilePlaceholder MsgInsufficient ?w1"
    by (simp add: updateElevationProfile_def)
  obtain c1 x1 y1 where d1: "drawn ?w1 = drawn w @ c1 @ [FillText (Placeholder MsgComputing) x1 y1]"
    using drawProfilePlaceholder_drawn[of MsgComputing "w\<lparr>state_profileToken := Suc (state_profileToken w)\<rparr>"]
    by auto
  obtain c2 x2 y2 where d2: "drawn (drawProfilePlaceholder MsgInsufficient ?w1)
       = drawn ?w1 @ c2 @ [FillText (Placeholder MsgInsufficient) x2 y2]"
    using drawProfilePlaceholder_drawn[of MsgInsufficient ?w1] by auto
  have "drawn (updateElevationProfile net w)
       = drawn w @ (c1 @ [FillText (Placeholder MsgComputing) x1 y1] @ c2)
           @ [FillText (Placeholder MsgInsufficient) x2 y2]"
    by (simp only: u d2 d1 append.assoc append_Cons append_Nil)
  then have "\<exists>cmds x y. drawn (updateElevationProfile net w)
           = drawn w @ cmds @ [FillText (Placeholder MsgInsufficient) x y]"
    by blast
  moreover have "requests (updateElevationProfile net w) = requests w"
    "tileCache (updateElevationProfile net w) = tileCache w"
    "console (updateElevationProfile net w) = console w"
    by (simp_all add: u drawProfilePlaceholder_frame)
  moreover have "fst (updateElevationProfile_begin w) = None"
    "updateElevationProfile net w = snd (updateElevationProfile_begin w)"
    by (simp_all add: b u)
  ultimately show ?thesis by blast
qed

theorem insufficient_route_no_fetch_witness:
  "length (state_waypoints one_waypoint_world) < 2
   \<and> fst (updateElevationProfile_begin one_waypoint_world) = None
   \<and> requests (updateElevationProfile failing_network one_waypoint_world) = []
   \<and> (\<exists>cmds x y. drawn (updateElevationProfile failing_network one_waypoint_world)
           = drawn one_waypoint_world @ cmds @ [FillText (Placeholder MsgInsufficient) x y])"
proof -
  have h: "length (state_waypoints one_waypoint_world) < 2"
    by (simp add: one_waypoint_world_def)
  note t = insufficient_route_no_fetch[OF h, of failing_network]
  have "requests one_waypoint_world = []"
    by (simp add: one_waypoint_world_def initial_world_def)
  moreover from t have "requests (updateElevationProfile failing_network one_waypoint_world)
      = requests one_waypoint_world"
    by blast
  ultimately have "requests (updateElevationProfile failing_network one_waypoint_world) = []"
    by (simp only:)
  then show ?thesis
    using h t by blast
qed

text \<open>
  Claim C10. When \<^verbatim>\<open>fetchElevationTile\<close> fails, the cache is as it was, one request
  was made, and the next call for the same key makes the request again. When it succeeds,
  the buffer it returns is in the cache under the key. The cache changes at no other key
  and in no other way. On a miss, a response whose status is not a success, and a
  successful response whose body does not decode, are failures.
\<close>

theorem failed_fetch_not_cached:
  "(fst (fetchElevationTile net z x y w) = Inl e \<longrightarrow>
       tileCache (snd (fetchElevationTile net z x y w)) = tileCache w
     \<and> requests (snd (fetchElevationTile net z x y w)) = requests w @ [(z, x, y)]
     \<and> requests (snd (fetchElevationTile net z x y (snd (fetchElevationTile net z x y w))))
         = requests w @ [(z, x, y), (z, x, y)])
   \<and> (fst (fetchElevationTile net z x y w) = Inr data \<longrightarrow>
       tileCache (snd (fetchElevationTile net z x y w)) (z, x, y) = Some data)
   \<and> (tileCache (snd (fetchElevationTile net z x y w)) key \<noteq> tileCache w key \<longrightarrow>
       key = (z, x, y)
     \<and> (\<exists>stored. fst (fetchElevationTile net z x y w) = Inr stored
           \<and> tileCache (snd (fetchElevationTile net z x y w)) key = Some stored))
   \<and> (tileCache w (z, x, y) = None \<and> net (length (requests w)) (z, x, y) = Response status body
        \<and> \<not> response_ok status \<longrightarrow>
       fst (fetchElevationTile net z x y w) = Inl (HttpError status))
   \<and> (tileCache w (z, x, y) = None \<and> net (length (requests w)) (z, x, y) = Response status Undecodable
        \<and> response_ok status \<longrightarrow>
       fst (fetchElevationTile net z x y w) = Inl ImageDecodeError)"
proof -
  let ?w' = "snd (fetchElevationTile net z x y w)"
  have 1: "tileCache ?w' = tileCache w
     \<and> requests ?w' = requests w @ [(z, x, y)]
     \<and> requests (snd (fetchElevationTile net z x y ?w')) = requests w @ [(z, x, y), (z, x, y)]"
    if f: "fst (fetchElevationTile net z x y w) = Inl e"
  proof -
    from fetchElevationTile_cases[of w z x y net] f
    have n: "tileCache w (z, x, y) = None"
      and w': "?w' = w\<lparr>requests := requests w @ [(z, x, y)]\<rparr>"
      by auto
    have "tileCache ?w' (z, x, y) = None" using n w' by simp
    with fetchElevationTile_cases[of ?w' z x y net]
    have "requests (snd (fetchElevationTile net z x y ?w')) = requests ?w' @ [(z, x, y)]"
      by auto
    then show ?thesis using w' by simp
  qed
  have 2: "tileCache ?w' (z, x, y) = Some data"
    if "fst (fetchElevationTile net z x y w) = Inr data"
    using fetchElevationTile_cases[of w z x y net] that by auto
  have 3: "key = (z, x, y)
     \<and> (\<exists>stored. fst (fetchElevationTile net z x y w) = Inr stored \<and> tileCache ?w' key = Some stored)"
    if "tileCache ?w' key \<noteq> tileCache w key"
    using fetchElevationTile_cases[of w z x y net] that by (auto split: if_splits)
  have 4: "fst (fetchElevationTile net z x y w) = Inl (HttpError status)"
    if "tileCache w (z, x, y) = None" "net (length (requests w)) (z, x, y) = Response status body"
      "\<not> response_ok status"
    using that by (simp add: fetchElevationTile_def Let_def)
  have 5: "fst (fetchElevationTile net z x y w) = Inl ImageDecodeError"
    if "tileCache w (z, x, y) = None" "net (length (requests w)) (z, x, y) = Response status Undecodable"
      "response_ok status"
    using that by (simp add: fetchElevationTile_def Let_def)
  from 1 have p1: "fst (fetchElevationTile net z x y w) = Inl e \<longrightarrow>
       tileCache ?w' = tileCache w
     \<and> requests ?w' = requests w @ [(z, x, y)]
     \<and> requests (snd (fetchElevationTile net z x y ?w')) = requests w @ [(z, x, y), (z, x, y)]"
    by (rule impI)
  from 2 have p2: "fst (fetchElevationTile net z x y w) = Inr data \<longrightarrow>
       tileCache ?w' (z, x, y) = Some data"
    by (rule impI)
  from 3 have p3: "tileCache ?w' key \<noteq> tileCache w key \<longrightarrow>
       key = (z, x, y)
     \<and> (\<exists>stored. fst (fetchElevationTile net z x y w) = Inr stored \<and> tileCache ?w' key = Some stored)"
    by (rule impI)
  from 4 have p4: "tileCache w (z, x, y) = None \<and> net (length (requests w)) (z, x, y) = Response status body
        \<and> \<not> response_ok status \<longrightarrow>
       fst (fetchElevationTile net z x y w) = Inl (HttpError status)"
    by simp
  from 5 have p5: "tileCache w (z, x, y) = None \<and> net (length (requests w)) (z, x, y) = Response status Undecodable
        \<and> response_ok status \<longrightarrow>
       fst (fetchElevationTile net z x y w) = Inl ImageDecodeError"
    by simp
  show ?thesis
    by (intro conjI) (rule p1, rule p2, rule p3, rule p4, rule p5)
qed

theorem failed_fetch_not_cached_witness:
  "fst (fetchElevationTile failing_network 14 8192 (Some 8192) initial_world) = Inl NetworkError
   \<and> tileCache (snd (fetchElevationTile failing_network 14 8192 (Some 8192) initial_world))
       = tileCache initial_world
   \<and> requests (snd (fetchElevationTile failing_network 14 8192 (Some 8192)
        (snd (fetchElevationTile failing_network 14 8192 (Some 8192) initial_world))))
       = requests initial_world @ [(14, 8192, Some 8192), (14, 8192, Some 8192)]
   \<and> fst (fetchElevationTile blank_tile_network 14 8192 (Some 8192) initial_world)
       = Inr blank_tile
   \<and> tileCache (snd (fetchElevationTile blank_tile_network 14 8192 (Some 8192) initial_world))
        (14, 8192, Some 8192) = Some blank_tile
   \<and> tileCache initial_world (14, 8192, Some 8192) = None
   \<and> not_found_network (length (requests initial_world)) (14, 8192, Some 8192)
       = Response 404 Undecodable
   \<and> \<not> response_ok 404
   \<and> fst (fetchElevationTile not_found_network 14 8192 (Some 8192) initial_world)
       = Inl (HttpError 404)"
proof -
  have n: "tileCache initial_world (14, 8192, Some 8192) = None"
      "not_found_network (length (requests initial_world)) (14, 8192, Some 8192)
         = Response 404 Undecodable"
      "\<not> response_ok 404"
    by (simp_all add: initial_world_def not_found_network_def response_ok_def)
  have f: "fst (fetchElevationTile failing_network 14 8192 (Some 8192) initial_world) = Inl NetworkError"
    by (simp add: fetchElevationTile_def failing_network_def initial_world_def Let_def)
  have g: "fst (fetchElevationTile blank_tile_network 14 8192 (Some 8192) initial_world)
       = Inr blank_tile"
    by (simp add: fetchElevationTile_def blank_tile_network_def initial_world_def response_ok_def Let_def)
  have a: "tileCache (snd (fetchElevationTile failing_network 14 8192 (Some 8192) initial_world))
       = tileCache initial_world
   \<and> requests (snd (fetchElevationTile failing_network 14 8192 (Some 8192)
        (snd (fetchElevationTile failing_network 14 8192 (Some 8192) initial_world))))
       = requests initial_world @ [(14, 8192, Some 8192), (14, 8192, Some 8192)]"
    using f failed_fetch_not_cached[of failing_network 14 8192 "Some 8192" initial_world NetworkError]
    by blast
  have b: "tileCache (snd (fetchElevationTile blank_tile_network 14 8192 (Some 8192) initial_world))
        (14, 8192, Some 8192) = Some blank_tile"
    using g failed_fetch_not_cached[of blank_tile_network 14 8192 "Some 8192" initial_world _
        blank_tile]
    by blast
  have c: "fst (fetchElevationTile not_found_network 14 8192 (Some 8192) initial_world)
       = Inl (HttpError 404)"
    using n failed_fetch_not_cached[of not_found_network 14 8192 "Some 8192" initial_world _ _ _
        404 Undecodable]
    by blast
  show ?thesis
    using f a g b n c by (intro conjI) simp_all
qed

text \<open>
  Claim C1, as the code has it. A refresh of a route of two or more waypoints that nothing
  interrupts does not crash: the sampler returns samples whatever the network does, and
  when every request fails and nothing is cached, every sample's ground elevation is null.
  What the refresh then draws depends on the number of samples only. When the call of
  \<^verbatim>\<open>Math.max\<close> in \<^verbatim>\<open>drawElevationProfile\<close> has no more arguments than the engine
  accepts, the refresh draws the profile chart after the placeholder that says it is
  computing, and never the placeholder for a failed fetch: the chart has its axis labels
  and the line of the planned altitude (the stroke of colour \<^verbatim>\<open>#ff6b6b\<close>), and when
  every ground elevation is null no ground polygon is filled. When the call has more
  arguments than the engine accepts, \<^verbatim>\<open>drawElevationProfile\<close> throws a
  \<^verbatim>\<open>RangeError\<close> inside the \<^verbatim>\<open>try\<close>: the error is written with
  \<^verbatim>\<open>console.error\<close>, nothing of the chart is drawn, and the last thing drawn is the
  placeholder for a failed fetch. A failed tile never gets to the \<^verbatim>\<open>catch\<close>.
\<close>

theorem all_null_samples_draw_chart:
  assumes "2 \<le> length (state_waypoints w)"
  shows "\<exists>samples w2.
      sampleElevationAlongRoute net (state_waypoints w) (snd (updateElevationProfile_begin w))
        = (Inr samples, w2)
    \<and> (never_succeeds net \<and> tileCache w = (\<lambda>key. None)
          \<longrightarrow> list_all (\<lambda>s. groundElevation s = None) samples)
    \<and> (max_arguments samples \<le> argument_limit w \<longrightarrow>
          (\<exists>pre x y cmds.
              drawn (updateElevationProfile net w)
                = drawn w @ pre @ [FillText (Placeholder MsgComputing) x y] @ cmds
            \<and> list_all chart_cmd pre
            \<and> list_all (\<lambda>c. \<not> is_placeholder c) cmds
            \<and> FillText AltitudeAxis 0 0 \<in> set cmds
            \<and> StrokeStyle ''#ff6b6b'' \<in> set cmds
            \<and> (list_all (\<lambda>s. groundElevation s = None) samples \<longrightarrow> Fill \<notin> set cmds))
          \<and> console (updateElevationProfile net w) = console w2)
    \<and> (argument_limit w < max_arguments samples \<longrightarrow>
          (\<exists>cmds x y.
              drawn (updateElevationProfile net w)
                = drawn w @ cmds @ [FillText (Placeholder MsgFetchFailed) x y]
            \<and> list_all placeholder_cmd cmds)
          \<and> console (updateElevationProfile net w) = console w2 @ [Error RangeError])"
  using assms by (rule refresh_outcome)

theorem all_null_samples_draw_chart_witness:
  "2 \<le> length (state_waypoints example_world)
   \<and> never_succeeds failing_network
   \<and> tileCache example_world = (\<lambda>key. None)
   \<and> (\<exists>samples w2 pre x y cmds.
        sampleElevationAlongRoute failing_network (state_waypoints example_world)
          (snd (updateElevationProfile_begin example_world)) = (Inr samples, w2)
      \<and> samples \<noteq> []
      \<and> list_all (\<lambda>s. groundElevation s = None) samples
      \<and> max_arguments samples \<le> argument_limit example_world
      \<and> drawn (updateElevationProfile failing_network example_world)
          = drawn example_world @ pre @ [FillText (Placeholder MsgComputing) x y] @ cmds
      \<and> list_all (\<lambda>c. \<not> is_placeholder c) cmds
      \<and> FillText AltitudeAxis 0 0 \<in> set cmds
      \<and> StrokeStyle ''#ff6b6b'' \<in> set cmds
      \<and> Fill \<notin> set cmds)
   \<and> 2 \<le> length (state_waypoints long_route_world)
   \<and> tileCache long_route_world = (\<lambda>key. None)
   \<and> (\<exists>samples w2 cmds x y.
        sampleElevationAlongRoute failing_network (state_waypoints long_route_world)
          (snd (updateElevationProfile_begin long_route_world)) = (Inr samples, w2)
      \<and> list_all (\<lambda>s. groundElevation s = None) samples
      \<and> argument_limit long_route_world < max_arguments samples
      \<and> drawn (updateElevationProfile failing_network long_route_world)
          = drawn long_route_world @ cmds @ [FillText (Placeholder MsgFetchFailed) x y]
      \<and> list_all placeholder_cmd cmds
      \<and> console (updateElevationProfile failing_network long_route_world)
          = console w2 @ [Error RangeError])"
proof -
  note f = never_succeeds_failing_network
  obtain s1 w1 where
    a: "sampleElevationAlongRoute failing_network (state_waypoints example_world)
          (snd (updateElevationProfile_begin example_world)) = (Inr s1, w1)"
    and b: "never_succeeds failing_network \<and> tileCache example_world = (\<lambda>key. None)
          \<longrightarrow> list_all (\<lambda>s. groundElevation s = None) s1"
    and c: "max_arguments s1 \<le> argument_limit example_world \<longrightarrow>
          (\<exists>pre x y cmds.
              drawn (updateElevationProfile failing_network example_world)
                = drawn example_world @ pre @ [FillText (Placeholder MsgComputing) x y] @ cmds
            \<and> list_all chart_cmd pre
            \<and> list_all (\<lambda>c. \<not> is_placeholder c) cmds
            \<and> FillText AltitudeAxis 0 0 \<in> set cmds
            \<and> StrokeStyle ''#ff6b6b'' \<in> set cmds
            \<and> (list_all (\<lambda>s. groundElevation s = None) s1 \<longrightarrow> Fill \<notin> set cmds))
          \<and> console (updateElevationProfile failing_network example_world) = console w1"
    using all_null_samples_draw_chart[OF example_world_facts(1), of failing_network] by blast
  have n1: "list_all (\<lambda>s. groundElevation s = None) s1"
    using b f example_world_facts(3) by blast
  have m1: "max_arguments s1 \<le> argument_limit example_world" and e1: "s1 \<noteq> []"
    using example_world_arguments[OF a] by simp_all
  have 1: "\<exists>samples w2 pre x y cmds.
        sampleElevationAlongRoute failing_network (state_waypoints example_world)
          (snd (updateElevationProfile_begin example_world)) = (Inr samples, w2)
      \<and> samples \<noteq> []
      \<and> list_all (\<lambda>s. groundElevation s = None) samples
      \<and> max_arguments samples \<le> argument_limit example_world
      \<and> drawn (updateElevationProfile failing_network example_world)
          = drawn example_world @ pre @ [FillText (Placeholder MsgComputing) x y] @ cmds
      \<and> list_all (\<lambda>c. \<not> is_placeholder c) cmds
      \<and> FillText AltitudeAxis 0 0 \<in> set cmds
      \<and> StrokeStyle ''#ff6b6b'' \<in> set cmds
      \<and> Fill \<notin> set cmds"
    using a e1 n1 m1 c by blast
  obtain s2 w2 where
    a': "sampleElevationAlongRoute failing_network (state_waypoints long_route_world)
          (snd (updateElevationProfile_begin long_route_world)) = (Inr s2, w2)"
    and b': "never_succeeds failing_network \<and> tileCache long_route_world = (\<lambda>key. None)
          \<longrightarrow> list_all (\<lambda>s. groundElevation s = None) s2"
    and c': "argument_limit long_route_world < max_arguments s2 \<longrightarrow>
          (\<exists>cmds x y.
              drawn (updateElevationProfile failing_network long_route_world)
                = drawn long_route_world @ cmds @ [FillText (Placeholder MsgFetchFailed) x y]
            \<and> list_all placeholder_cmd cmds)
          \<and> console (updateElevationProfile failing_network long_route_world)
              = console w2 @ [Error RangeError]"
    using all_null_samples_draw_chart[OF long_route_world_facts(1), of failing_network] by blast
  have n2: "list_all (\<lambda>s. groundElevation s = None) s2"
    using b' f long_route_world_facts(3) by blast
  have m2: "argument_limit long_route_world < max_arguments s2"
    using a' by (rule long_route_world_arguments)
  have 2: "\<exists>samples w2 cmds x y.
        sampleElevationAlongRoute failing_network (state_waypoints long_route_world)
          (snd (updateElevationProfile_begin long_route_world)) = (Inr samples, w2)
      \<and> list_all (\<lambda>s. groundElevation s = None) samples
      \<and> argument_limit long_route_world < max_arguments samples
      \<and> drawn (updateElevationProfile failing_network long_route_world)
          = drawn long_route_world @ cmds @ [FillText (Placeholder MsgFetchFailed) x y]
      \<and> list_all placeholder_cmd cmds
      \<and> console (updateElevationProfile failing_network long_route_world)
          = console w2 @ [Error RangeError]"
    using a' n2 m2 c' by blast
  show ?thesis
    using example_world_facts(1,3) long_route_world_facts(1,3) f 1 2 by (intro conjI) simp_all
qed

text \<open>
  Claim C1 as stated fails: on the short route with every request rejected, the sampler
  returns samples, every sample's ground elevation is null, yet the placeholder for a
  failed fetch is nowhere in what the refresh drew, and the chart's axis label is.
\<close>

theorem fetch_failed_placeholder_counterexample:
  "(\<exists>samples w2.
        sampleElevationAlongRoute failing_network (state_waypoints example_world)
          (snd (updateElevationProfile_begin example_world)) = (Inr samples, w2)
      \<and> samples \<noteq> []
      \<and> list_all (\<lambda>s. groundElevation s = None) samples)
   \<and> \<not> (\<exists>x y. FillText (Placeholder MsgFetchFailed) x y
              \<in> set (drawn (updateElevationProfile failing_network example_world)))
   \<and> FillText AltitudeAxis 0 0 \<in> set (drawn (updateElevationProfile failing_network example_world))"
proof -
  obtain samples w2 where
    s: "sampleElevationAlongRoute failing_network (state_waypoints example_world)
          (snd (updateElevationProfile_begin example_world)) = (Inr samples, w2)"
    and n: "never_succeeds failing_network \<and> tileCache example_world = (\<lambda>key. None)
          \<longrightarrow> list_all (\<lambda>s. groundElevation s = None) samples"
    and c: "max_arguments samples \<le> argument_limit example_world \<longrightarrow>
          (\<exists>pre x y cmds.
              drawn (updateElevationProfile failing_network example_world)
                = drawn example_world @ pre @ [FillText (Placeholder MsgComputing) x y] @ cmds
            \<and> list_all chart_cmd pre
            \<and> list_all (\<lambda>c. \<not> is_placeholder c) cmds
            \<and> FillText AltitudeAxis 0 0 \<in> set cmds
            \<and> StrokeStyle ''#ff6b6b'' \<in> set cmds
            \<and> (list_all (\<lambda>s. groundElevation s = None) samples \<longrightarrow> Fill \<notin> set cmds))
          \<and> console (updateElevationProfile failing_network example_world) = console w2"
    using refresh_outcome[OF example_world_facts(1), of failing_network] by blast
  have m: "max_arguments samples \<le> argument_limit example_world" and e: "samples \<noteq> []"
    using example_world_arguments[OF s] by simp_all
  from c m obtain pre x y cmds where
    d: "drawn (updateElevationProfile failing_network example_world)
        = drawn example_world @ pre @ [FillText (Placeholder MsgComputing) x y] @ cmds"
    and p: "list_all chart_cmd pre"
    and c': "list_all (\<lambda>c. \<not> is_placeholder c) cmds"
    and a: "FillText AltitudeAxis 0 0 \<in> set cmds"
    by blast
  have 1: "list_all (\<lambda>s. groundElevation s = None) samples"
    using n never_succeeds_failing_network example_world_facts(3) by blast
  have 2: "FillText (Placeholder MsgFetchFailed) x' y'
      \<notin> set (drawn (updateElevationProfile failing_network example_world))" for x' y'
  proof
    assume "FillText (Placeholder MsgFetchFailed) x' y'
      \<in> set (drawn (updateElevationProfile failing_network example_world))"
    then consider "FillText (Placeholder MsgFetchFailed) x' y' \<in> set pre"
      | "FillText (Placeholder MsgFetchFailed) x' y' \<in> set cmds"
      by (auto simp add: d example_world_facts(4))
    then show False
    proof cases
      case 1
      with p show False by (auto simp add: list_all_iff)
    next
      case 2
      with c' show False by (auto simp add: list_all_iff)
    qed
  qed
  have 3: "FillText AltitudeAxis 0 0 \<in> set (drawn (updateElevationProfile failing_network example_world))"
    using a by (simp add: d)
  show ?thesis using s e 1 2 3 by blast
qed



text \<open>
  Claim C8, as the code has it. In exact arithmetic the interpolation returns \<open>a\<close> at 0
  and \<open>b\<close> at 1. In the arithmetic of doubles it returns \<open>a\<close> at 0 whenever the difference
  \<open>b - a\<close> is finite, and \<open>b\<close> at 1 whenever the difference is computed without a
  rounding error.
\<close>

theorem interpolation_endpoints:
  "interpolateCoordinate a b 0 = a
   \<and> interpolateCoordinate a b 1 = b
   \<and> (is_double x \<and> fl_sub (Finite y) (Finite x) = Finite d
        \<longrightarrow> interpolateCoordinate_double (Finite x) (Finite y) (Finite 0) = Finite x)
   \<and> (is_double y \<and> fl_sub (Finite y) (Finite x) = Finite (y - x)
        \<longrightarrow> interpolateCoordinate_double (Finite x) (Finite y) (Finite 1) = Finite y)"
  using interpolate_double_0[of x y d] interpolate_double_1[of y x]
  by (simp add: interpolateCoordinate_def)

theorem interpolation_endpoints_witness:
  "is_double 100 \<and> is_double 150
   \<and> fl_sub (Finite 150) (Finite 100) = Finite (150 - 100)
   \<and> interpolateCoordinate_double (Finite 100) (Finite 150) (Finite 0) = Finite 100
   \<and> interpolateCoordinate_double (Finite 100) (Finite 150) (Finite 1) = Finite 150"
proof -
  have a: "is_double 100" and b: "is_double 150"
    by (simp_all only: is_double_def round64_100 round64_150)
  have d: "fl_sub (Finite 150) (Finite 100) = Finite (150 - 100)"
    by (simp add: fl_sub_def round64_50)
  show ?thesis
    using a b d interpolation_endpoints[of 0 0 100 150 "150 - 100"] by blast
qed

text \<open>
  Claim C8 as stated fails in the arithmetic of the code. At 1, between \<open>2 ^ 55\<close> and 1:
  the difference \<open>1 - 2 ^ 55\<close> rounds to \<open>- (2 ^ 55)\<close>, and the result is 0, not 1. At 0,
  between \<open>- (2 ^ 1023)\<close> and \<open>2 ^ 1023\<close>: the difference overflows to infinity, its
  product with 0 is NaN, and so is the result.
\<close>

theorem interpolation_endpoint_counterexample:
  "is_double (2 ^ 55) \<and> is_double 1
   \<and> interpolateCoordinate_double (Finite (2 ^ 55)) (Finite 1) (Finite 1) = Finite 0
   \<and> interpolateCoordinate_double (Finite (2 ^ 55)) (Finite 1) (Finite 1) \<noteq> Finite 1
   \<and> is_double (- (2 ^ 1023)) \<and> is_double (2 ^ 1023) \<and> is_double 0
   \<and> interpolateCoordinate_double (Finite (- (2 ^ 1023))) (Finite (2 ^ 1023)) (Finite 0) = NaN"
proof -
  have s: "fl_sub (Finite 1) (Finite (2 ^ 55)) = Finite (- (2 ^ 55))"
    by (simp only: fl_sub_def fl_neg.simps fl_add.simps round64_1_minus_2_55)
  have m: "fl_mul (Finite (- (2 ^ 55))) (Finite 1) = Finite (- (2 ^ 55))"
    by (simp only: fl_mul.simps mult_1_right round64_neg_2_55)
  have a: "fl_add (Finite (2 ^ 55)) (Finite (- (2 ^ 55))) = Finite 0"
    by (simp only: fl_add.simps add.right_inverse round64_0)
  have 1: "interpolateCoordinate_double (Finite (2 ^ 55)) (Finite 1) (Finite 1) = Finite 0"
    by (simp only: interpolateCoordinate_double_def s m a)
  have s': "fl_sub (Finite (2 ^ 1023)) (Finite (- (2 ^ 1023))) = PosInf"
    by (simp only: fl_sub_def fl_neg.simps fl_add.simps minus_minus round64_2_1024)
  have m': "fl_mul PosInf (Finite 0) = NaN"
    by simp
  have a': "fl_add (Finite (- (2 ^ 1023))) NaN = NaN"
    by simp
  have 2: "interpolateCoordinate_double (Finite (- (2 ^ 1023))) (Finite (2 ^ 1023)) (Finite 0) = NaN"
    by (simp only: interpolateCoordinate_double_def s' m' a')
  have d: "is_double (2 ^ 55)" "is_double 1" "is_double (- (2 ^ 1023))" "is_double (2 ^ 1023)"
      "is_double 0"
    by (simp_all only: is_double_def round64_2_55 round64_1 round64_2_1023 round64_neg_2_1023
          round64_0)
  have 3: "interpolateCoordinate_double (Finite (2 ^ 55)) (Finite 1) (Finite 1) \<noteq> Finite 1"
    by (simp only: 1) simp
  show ?thesis
    using 1 2 3 d by blast
qed


end
